(* ===== verification/Gcob_Prelude.thy ===== *)
theory Gcob_Prelude
  imports Main "HOL-Library.Word" "HOL-Library.AList"
begin

text \<open>
  The shared vocabulary of the development: machine integers at the widths the Rust code uses,
  the hash maps the services keep behind their locks, the contract such a map offers to its
  clients (with the weight lemmas the counters rest on), and reachability with the invariant
  rule that every step relation of the development instantiates.
\<close>

section \<open>Types of the model\<close>

type_synonym u8 = "8 word"
type_synonym u16 = "16 word"
type_synonym u32 = "32 word"
type_synonym u64 = "64 word"

text \<open>An \<open>i64\<close> is its two's complement bit pattern, read with \<open>sint\<close>; the cast \<open>as i64\<close> of a
  \<open>u64\<close> is therefore the identity on the bits. \<open>usize\<close> is that of the 64-bit targets.\<close>

type_synonym i64 = "64 word"
type_synonym usize = "64 word"

text \<open>\<open>String\<close> and \<open>&str\<close> are the list of their UTF-8 bytes (\<open>char\<close> is a byte of HOL); raw
  buffers (\<open>Vec<u8>\<close>, \<open>&[u8]\<close>) are lists of \<open>u8\<close>.\<close>

type_synonym bytes = "u8 list"

named_theorems hmap_simps \<open>equations of the hash map operations\<close>
named_theorems fmt_simps \<open>rendering of numbers and strings\<close>
named_theorems state_defs \<open>definitions a state invariant unfolds\<close>

section \<open>Word arithmetic of the counters\<close>

definition saturating_sub :: "'a::len word \<Rightarrow> 'a word \<Rightarrow> 'a word" where
  "saturating_sub a b = (if a < b then 0 else a - b)"

lemma unat_saturating_sub: "unat (saturating_sub a b) = unat a - unat b"
  by (simp add: saturating_sub_def unat_sub_if' word_less_nat_alt word_le_nat_alt)

lemma unat_of_nat_small [simp]:
  "n < 2 ^ LENGTH('a) \<Longrightarrow> unat (of_nat n :: 'a::len word) = n"
  by (simp add: unat_of_nat)

lemma unat_Suc_word:
  "unat w + 1 < 2 ^ LENGTH('a) \<Longrightarrow> unat (w + 1 :: 'a::len word) = unat w + 1"
  by (simp add: unat_word_ariths)

lemma unat_add_one_below:
  assumes "w < (v :: 'a::len word)"
  shows "unat (w + 1) = unat w + 1"
proof (rule unat_Suc_word)
  have "unat w < unat v" using assms by (simp add: word_less_nat_alt)
  moreover have "unat v < 2 ^ LENGTH('a)" by (rule unsigned_less)
  ultimately show "unat w + 1 < 2 ^ LENGTH('a)" by linarith
qed

lemma unat_sub_of_nat:
  assumes "n \<le> unat w"
  shows "unat (w - of_nat n :: 'a::len word) = unat w - n"
proof -
  have "unat w < 2 ^ LENGTH('a)" by (rule unsigned_less)
  with assms have "n < 2 ^ LENGTH('a)" by (rule le_less_trans)
  then have "unat (of_nat n :: 'a word) = n" by simp
  then show ?thesis using assms by (metis unat_sub word_le_nat_alt)
qed

section \<open>Results\<close>

text \<open>\<open>Result<T, E>\<close> is \<open>'e + 't\<close> with the error on the left; the operator \<open>?\<close> is \<open>and_then\<close>.\<close>

named_theorems result_simps \<open>when a result is an error and when it is a value\<close>

definition and_then :: "'e + 'a \<Rightarrow> ('a \<Rightarrow> 'e + 'b) \<Rightarrow> 'e + 'b" where
  "and_then r f = (case r of Inl e \<Rightarrow> Inl e | Inr a \<Rightarrow> f a)"

lemma and_then_simps [simp]: "and_then (Inl e) f = Inl e" "and_then (Inr a) f = f a"
  by (simp_all add: and_then_def)

lemma and_then_Inr [result_simps]: "and_then r f = Inr b \<longleftrightarrow> (\<exists>a. r = Inr a \<and> f a = Inr b)"
  by (cases r) auto

lemma and_then_Inl [result_simps]:
  "and_then r f = Inl e \<longleftrightarrow> r = Inl e \<or> (\<exists>a. r = Inr a \<and> f a = Inl e)"
  by (cases r) auto

lemma and_then_InlE:
  assumes "and_then r f = Inl e"
  obtains "r = Inl e" | a where "r = Inr a" "f a = Inl e"
  using assms by (cases r) auto

section \<open>Hash maps\<close>

text \<open>
  A \<open>HashMap<String, V>\<close> is an association list with distinct keys. The order of the entries is
  the iteration order, which no property of the development depends on.
\<close>

type_synonym 'v hmap = "(string \<times> 'v) list"

definition hm_wf :: "'v hmap \<Rightarrow> bool" where
  "hm_wf m \<longleftrightarrow> distinct (map fst m)"

definition hm_empty :: "'v hmap" where
  "hm_empty = []"

definition hm_get :: "'v hmap \<Rightarrow> string \<Rightarrow> 'v option" where
  "hm_get m k = map_of m k"

definition hm_put :: "string \<Rightarrow> 'v \<Rightarrow> 'v hmap \<Rightarrow> 'v hmap" where
  "hm_put k v m = AList.update k v m"

definition hm_del :: "string \<Rightarrow> 'v hmap \<Rightarrow> 'v hmap" where
  "hm_del k m = AList.delete k m"

definition hm_entries :: "'v hmap \<Rightarrow> (string \<times> 'v) list" where
  "hm_entries m = m"

definition hm_retain :: "(string \<Rightarrow> 'v \<Rightarrow> bool) \<Rightarrow> 'v hmap \<Rightarrow> 'v hmap" where
  "hm_retain P m = filter (\<lambda>(k, v). P k v) m"

definition hm_len :: "'v hmap \<Rightarrow> nat" where
  "hm_len m = length m"

lemma hm_get_empty [hmap_simps]: "hm_get hm_empty k = None"
  by (simp add: hm_get_def hm_empty_def)

lemma hm_get_put [hmap_simps]: "hm_get (hm_put k v m) k' = (if k' = k then Some v else hm_get m k')"
  by (simp add: hm_get_def hm_put_def update_conv')

lemma hm_get_del [hmap_simps]: "hm_get (hm_del k m) k' = (if k' = k then None else hm_get m k')"
  by (simp add: hm_get_def hm_del_def delete_conv')

lemma hm_wf_empty [intro, simp]: "hm_wf hm_empty"
  by (simp add: hm_wf_def hm_empty_def)

lemma hm_wf_put [intro, simp]: "hm_wf m \<Longrightarrow> hm_wf (hm_put k v m)"
  by (simp add: hm_wf_def hm_put_def distinct_update)

lemma hm_wf_del [intro, simp]: "hm_wf m \<Longrightarrow> hm_wf (hm_del k m)"
  by (simp add: hm_wf_def hm_del_def distinct_delete)

lemma hm_wf_retain [intro, simp]: "hm_wf m \<Longrightarrow> hm_wf (hm_retain P m)"
  by (auto simp: hm_wf_def hm_retain_def distinct_map intro: inj_on_subset)

lemma hm_entries_get: "hm_wf m \<Longrightarrow> (k, v) \<in> set (hm_entries m) \<longleftrightarrow> hm_get m k = Some v"
  by (simp add: hm_wf_def hm_entries_def hm_get_def)

lemma hm_get_retain [hmap_simps]:
  assumes "hm_wf m"
  shows "hm_get (hm_retain P m) k = (case hm_get m k of None \<Rightarrow> None | Some v \<Rightarrow> if P k v then Some v else None)"
proof -
  have "\<And>v. (k, v) \<in> set (hm_entries (hm_retain P m)) \<longleftrightarrow> (k, v) \<in> set (hm_entries m) \<and> P k v"
    by (auto simp: hm_entries_def hm_retain_def)
  then have iff: "\<And>v. hm_get (hm_retain P m) k = Some v \<longleftrightarrow> hm_get m k = Some v \<and> P k v"
    using assms by (simp add: hm_entries_get)
  show ?thesis
  proof (cases "hm_get m k")
    case None
    then show ?thesis using iff by (cases "hm_get (hm_retain P m) k") auto
  next
    case (Some w)
    show ?thesis
    proof (cases "P k w")
      case True
      then show ?thesis using iff [of w] Some by simp
    next
      case False
      have "hm_get (hm_retain P m) k \<noteq> Some u" for u using iff [of u] Some False by auto
      then show ?thesis using Some False by (cases "hm_get (hm_retain P m) k") auto
    qed
  qed
qed

section \<open>The contract of a keyed store\<close>

text \<open>
  What the services rely on when they keep a map behind a lock: lookups after an insert and a
  removal, and a duplicate-free enumeration. The clients' counters are sums over the
  enumeration, so the lemmas say how such a sum moves when one entry changes.
\<close>

locale keyed_store =
  fixes get :: "'m \<Rightarrow> 'k \<Rightarrow> 'v option"
    and put :: "'k \<Rightarrow> 'v \<Rightarrow> 'm \<Rightarrow> 'm"
    and del :: "'k \<Rightarrow> 'm \<Rightarrow> 'm"
    and entries :: "'m \<Rightarrow> ('k \<times> 'v) list"
    and wf :: "'m \<Rightarrow> bool"
  assumes get_put: "get (put k v m) k' = (if k' = k then Some v else get m k')"
    and get_del: "get (del k m) k' = (if k' = k then None else get m k')"
    and wf_put: "wf m \<Longrightarrow> wf (put k v m)"
    and wf_del: "wf m \<Longrightarrow> wf (del k m)"
    and distinct_entries: "wf m \<Longrightarrow> distinct (map fst (entries m))"
    and set_entries: "wf m \<Longrightarrow> (k, v) \<in> set (entries m) \<longleftrightarrow> get m k = Some v"
begin

lemma weight_as_sum:
  assumes "wf m"
  shows "(\<Sum>(k, v)\<leftarrow>entries m. (f k v :: nat)) = (\<Sum>k\<in>{k. get m k \<noteq> None}. f k (the (get m k)))"
proof -
  have d: "distinct (entries m)"
    using distinct_entries [OF assms] by (simp add: distinct_map)
  have inj: "inj_on fst (set (entries m))"
    using distinct_entries [OF assms] by (simp add: distinct_map)
  have dom: "fst ` set (entries m) = {k. get m k \<noteq> None}"
    using set_entries [OF assms] by force
  have "(\<Sum>(k, v)\<leftarrow>entries m. f k v) = (\<Sum>p\<in>set (entries m). f (fst p) (snd p))"
    using d by (simp add: sum_list_distinct_conv_sum_set split_beta)
  also have "\<dots> = (\<Sum>p\<in>set (entries m). f (fst p) (the (get m (fst p))))"
    using set_entries [OF assms] by (intro sum.cong) (force simp: prod_eq_iff)+
  also have "\<dots> = (\<Sum>k\<in>fst ` set (entries m). f k (the (get m k)))"
    using inj by (simp add: sum.reindex)
  finally show ?thesis by (simp add: dom)
qed

lemma finite_keys: "wf m \<Longrightarrow> finite {k. get m k \<noteq> None}"
proof -
  assume "wf m"
  then have "{k. get m k \<noteq> None} = fst ` set (entries m)"
    using set_entries by force
  then show ?thesis by simp
qed

lemma weight_put:
  assumes "wf m"
  shows "(\<Sum>(k, v)\<leftarrow>entries (put k v m). (f k v :: nat)) + (case get m k of None \<Rightarrow> 0 | Some w \<Rightarrow> f k w)
    = (\<Sum>(k, v)\<leftarrow>entries m. f k v) + f k v"
proof -
  let ?K = "{k'. get m k' \<noteq> None}"
  let ?g = "\<lambda>k'. f k' (the (get m k'))"
  let ?h = "\<lambda>k'. f k' (the (get (put k v m) k'))"
  have K: "{k'. get (put k v m) k' \<noteq> None} = insert k ?K" by (auto simp: get_put)
  have fin: "finite ?K" using assms by (rule finite_keys)
  have eq: "sum ?h (?K - {k}) = sum ?g (?K - {k})" by (rule sum.cong) (auto simp: get_put)
  have "(\<Sum>(k, v)\<leftarrow>entries (put k v m). f k v) = sum ?h (insert k ?K)"
    using weight_as_sum [OF wf_put [OF assms]] K by simp
  also have "\<dots> = f k v + sum ?g (?K - {k})"
    using fin eq by (simp add: sum.insert_remove get_put)
  finally have new: "(\<Sum>(k, v)\<leftarrow>entries (put k v m). f k v) = f k v + sum ?g (?K - {k})" .
  have old: "sum ?g (?K - {k}) + (case get m k of None \<Rightarrow> 0 | Some w \<Rightarrow> f k w) = sum ?g ?K"
  proof (cases "get m k")
    case None
    then have "?K - {k} = ?K" by auto
    with None show ?thesis by simp
  next
    case (Some w)
    then have "k \<in> ?K" by simp
    from sum.remove [OF fin this, of ?g] Some show ?thesis by simp
  qed
  show ?thesis using new old weight_as_sum [OF assms, of f] by simp
qed

lemma weight_del:
  assumes "wf m"
  shows "(\<Sum>(k, v)\<leftarrow>entries (del k m). (f k v :: nat)) + (case get m k of None \<Rightarrow> 0 | Some w \<Rightarrow> f k w)
    = (\<Sum>(k, v)\<leftarrow>entries m. f k v)"
proof -
  let ?K = "{k'. get m k' \<noteq> None}"
  let ?g = "\<lambda>k'. f k' (the (get m k'))"
  have K: "{k'. get (del k m) k' \<noteq> None} = ?K - {k}" by (auto simp: get_del)
  have "(\<Sum>(k, v)\<leftarrow>entries (del k m). f k v) = sum ?g (?K - {k})"
    unfolding weight_as_sum [OF wf_del [OF assms]] K by (rule sum.cong) (auto simp: get_del)
  moreover have "sum ?g (?K - {k}) + (case get m k of None \<Rightarrow> 0 | Some w \<Rightarrow> f k w) = sum ?g ?K"
  proof (cases "get m k")
    case None
    then have "?K - {k} = ?K" by auto
    with None show ?thesis by simp
  next
    case (Some w)
    then have "k \<in> ?K" by simp
    from sum.remove [OF finite_keys [OF assms] this, of ?g] Some show ?thesis by simp
  qed
  ultimately show ?thesis using weight_as_sum [OF assms, of f] by simp
qed

lemma weight_member:
  assumes "wf m" and "get m k = Some v"
  shows "(f k v :: nat) \<le> (\<Sum>(k, v)\<leftarrow>entries m. f k v)"
proof -
  have "k \<in> {k. get m k \<noteq> None}" using assms(2) by simp
  from member_le_sum [OF this, of "\<lambda>k. f k (the (get m k))"] finite_keys [OF assms(1)] assms(2)
  show ?thesis by (simp add: weight_as_sum [OF assms(1)])
qed

end

interpretation hm: keyed_store hm_get hm_put hm_del hm_entries hm_wf
proof unfold_locales
  show "\<And>m :: 'a hmap. hm_wf m \<Longrightarrow> distinct (map fst (hm_entries m))"
    by (simp add: hm_wf_def hm_entries_def)
qed (auto simp: hmap_simps hm_entries_get)

section \<open>Reachability and invariants\<close>

inductive reach :: "('s \<Rightarrow> bool) \<Rightarrow> ('s \<Rightarrow> 's \<Rightarrow> bool) \<Rightarrow> 's \<Rightarrow> bool"
  for init :: "'s \<Rightarrow> bool" and step :: "'s \<Rightarrow> 's \<Rightarrow> bool" where
  reach_init: "init s \<Longrightarrow> reach init step s"
| reach_step: "reach init step s \<Longrightarrow> step s t \<Longrightarrow> reach init step t"

text \<open>
  The contract of a component whose operations run one at a time under a lock: an invariant of
  the initial states that every operation keeps holds in every reachable state.
\<close>

locale guarded_system =
  fixes init :: "'s \<Rightarrow> bool" and step :: "'s \<Rightarrow> 's \<Rightarrow> bool" and inv :: "'s \<Rightarrow> bool"
  assumes inv_init: "init s \<Longrightarrow> inv s"
    and inv_step: "inv s \<Longrightarrow> step s t \<Longrightarrow> inv t"
begin

lemma reach_inv: "reach init step s \<Longrightarrow> inv s"
  by (induction rule: reach.induct) (auto intro: inv_init inv_step)

lemma steps_inv: "inv s \<Longrightarrow> step\<^sup>*\<^sup>* s t \<Longrightarrow> inv t"
  by (rotate_tac, induction rule: rtranclp_induct) (auto intro: inv_step)

end

lemma reach_steps: "reach init step s \<Longrightarrow> step\<^sup>*\<^sup>* s t \<Longrightarrow> reach init step t"
  by (rotate_tac, induction rule: rtranclp_induct) (auto intro: reach_step)

end
