(* ===== verification/Rust_Text.thy ===== *)
theory Rust_Text
  imports Gcob_Prelude
begin

text \<open>
  The parts of Rust's \<open>core::str\<close>, \<open>core::fmt\<close> and integer parsing that the program uses, on
  the UTF-8 bytes of a string: decimal rendering and parsing with its overflow checks, ASCII
  classification and lower case, code points, trimming, splitting.
\<close>

section \<open>Characters\<close>

abbreviation code :: "char \<Rightarrow> nat" where
  "code c \<equiv> of_char c"

definition is_digit :: "char \<Rightarrow> bool" where
  "is_digit c \<longleftrightarrow> 48 \<le> code c \<and> code c \<le> 57"

definition is_upper :: "char \<Rightarrow> bool" where
  "is_upper c \<longleftrightarrow> 65 \<le> code c \<and> code c \<le> 90"

definition is_lower :: "char \<Rightarrow> bool" where
  "is_lower c \<longleftrightarrow> 97 \<le> code c \<and> code c \<le> 122"

definition is_alnum :: "char \<Rightarrow> bool" where
  "is_alnum c \<longleftrightarrow> is_digit c \<or> is_upper c \<or> is_lower c"

definition lower :: "char \<Rightarrow> char" where
  "lower c = (if is_upper c then char_of (code c + 32) else c)"

definition is_ascii :: "string \<Rightarrow> bool" where
  "is_ascii s \<longleftrightarrow> list_all (\<lambda>c. code c < 128) s"

definition to_ascii_lowercase :: "string \<Rightarrow> string" where
  "to_ascii_lowercase s = map lower s"

definition eq_ignore_ascii_case :: "string \<Rightarrow> string \<Rightarrow> bool" where
  "eq_ignore_ascii_case s t \<longleftrightarrow> to_ascii_lowercase s = to_ascii_lowercase t"

text \<open>A byte of the form \<open>10xxxxxx\<close> continues a code point; every other byte starts one.\<close>

definition is_cont :: "char \<Rightarrow> bool" where
  "is_cont c \<longleftrightarrow> 128 \<le> code c \<and> code c < 192"

lemma code_char_of [simp]: "code (char_of n) = n mod 256"
  by simp

lemma lower_not_upper: "\<not> is_upper (lower c)"
proof (cases "is_upper c")
  case True
  then have "65 \<le> code c" "code c \<le> 90" by (simp_all add: is_upper_def)
  then have "code (lower c) = code c + 32"
    using True by (simp add: lower_def)
  with \<open>65 \<le> code c\<close> show ?thesis by (simp add: is_upper_def)
qed (simp add: lower_def)

lemma lower_lower [simp]: "lower (lower c) = lower c"
  using lower_not_upper [of c] by (simp add: lower_def)

lemma to_ascii_lowercase_idem [simp]:
  "to_ascii_lowercase (to_ascii_lowercase s) = to_ascii_lowercase s"
  by (simp add: to_ascii_lowercase_def comp_def)

lemma eq_ignore_ascii_case_equiv:
  "eq_ignore_ascii_case s s"
  "eq_ignore_ascii_case s t \<Longrightarrow> eq_ignore_ascii_case t s"
  "eq_ignore_ascii_case s t \<Longrightarrow> eq_ignore_ascii_case t u \<Longrightarrow> eq_ignore_ascii_case s u"
  by (simp_all add: eq_ignore_ascii_case_def)

section \<open>Decimal rendering and parsing\<close>

definition digit_char :: "nat \<Rightarrow> char" where
  "digit_char d = char_of (48 + d)"

definition digit_val :: "char \<Rightarrow> nat option" where
  "digit_val c = (if is_digit c then Some (code c - 48) else None)"

fun fmt_nat :: "nat \<Rightarrow> string" where
  "fmt_nat n = (if n < 10 then [digit_char n] else fmt_nat (n div 10) @ [digit_char (n mod 10)])"

declare fmt_nat.simps [simp del]

definition fmt_word :: "'a::len word \<Rightarrow> string" where
  "fmt_word w = fmt_nat (unat w)"

definition fmt_int :: "int \<Rightarrow> string" where
  "fmt_int i = (if i < 0 then ''-'' @ fmt_nat (nat (- i)) else fmt_nat (nat i))"

text \<open>\<open>from_str_radix(10)\<close> of an unsigned type with values below \<open>b\<close>: each digit is a
  \<open>checked_mul\<close> by ten and a \<open>checked_add\<close>; one leading \<open>+\<close> is accepted, a lone sign is not.\<close>

fun parse_digits :: "nat \<Rightarrow> nat \<Rightarrow> string \<Rightarrow> nat option" where
  "parse_digits b acc [] = Some acc"
| "parse_digits b acc (c # cs) =
     (case digit_val c of
        None \<Rightarrow> None
      | Some d \<Rightarrow>
          if b \<le> acc * 10 then None
          else if b \<le> acc * 10 + d then None
          else parse_digits b (acc * 10 + d) cs)"

definition parse_below :: "nat \<Rightarrow> string \<Rightarrow> nat option" where
  "parse_below b s =
     (case s of
        [] \<Rightarrow> None
      | [c] \<Rightarrow> if c = CHR ''+'' \<or> c = CHR ''-'' then None else parse_digits b 0 [c]
      | c # cs \<Rightarrow> if c = CHR ''+'' then parse_digits b 0 cs else parse_digits b 0 (c # cs))"

definition parse_uint :: "string \<Rightarrow> 'a::len word option" where
  "parse_uint s = map_option of_nat (parse_below (2 ^ LENGTH('a)) s)"

lemma digit_val_digit_char [simp]: "d < 10 \<Longrightarrow> digit_val (digit_char d) = Some d"
  by (simp add: digit_val_def digit_char_def is_digit_def)

lemma digit_val_Some: "digit_val c = Some d \<longleftrightarrow> is_digit c \<and> d = code c - 48"
  by (auto simp: digit_val_def)

lemma sign_not_digit [simp]:
  "digit_val (CHR ''+'') = None" "digit_val (CHR ''-'') = None" "digit_val (CHR ''.'') = None"
  by (simp_all add: digit_val_def is_digit_def)

lemma digit_char_not_sign: "d < 10 \<Longrightarrow> digit_char d \<noteq> CHR ''+'' \<and> digit_char d \<noteq> CHR ''-''"
  by (metis digit_val_digit_char option.distinct(1) sign_not_digit(1,2))

lemma is_digit_digit_char [simp]: "d < 10 \<Longrightarrow> is_digit (digit_char d)"
  by (metis digit_val_Some digit_val_digit_char)

lemma fmt_nat_nonempty [simp]: "fmt_nat n \<noteq> []"
  by (subst fmt_nat.simps) simp

lemma fmt_nat_digits: "list_all is_digit (fmt_nat n)"
proof (induction n rule: fmt_nat.induct)
  case (1 n)
  then show ?case by (subst fmt_nat.simps) auto
qed

lemma fmt_nat_hd: "\<exists>d < 10. hd (fmt_nat n) = digit_char d"
proof (induction n rule: fmt_nat.induct)
  case (1 n)
  show ?case
  proof (cases "n < 10")
    case True
    then show ?thesis by (subst fmt_nat.simps) auto
  next
    case False
    with 1 show ?thesis by (subst fmt_nat.simps) auto
  qed
qed

text \<open>The value of a digit string, and what the checked loop computes of it.\<close>

definition dec_step :: "nat \<Rightarrow> char \<Rightarrow> nat" where
  "dec_step a c = a * 10 + (code c - 48)"

definition dec_value :: "nat \<Rightarrow> string \<Rightarrow> nat" where
  "dec_value a s = foldl dec_step a s"

lemma dec_value_ge: "a \<le> dec_value a s"
proof (induction s arbitrary: a)
  case (Cons c cs)
  have "a \<le> dec_step a c" by (simp add: dec_step_def)
  also have "\<dots> \<le> dec_value (dec_step a c) cs" by (rule Cons.IH)
  finally show ?case by (simp add: dec_value_def)
qed (simp add: dec_value_def)

lemma parse_digits_iff:
  "acc < b \<Longrightarrow> parse_digits b acc s = Some n \<longleftrightarrow> list_all is_digit s \<and> n = dec_value acc s \<and> n < b"
proof (induction b acc s arbitrary: n rule: parse_digits.induct)
  case (1 b acc)
  then show ?case by (auto simp: dec_value_def)
next
  case (2 b acc c cs)
  show ?case
  proof (cases "is_digit c")
    case False
    then show ?thesis by (simp add: digit_val_def)
  next
    case True
    then have d: "digit_val c = Some (code c - 48)" by (simp add: digit_val_def)
    have "dec_step acc c \<le> dec_value (dec_step acc c) cs" by (rule dec_value_ge)
    then have le: "acc * 10 + (code c - 48) \<le> dec_value acc (c # cs)"
      by (simp add: dec_value_def dec_step_def)
    show ?thesis
    proof (cases "acc * 10 + (code c - 48) < b")
      case True
      from "2.IH" [OF d _ _ True, of n] True d \<open>is_digit c\<close> show ?thesis
        by (auto simp: dec_value_def dec_step_def)
    next
      case False
      with le d show ?thesis by auto
    qed
  qed
qed

lemma parse_digits_append:
  "parse_digits b acc (xs @ ys) = Option.bind (parse_digits b acc xs) (\<lambda>a. parse_digits b a ys)"
  by (induction b acc xs rule: parse_digits.induct) (auto split: option.splits)

lemma dec_value_fmt_nat: "dec_value 0 (fmt_nat n) = n"
proof (induction n rule: fmt_nat.induct)
  case (1 n)
  have c: "code (digit_char d) - 48 = d" if "d < 10" for d
    using that by (simp add: digit_char_def)
  show ?case
  proof (cases "n < 10")
    case True
    then show ?thesis by (subst fmt_nat.simps) (simp add: dec_value_def dec_step_def c)
  next
    case False
    with 1 have "foldl dec_step 0 (fmt_nat (n div 10)) = n div 10" by (simp add: dec_value_def)
    with False show ?thesis
      by (subst fmt_nat.simps) (simp add: dec_value_def dec_step_def c)
  qed
qed

lemma parse_below_digits:
  assumes "s \<noteq> []" and "list_all is_digit s" and "0 < b"
  shows "parse_below b s = (if dec_value 0 s < b then Some (dec_value 0 s) else None)"
proof -
  obtain c cs where s: "s = c # cs" using assms(1) by (cases s) auto
  with assms(2) have "is_digit c" by simp
  then have "c \<noteq> CHR ''+''" "c \<noteq> CHR ''-''" by (auto simp: is_digit_def)
  then have p: "parse_below b s = parse_digits b 0 s"
    by (cases cs) (simp_all add: parse_below_def s del: parse_digits.simps)
  show ?thesis
    using parse_digits_iff [OF assms(3), of s] assms(2) unfolding p
    by (cases "parse_digits b 0 s") auto
qed

lemma parse_below_Some:
  assumes "parse_below b s = Some n" and "0 < b"
  shows "n < b"
  using assms
  by (auto simp: parse_below_def parse_digits_iff [OF assms(2)] simp del: parse_digits.simps
      split: list.splits if_splits)

lemma parse_below_fmt_nat: "n < b \<Longrightarrow> parse_below b (fmt_nat n) = Some n"
  by (subst parse_below_digits) (simp_all add: fmt_nat_digits dec_value_fmt_nat)

lemma parse_fmt_word: "parse_uint (fmt_word w) = Some (w :: 'a::len word)"
proof -
  have "unat w < 2 ^ LENGTH('a)" by (rule unsigned_less)
  then show ?thesis by (simp add: parse_uint_def fmt_word_def parse_below_fmt_nat)
qed

lemma fmt_nat_inj: "fmt_nat m = fmt_nat n \<Longrightarrow> m = n"
  by (metis dec_value_fmt_nat)

lemma fmt_word_inj: "fmt_word v = fmt_word w \<Longrightarrow> v = w"
  by (metis fmt_nat_inj fmt_word_def word_unat_eq_iff)

section \<open>Code points and slices\<close>

text \<open>\<open>s.chars()\<close>: each byte that is no continuation byte starts a code point, which takes the
  continuation bytes that follow it.\<close>

function chars :: "string \<Rightarrow> string list" where
  "chars [] = []"
| "chars (c # cs) = (c # takeWhile is_cont cs) # chars (dropWhile is_cont cs)"
  by pat_completeness auto
termination
  by (relation "measure length") (auto simp: less_Suc_eq_le length_dropWhile_le)

definition is_char_boundary :: "string \<Rightarrow> nat \<Rightarrow> bool" where
  "is_char_boundary s i \<longleftrightarrow> i = 0 \<or> i = length s \<or> (i < length s \<and> \<not> is_cont (s ! i))"

text \<open>\<open>&s[..n]\<close> panics (\<open>None\<close>) when \<open>n\<close> is out of range or inside a code point.\<close>

definition slice_to :: "string \<Rightarrow> nat \<Rightarrow> string option" where
  "slice_to s n = (if is_char_boundary s n then Some (take n s) else None)"

lemma concat_chars [simp]: "concat (chars s) = s"
  by (induction s rule: chars.induct) auto

lemma ascii_not_cont: "is_ascii s \<Longrightarrow> n < length s \<Longrightarrow> \<not> is_cont (s ! n)"
  by (fastforce simp: is_ascii_def is_cont_def list_all_length)

lemma slice_to_ascii: "is_ascii s \<Longrightarrow> n \<le> length s \<Longrightarrow> slice_to s n = Some (take n s)"
  using ascii_not_cont [of s n] by (auto simp: slice_to_def is_char_boundary_def)

lemma chars_ascii: "is_ascii s \<Longrightarrow> chars s = map (\<lambda>c. [c]) s"
proof (induction s)
  case (Cons c cs)
  have "takeWhile is_cont cs = []" "dropWhile is_cont cs = cs"
    using Cons.prems by (cases cs; simp add: is_ascii_def is_cont_def)+
  with Cons show ?case by (simp add: is_ascii_def)
qed simp

lemma while_prefix:
  assumes "\<forall>x \<in> set a. P x" and "b = [] \<or> \<not> P (hd b)"
  shows "takeWhile P (a @ b) = a" "dropWhile P (a @ b) = b"
  using assms by (cases b; simp)+

lemma length_chars_take_le: "length (chars (concat (take n (chars s)))) \<le> n"
proof (induction n arbitrary: s)
  case (Suc n)
  show ?case
  proof (cases s)
    case (Cons c cs)
    let ?t = "takeWhile is_cont cs" and ?r = "concat (take n (chars (dropWhile is_cont cs)))"
    have hd: "?r = [] \<or> \<not> is_cont (hd ?r)"
    proof (cases "dropWhile is_cont cs")
      case Nil
      show ?thesis unfolding Nil by simp
    next
      case (Cons d ds)
      have "\<not> is_cont d" using hd_dropWhile [of is_cont cs] Cons by simp
      then show ?thesis using Cons by (cases n) simp_all
    qed
    have nd: "\<forall>x \<in> set ?t. is_cont x" by (auto dest: set_takeWhileD)
    have t: "takeWhile is_cont (?t @ ?r) = ?t" "dropWhile is_cont (?t @ ?r) = ?r"
      using while_prefix [OF nd hd] by blast+
    have "concat (take (Suc n) (chars s)) = c # (?t @ ?r)"
      by (simp only: Cons chars.simps take_Suc_Cons concat.simps append_Cons)
    then have "chars (concat (take (Suc n) (chars s))) = (c # ?t) # chars ?r"
      by (simp only: chars.simps t)
    then show ?thesis using Suc.IH [of "dropWhile is_cont cs"] by simp
  qed simp
qed simp

section \<open>Trimming\<close>

text \<open>The UTF-8 encodings of the code points with the Unicode \<open>White_Space\<close> property, which
  \<open>str::trim\<close> removes at both ends.\<close>

definition unicode_ws :: "string list" where
  "unicode_ws = map (map char_of)
     ([[9], [10], [11], [12], [13], [32], [0xC2, 0x85], [0xC2, 0xA0], [0xE1, 0x9A, 0x80],
       [0xE2, 0x80, 0x80], [0xE2, 0x80, 0x81], [0xE2, 0x80, 0x82], [0xE2, 0x80, 0x83],
       [0xE2, 0x80, 0x84], [0xE2, 0x80, 0x85], [0xE2, 0x80, 0x86], [0xE2, 0x80, 0x87],
       [0xE2, 0x80, 0x88], [0xE2, 0x80, 0x89], [0xE2, 0x80, 0x8A], [0xE2, 0x80, 0xA8],
       [0xE2, 0x80, 0xA9], [0xE2, 0x80, 0xAF], [0xE2, 0x81, 0x9F], [0xE3, 0x80, 0x80]] :: nat list list)"

definition starts_with :: "string \<Rightarrow> string \<Rightarrow> bool" where
  "starts_with p s \<longleftrightarrow> take (length p) s = p"

definition ends_with :: "string \<Rightarrow> string \<Rightarrow> bool" where
  "ends_with p s \<longleftrightarrow> length p \<le> length s \<and> drop (length s - length p) s = p"

definition strip_prefix :: "string \<Rightarrow> string \<Rightarrow> string option" where
  "strip_prefix p s = (if starts_with p s then Some (drop (length p) s) else None)"

definition strip_suffix :: "string \<Rightarrow> string \<Rightarrow> string option" where
  "strip_suffix p s = (if ends_with p s then Some (take (length s - length p) s) else None)"

lemma unicode_ws_nonempty: "w \<in> set unicode_ws \<Longrightarrow> w \<noteq> []"
  by (auto simp: unicode_ws_def)

lemma starts_with_append [simp]: "starts_with p (p @ s)"
  by (simp add: starts_with_def)

lemma starts_with_iff: "starts_with p s \<longleftrightarrow> (\<exists>t. s = p @ t)"
  unfolding starts_with_def by (metis append_eq_conv_conj append_take_drop_id)

lemma strip_suffix_Some: "strip_suffix p s = Some t \<longleftrightarrow> s = t @ p"
  by (auto simp: strip_suffix_def ends_with_def) (metis append_take_drop_id)+

lemma strip_prefix_Some: "strip_prefix p s = Some t \<longleftrightarrow> s = p @ t"
  by (auto simp: strip_prefix_def starts_with_iff)

function trim_start :: "string \<Rightarrow> string" where
  "trim_start s = (case find (\<lambda>w. starts_with w s) unicode_ws of
     None \<Rightarrow> s
   | Some w \<Rightarrow> trim_start (drop (length w) s))"
  by pat_completeness auto
termination
proof (relation "measure length")
  fix s w assume "find (\<lambda>w. starts_with w s) unicode_ws = Some w"
  then have "w \<in> set unicode_ws" "starts_with w s" by (auto simp: find_Some_iff)
  then show "(drop (length w) s, s) \<in> measure length"
    using unicode_ws_nonempty by (fastforce simp: starts_with_iff)
qed simp

function trim_end :: "string \<Rightarrow> string" where
  "trim_end s = (case find (\<lambda>w. ends_with w s) unicode_ws of
     None \<Rightarrow> s
   | Some w \<Rightarrow> trim_end (take (length s - length w) s))"
  by pat_completeness auto
termination
proof (relation "measure length")
  fix s w assume "find (\<lambda>w. ends_with w s) unicode_ws = Some w"
  then have "w \<in> set unicode_ws" "ends_with w s" by (auto simp: find_Some_iff)
  then have w: "0 < length w" "length w \<le> length s"
    using unicode_ws_nonempty [of w] by (auto simp: ends_with_def)
  then have "length s - length w < length s" by linarith
  then show "(take (length s - length w) s, s) \<in> measure length"
    by simp
qed simp

declare trim_start.simps [simp del] trim_end.simps [simp del]

definition trim :: "string \<Rightarrow> string" where
  "trim s = trim_end (trim_start s)"

definition no_ws_start :: "string \<Rightarrow> bool" where
  "no_ws_start s \<longleftrightarrow> find (\<lambda>w. starts_with w s) unicode_ws = None"

definition no_ws_end :: "string \<Rightarrow> bool" where
  "no_ws_end s \<longleftrightarrow> find (\<lambda>w. ends_with w s) unicode_ws = None"

lemma trim_start_id: "no_ws_start s \<Longrightarrow> trim_start s = s"
  by (subst trim_start.simps) (simp add: no_ws_start_def)

lemma trim_end_id: "no_ws_end s \<Longrightarrow> trim_end s = s"
  by (subst trim_end.simps) (simp add: no_ws_end_def)

lemma trim_id: "no_ws_start s \<Longrightarrow> no_ws_end s \<Longrightarrow> trim s = s"
  by (simp add: trim_def trim_start_id trim_end_id)

lemma no_ws_end_trim_end: "no_ws_end (trim_end s)"
proof (induction s rule: trim_end.induct)
  case (1 s)
  show ?case
    using 1 by (subst trim_end.simps) (auto simp: no_ws_end_def split: option.split)
qed

text \<open>A string that starts and ends with an ASCII byte that is no white space is left alone.\<close>

definition plain_char :: "char \<Rightarrow> bool" where
  "plain_char c \<longleftrightarrow> 33 \<le> code c \<and> code c < 128"

lemma plain_no_ws:
  assumes "s \<noteq> []" and "plain_char (hd s)" and "plain_char (last s)"
  shows "no_ws_start s" "no_ws_end s"
proof -
  have h: "\<forall>w \<in> set unicode_ws. \<not> plain_char (hd w) \<and> \<not> plain_char (last w)"
    by (simp add: unicode_ws_def plain_char_def)
  show "no_ws_start s"
    using h assms unicode_ws_nonempty
    by (fastforce simp: no_ws_start_def find_None_iff starts_with_iff)
  show "no_ws_end s"
    unfolding no_ws_end_def find_None_iff
  proof
    assume "\<exists>w. w \<in> set unicode_ws \<and> ends_with w s"
    then obtain w where w: "w \<in> set unicode_ws" "ends_with w s" by blast
    then have "last s = last w"
      using unicode_ws_nonempty [OF w(1)] assms(1)
      by (metis ends_with_def last_drop drop_eq_Nil linorder_not_le)
    with h w assms(3) show False by auto
  qed
qed

lemma trim_plain: "s \<noteq> [] \<Longrightarrow> plain_char (hd s) \<Longrightarrow> plain_char (last s) \<Longrightarrow> trim s = s"
  by (simp add: trim_id plain_no_ws)

section \<open>Splitting\<close>

text \<open>\<open>s.split(c)\<close> and \<open>s.split_once(c)\<close> at an ASCII separator.\<close>

fun split_char :: "char \<Rightarrow> string \<Rightarrow> string list" where
  "split_char c [] = [[]]"
| "split_char c (x # xs) =
     (if x = c then [] # split_char c xs
      else case split_char c xs of [] \<Rightarrow> [[x]] | p # ps \<Rightarrow> (x # p) # ps)"

definition split_once :: "char \<Rightarrow> string \<Rightarrow> (string \<times> string) option" where
  "split_once c s =
     (if c \<in> set s then Some (takeWhile (\<lambda>x. x \<noteq> c) s, tl (dropWhile (\<lambda>x. x \<noteq> c) s)) else None)"

definition contains :: "string \<Rightarrow> string \<Rightarrow> bool" where
  "contains p s \<longleftrightarrow> list_ex (\<lambda>n. starts_with p (drop n s)) [0..<Suc (length s)]"

text \<open>\<open>s.lines()\<close>: the pieces that end in a line feed, without it and without a carriage return
  before it, and a last piece without one unless it is empty.\<close>

definition strip_cr :: "string \<Rightarrow> string" where
  "strip_cr l = (if l \<noteq> [] \<and> code (last l) = 13 then butlast l else l)"

definition lines :: "string \<Rightarrow> string list" where
  "lines s = (let ps = split_char (char_of (10 :: nat)) s
              in map strip_cr (butlast ps) @ (if last ps = [] then [] else [last ps]))"

lemma split_char_nonempty [simp]: "split_char c s \<noteq> []"
  by (induction s) (auto split: list.split)

fun join :: "char \<Rightarrow> string list \<Rightarrow> string" where
  "join c [] = []"
| "join c [p] = p"
| "join c (p # ps) = p @ c # join c ps"

lemma join_split_char [simp]: "join c (split_char c s) = s"
proof (induction s)
  case (Cons x xs)
  obtain p ps where "split_char c xs = p # ps" using split_char_nonempty [of c xs] by (cases "split_char c xs") auto
  with Cons show ?case by (cases ps) auto
qed simp

lemma split_char_no_sep: "p \<in> set (split_char c s) \<Longrightarrow> c \<notin> set p"
  by (induction s arbitrary: p) (auto split: list.splits if_splits)

lemma split_char_set: "p \<in> set (split_char c s) \<Longrightarrow> set p \<subseteq> set s"
proof (induction s arbitrary: p)
  case (Cons x xs)
  then show ?case by (fastforce split: list.splits if_splits)
qed simp

section \<open>Paths\<close>

text \<open>\<open>Path::join\<close> of the standard library: an absolute right side replaces the left one.\<close>

definition path_join :: "string \<Rightarrow> string \<Rightarrow> string" where
  "path_join d n =
     (if starts_with ''/'' n then n
      else if d = [] \<or> ends_with ''/'' d then d @ n else d @ ''/'' @ n)"

end
