(* ===== verification/Event_Types.thy ===== *)
theory Event_Types
  imports Rust_Text
begin

text \<open>
  The events of the bridge (\<open>events/types.rs\<close>): one datatype per enum with the source's variants,
  the fields in the source's order under selectors that carry the field names, the accessors of
  \<open>impl Event\<close> and the rendering of \<open>impl Display\<close>.
\<close>

text \<open>\<open>EventId\<close>\<close>

type_synonym event_ident = string
type_synonym timestamp = i64

datatype payment_event =
    Succeeded (pay_event_id: event_ident) (pay_timestamp: timestamp) (pay_hash: string)
      (pay_preimage: string) (pay_amount_msat: u64) (pay_amount_sent_msat: u64)
      (pay_node_id: string) (pay_created_at: timestamp)
  | Failed (pay_event_id: event_ident) (pay_timestamp: timestamp) (pay_hash: string)
      (pay_amount_msat: u64) (pay_node_id: string) (pay_failure_reason: string)
  | PartEnd (pay_event_id: event_ident) (pay_timestamp: timestamp) (pay_hash: string)
      (pay_partid: u64) (pay_amount_msat: u64)
  | PartStart (pay_event_id: event_ident) (pay_timestamp: timestamp) (pay_hash: string)
      (pay_partid: u64) (pay_amount_msat: u64)

datatype invoice_event =
    Created (inv_event_id: event_ident) (inv_timestamp: timestamp) (inv_label: string)
      (inv_amount_opt: "u64 option") (inv_description: string) (inv_bolt11: string)
      (inv_expiry: "u64 option")
  | Paid (inv_event_id: event_ident) (inv_timestamp: timestamp) (inv_label: string)
      (inv_amount_msat: u64) (inv_payment_hash: string)

datatype channel_event =
    Opened (chan_event_id: event_ident) (chan_timestamp: timestamp) (chan_node_id: string)
      (chan_channel_id: string) (chan_amount_msat: u64)
  | OpenFailed (chan_event_id: event_ident) (chan_timestamp: timestamp) (chan_node_id: string)
      (chan_reason: string)
  | StateChanged (chan_event_id: event_ident) (chan_timestamp: timestamp) (chan_channel_id: string)
      (chan_old_state: string) (chan_new_state: string)
  | PeerSig (chan_event_id: event_ident) (chan_timestamp: timestamp) (chan_channel_id: string)

datatype peer_event =
    Connected (peer_event_id: event_ident) (peer_timestamp: timestamp) (peer_node_id: string)
      (peer_addr: string) (peer_direction: string)
  | Disconnected (peer_event_id: event_ident) (peer_timestamp: timestamp) (peer_node_id: string)
  | CustomMsg (peer_event_id: event_ident) (peer_timestamp: timestamp) (peer_node_id: string)
      (peer_msgtype: u64)

datatype system_event =
    BlockAdded (sys_event_id: event_ident) (sys_timestamp: timestamp) (sys_block_height: u64)
  | BalanceSnapshot (sys_event_id: event_ident) (sys_timestamp: timestamp)
  | Shutdown (sys_event_id: event_ident) (sys_timestamp: timestamp)
  | Warning (sys_event_id: event_ident) (sys_timestamp: timestamp) (sys_source: string)
      (sys_log: string)
  | Log (sys_event_id: event_ident) (sys_timestamp: timestamp) (sys_level: string)
      (sys_message: string)
  | PluginStarted (sys_event_id: event_ident) (sys_timestamp: timestamp) (sys_name: string)
  | PluginStopped (sys_event_id: event_ident) (sys_timestamp: timestamp) (sys_name: string)
  | ForwardEvent (sys_event_id: event_ident) (sys_timestamp: timestamp) (sys_in_channel: string)
      (sys_out_channel: string) (sys_amount_msat: u64) (sys_fee_msat: u64)

datatype event =
    Payment payment_event
  | Invoice invoice_event
  | Channel channel_event
  | Peer peer_event
  | System system_event

section \<open>Accessors\<close>

fun event_id :: "event \<Rightarrow> event_ident" where
  "event_id (Payment e) =
     (case e of Succeeded i _ _ _ _ _ _ _ \<Rightarrow> i | Failed i _ _ _ _ _ \<Rightarrow> i
      | PartEnd i _ _ _ _ \<Rightarrow> i | PartStart i _ _ _ _ \<Rightarrow> i)"
| "event_id (Invoice e) = (case e of Created i _ _ _ _ _ _ \<Rightarrow> i | Paid i _ _ _ _ \<Rightarrow> i)"
| "event_id (Channel e) =
     (case e of Opened i _ _ _ _ \<Rightarrow> i | OpenFailed i _ _ _ \<Rightarrow> i
      | StateChanged i _ _ _ _ \<Rightarrow> i | PeerSig i _ _ \<Rightarrow> i)"
| "event_id (Peer e) =
     (case e of Connected i _ _ _ _ \<Rightarrow> i | Disconnected i _ _ \<Rightarrow> i | CustomMsg i _ _ _ \<Rightarrow> i)"
| "event_id (System e) =
     (case e of BlockAdded i _ _ \<Rightarrow> i | BalanceSnapshot i _ \<Rightarrow> i | Shutdown i _ \<Rightarrow> i
      | Warning i _ _ _ \<Rightarrow> i | Log i _ _ _ \<Rightarrow> i | PluginStarted i _ _ \<Rightarrow> i
      | PluginStopped i _ _ \<Rightarrow> i | ForwardEvent i _ _ _ _ _ \<Rightarrow> i)"

fun event_timestamp :: "event \<Rightarrow> timestamp" where
  "event_timestamp (Payment e) =
     (case e of Succeeded _ t _ _ _ _ _ _ \<Rightarrow> t | Failed _ t _ _ _ _ \<Rightarrow> t
      | PartEnd _ t _ _ _ \<Rightarrow> t | PartStart _ t _ _ _ \<Rightarrow> t)"
| "event_timestamp (Invoice e) = (case e of Created _ t _ _ _ _ _ \<Rightarrow> t | Paid _ t _ _ _ \<Rightarrow> t)"
| "event_timestamp (Channel e) =
     (case e of Opened _ t _ _ _ \<Rightarrow> t | OpenFailed _ t _ _ \<Rightarrow> t
      | StateChanged _ t _ _ _ \<Rightarrow> t | PeerSig _ t _ \<Rightarrow> t)"
| "event_timestamp (Peer e) =
     (case e of Connected _ t _ _ _ \<Rightarrow> t | Disconnected _ t _ \<Rightarrow> t | CustomMsg _ t _ _ \<Rightarrow> t)"
| "event_timestamp (System e) =
     (case e of BlockAdded _ t _ \<Rightarrow> t | BalanceSnapshot _ t \<Rightarrow> t | Shutdown _ t \<Rightarrow> t
      | Warning _ t _ _ \<Rightarrow> t | Log _ t _ _ \<Rightarrow> t | PluginStarted _ t _ \<Rightarrow> t
      | PluginStopped _ t _ \<Rightarrow> t | ForwardEvent _ t _ _ _ _ \<Rightarrow> t)"

section \<open>Display\<close>

fun display_event :: "event \<Rightarrow> string" where
  "display_event (Payment e) = ''Payment('' @
     (case e of Succeeded _ _ _ _ _ _ _ _ \<Rightarrow> ''Succeeded'' | Failed _ _ _ _ _ _ \<Rightarrow> ''Failed''
      | PartEnd _ _ _ _ _ \<Rightarrow> ''PartEnd'' | PartStart _ _ _ _ _ \<Rightarrow> ''PartStart'') @ '')''"
| "display_event (Invoice e) = ''Invoice('' @
     (case e of Created _ _ _ _ _ _ _ \<Rightarrow> ''Created'' | Paid _ _ _ _ _ \<Rightarrow> ''Paid'') @ '')''"
| "display_event (Channel e) = ''Channel('' @
     (case e of Opened _ _ _ _ _ \<Rightarrow> ''Opened'' | OpenFailed _ _ _ _ \<Rightarrow> ''OpenFailed''
      | StateChanged _ _ _ _ _ \<Rightarrow> ''StateChanged'' | PeerSig _ _ _ \<Rightarrow> ''PeerSig'') @ '')''"
| "display_event (Peer e) = ''Peer('' @
     (case e of Connected _ _ _ _ _ \<Rightarrow> ''Connected'' | Disconnected _ _ _ \<Rightarrow> ''Disconnected''
      | CustomMsg _ _ _ _ \<Rightarrow> ''CustomMsg'') @ '')''"
| "display_event (System e) = ''System('' @
     (case e of BlockAdded _ _ _ \<Rightarrow> ''BlockAdded'' | BalanceSnapshot _ _ \<Rightarrow> ''BalanceSnapshot''
      | Shutdown _ _ \<Rightarrow> ''Shutdown'' | Warning _ _ _ _ \<Rightarrow> ''Warning'' | Log _ _ _ _ \<Rightarrow> ''Log''
      | PluginStarted _ _ _ \<Rightarrow> ''PluginStarted'' | PluginStopped _ _ _ \<Rightarrow> ''PluginStopped''
      | ForwardEvent _ _ _ _ _ _ \<Rightarrow> ''ForwardEvent'') @ '')''"

text \<open>The accessors agree with the selectors of the variant at hand.\<close>

lemma event_id_selectors [simp]:
  "event_id (Payment p) = pay_event_id p" "event_id (Invoice i) = inv_event_id i"
  "event_id (Channel c) = chan_event_id c" "event_id (Peer q) = peer_event_id q"
  "event_id (System s) = sys_event_id s"
  by (simp_all split: payment_event.split invoice_event.split channel_event.split
      peer_event.split system_event.split)

lemma event_timestamp_selectors [simp]:
  "event_timestamp (Payment p) = pay_timestamp p" "event_timestamp (Invoice i) = inv_timestamp i"
  "event_timestamp (Channel c) = chan_timestamp c" "event_timestamp (Peer q) = peer_timestamp q"
  "event_timestamp (System s) = sys_timestamp s"
  by (simp_all split: payment_event.split invoice_event.split channel_event.split
      peer_event.split system_event.split)

declare event_id.simps [simp del] event_timestamp.simps [simp del]

end
