(* ===== verification/Event_Enricher.thy ===== *)
theory Event_Enricher
  imports Event_Types
begin

text \<open>
  The operator's recommendation for an event (\<open>events/enricher.rs\<close>): a summary and an action,
  one branch per variant, with the fee of a completed payment computed by a saturating
  subtraction.
\<close>

record recommendation =
  summary :: string
  action :: string

definition recommend :: "string \<Rightarrow> string \<Rightarrow> recommendation" where
  "recommend s a = \<lparr>summary = s, action = a\<rparr>"

fun payment_recommendation :: "payment_event \<Rightarrow> recommendation" where
  "payment_recommendation (Succeeded _ _ _ _ amount_msat amount_sent_msat _ _) =
     (let fee = saturating_sub amount_sent_msat amount_msat
      in recommend (''Payment completed. Fee: '' @ fmt_word fee @ '' msat'') ''No action required.'')"
| "payment_recommendation (Failed _ _ _ _ _ failure_reason) =
     (if failure_reason = ''timeout'' then
        recommend ''Payment timed out.'' ''Check network connectivity and CLN peers.''
      else if failure_reason = ''rejected'' then
        recommend ''Payment rejected by recipient.'' ''Verify invoice details and amount.''
      else if failure_reason = ''incorrect_payment_details'' then
        recommend ''Incorrect payment details.'' ''Verify bolt11 invoice and payment hash.''
      else if failure_reason = ''route_not_found'' then
        recommend ''No route found to destination.'' ''Check peer connectivity and channel capacity.''
      else
        recommend (''Payment failed: '' @ failure_reason)
          ''Check CLN logs for detailed error information.'')"
| "payment_recommendation (PartEnd _ _ _ _ amount_msat) =
     recommend (''Payment part completed: '' @ fmt_word amount_msat @ '' msat'')
       ''Multi-part payment in progress.''"
| "payment_recommendation (PartStart _ _ _ _ amount_msat) =
     recommend (''Payment part starting: '' @ fmt_word amount_msat @ '' msat'')
       ''Multi-part payment initiated.''"

fun invoice_recommendation :: "invoice_event \<Rightarrow> recommendation" where
  "invoice_recommendation (Created _ _ label amount_msat _ _ _) =
     (let amount_str = (case amount_msat of
          Some a \<Rightarrow> fmt_word a @ '' msat''
        | None \<Rightarrow> ''any amount'')
      in recommend (''Invoice created: '' @ label @ '' ('' @ amount_str @ '')'')
           ''Share bolt11 with payer.'')"
| "invoice_recommendation (Paid _ _ label amount_msat _) =
     recommend (''Invoice '' @ [CHR 0x27] @ label @ [CHR 0x27] @ '' paid: '' @ fmt_word amount_msat @ '' msat'')
       ''Funds received. Fulfill order if applicable.''"

fun channel_recommendation :: "channel_event \<Rightarrow> recommendation" where
  "channel_recommendation (Opened _ _ _ channel_id amount_msat) =
     recommend (''Channel '' @ channel_id @ '' opened with '' @ fmt_word amount_msat @ '' msat capacity'')
       ''Channel is ready for payments.''"
| "channel_recommendation (OpenFailed _ _ _ reason) =
     recommend (''Channel opening failed: '' @ reason)
       ''Check peer connectivity, funding transaction, and CLN logs.''"
| "channel_recommendation (StateChanged _ _ _ old_state new_state) =
     (let act = (if new_state = ''ONCHAIN''
        then ''Channel closed. Funds are on-chain. Wait for confirmation.''
        else if new_state = ''NORMAL'' then ''Channel is active and ready for payments.''
        else ''Monitor channel state for further changes.'')
      in recommend (''Channel state: '' @ old_state @ '' -> '' @ new_state) act)"
| "channel_recommendation (PeerSig _ _ channel_id) =
     recommend (''Channel '' @ channel_id @ '' received peer signature'') ''Channel update in progress.''"

fun peer_recommendation :: "peer_event \<Rightarrow> recommendation" where
  "peer_recommendation (Connected _ _ node_id addr _) =
     recommend (''Peer '' @ node_id @ '' connected at '' @ addr) ''Peer is available for payments.''"
| "peer_recommendation (Disconnected _ _ node_id) =
     recommend (''Peer '' @ node_id @ '' disconnected'') ''Check peer connectivity and network status.''"
| "peer_recommendation (CustomMsg _ _ node_id msgtype) =
     recommend (''Custom message type '' @ fmt_word msgtype @ '' from peer '' @ node_id)
       ''Custom protocol message received.''"

fun system_recommendation :: "system_event \<Rightarrow> recommendation" where
  "system_recommendation (BlockAdded _ _ block_height) =
     recommend (''New block: '' @ fmt_word block_height) ''Blockchain synced.''"
| "system_recommendation (BalanceSnapshot _ _) =
     recommend ''Balance snapshot recorded.'' ''On-chain balance state captured.''"
| "system_recommendation (Shutdown _ _) =
     recommend ''Node is shutting down.'' ''Verify graceful shutdown completes.''"
| "system_recommendation (Warning _ _ source log) =
     recommend (''Warning from '' @ source @ '': '' @ log) ''Review system health and CLN logs.''"
| "system_recommendation (Log _ _ level message) =
     recommend (''['' @ level @ ''] '' @ message) ''Log entry recorded.''"
| "system_recommendation (PluginStarted _ _ name) =
     recommend (''Plugin '' @ [CHR 0x27] @ name @ [CHR 0x27] @ '' started'') ''Plugin is active.''"
| "system_recommendation (PluginStopped _ _ name) =
     recommend (''Plugin '' @ [CHR 0x27] @ name @ [CHR 0x27] @ '' stopped'')
       ''Plugin may need restart if unintentional.''"
| "system_recommendation (ForwardEvent _ _ in_channel out_channel amount_msat fee_msat) =
     recommend (''Forwarded '' @ fmt_word amount_msat @ '' msat from '' @ in_channel @ '' to '' @
         out_channel @ '' (fee: '' @ fmt_word fee_msat @ '' msat)'')
       ''Forward event recorded.''"

fun enrich :: "event \<Rightarrow> recommendation" where
  "enrich (Payment e) = payment_recommendation e"
| "enrich (Invoice e) = invoice_recommendation e"
| "enrich (Channel e) = channel_recommendation e"
| "enrich (Peer e) = peer_recommendation e"
| "enrich (System e) = system_recommendation e"

section \<open>The fee of a completed payment\<close>

lemma payment_fee_exact:
  "summary (payment_recommendation (Succeeded i t h p amount sent n c)) =
     ''Payment completed. Fee: '' @ fmt_nat (unat sent - unat amount) @ '' msat''"
  by (simp add: recommend_def fmt_word_def unat_saturating_sub)

text \<open>A recommendation never reads the preimage of a payment.\<close>

fun erase_preimage :: "event \<Rightarrow> event" where
  "erase_preimage (Payment (Succeeded i t h p a s n c)) = Payment (Succeeded i t h '''' a s n c)"
| "erase_preimage e = e"

lemma enrich_erase_preimage [simp]: "enrich (erase_preimage e) = enrich e"
  by (cases e rule: erase_preimage.cases) simp_all

end
