(* ===== verification/Event_Sanitize.thy ===== *)
theory Event_Sanitize
  imports Event_Types
begin

text \<open>
  The filter of sensitive fields (\<open>events/security.rs\<close>). Truncating a log line slices the string
  at a byte offset, which panics inside a code point: \<open>sanitize\<close> is therefore partial.
\<close>

definition NODE_ID_MAX_LEN :: nat where
  "NODE_ID_MAX_LEN = 8"

definition LOG_MAX_LEN :: nat where
  "LOG_MAX_LEN = 200"

definition truncate_id :: "string \<Rightarrow> string" where
  "truncate_id s = concat (take NODE_ID_MAX_LEN (chars s))"

definition truncate_log :: "string \<Rightarrow> string option" where
  "truncate_log log =
     (if LOG_MAX_LEN < length log
      then map_option (\<lambda>p. p @ ''...'') (slice_to log LOG_MAX_LEN)
      else Some log)"

fun sanitize_payment :: "payment_event \<Rightarrow> payment_event" where
  "sanitize_payment (Succeeded i t h _ a s n c) = Succeeded i t h '''' a s (truncate_id n) c"
| "sanitize_payment (Failed i t h a n r) = Failed i t h a (truncate_id n) r"
| "sanitize_payment other = other"

definition sanitize_invoice :: "invoice_event \<Rightarrow> invoice_event" where
  "sanitize_invoice e = e"

fun sanitize_channel :: "channel_event \<Rightarrow> channel_event" where
  "sanitize_channel (Opened i t n c a) = Opened i t (truncate_id n) c a"
| "sanitize_channel (OpenFailed i t n r) = OpenFailed i t (truncate_id n) r"
| "sanitize_channel other = other"

fun sanitize_peer :: "peer_event \<Rightarrow> peer_event" where
  "sanitize_peer (Connected i t n a d) = Connected i t (truncate_id n) a d"
| "sanitize_peer (Disconnected i t n) = Disconnected i t (truncate_id n)"
| "sanitize_peer (CustomMsg i t n m) = CustomMsg i t (truncate_id n) m"

fun sanitize_system :: "system_event \<Rightarrow> system_event option" where
  "sanitize_system (Warning i t s l) = map_option (Warning i t (truncate_id s)) (truncate_log l)"
| "sanitize_system other = Some other"

fun sanitize :: "event \<Rightarrow> event option" where
  "sanitize (Payment e) = Some (Payment (sanitize_payment e))"
| "sanitize (Invoice e) = Some (Invoice (sanitize_invoice e))"
| "sanitize (Channel e) = Some (Channel (sanitize_channel e))"
| "sanitize (Peer e) = Some (Peer (sanitize_peer e))"
| "sanitize (System e) = map_option System (sanitize_system e)"

section \<open>Truncation\<close>

lemma length_chars_truncate_id: "length (chars (truncate_id s)) \<le> 8"
  by (simp add: truncate_id_def NODE_ID_MAX_LEN_def length_chars_take_le)

lemma truncate_id_idem [simp]: "truncate_id (truncate_id s) = truncate_id s"
  unfolding truncate_id_def NODE_ID_MAX_LEN_def
  by (metis concat_chars length_chars_take_le take_all)

lemma truncate_id_ascii: "is_ascii s \<Longrightarrow> truncate_id s = take 8 s"
  by (simp add: truncate_id_def NODE_ID_MAX_LEN_def chars_ascii take_map)

lemma truncate_log_panics:
  "truncate_log l = None \<longleftrightarrow> LOG_MAX_LEN < length l \<and> is_cont (l ! LOG_MAX_LEN)"
  by (auto simp: truncate_log_def slice_to_def is_char_boundary_def LOG_MAX_LEN_def)

lemma truncate_log_cases:
  assumes "truncate_log l = Some l'"
  obtains "l' = l" "length l \<le> 200" | "l' = take 200 l @ ''...''" "200 < length l"
  using assms
  by (auto simp: truncate_log_def slice_to_def LOG_MAX_LEN_def split: if_splits)

lemma truncate_log_length: "truncate_log l = Some l' \<Longrightarrow> length l' \<le> 203"
  by (erule truncate_log_cases) auto

lemma truncate_log_idem: "truncate_log l = Some l' \<Longrightarrow> truncate_log l' = Some l'"
proof (erule truncate_log_cases)
  assume l': "l' = take 200 l @ ''...''" "200 < length l"
  then have "l' ! 200 = CHR ''.''" by (simp add: nth_append)
  with l' show ?thesis
    by (simp add: truncate_log_def slice_to_def LOG_MAX_LEN_def is_char_boundary_def is_cont_def)
qed (simp add: truncate_log_def LOG_MAX_LEN_def)

lemma sanitize_payment_idem [simp]: "sanitize_payment (sanitize_payment e) = sanitize_payment e"
  by (cases e) simp_all

lemma sanitize_channel_idem [simp]: "sanitize_channel (sanitize_channel e) = sanitize_channel e"
  by (cases e) simp_all

lemma sanitize_peer_idem [simp]: "sanitize_peer (sanitize_peer e) = sanitize_peer e"
  by (cases e) simp_all

lemma sanitize_system_idem: "sanitize_system e = Some e' \<Longrightarrow> sanitize_system e' = Some e'"
  by (cases e) (auto dest: truncate_log_idem)

section \<open>What a sanitised event looks like\<close>

text \<open>The contract of the filter: no preimage, node ids and warning sources of at most eight
  characters, warning logs of at most 200 bytes and an ellipsis.\<close>

fun filtered :: "event \<Rightarrow> bool" where
  "filtered (Payment (Succeeded _ _ _ p _ _ n _)) \<longleftrightarrow> p = '''' \<and> length (chars n) \<le> 8"
| "filtered (Payment (Failed _ _ _ _ n _)) \<longleftrightarrow> length (chars n) \<le> 8"
| "filtered (Payment _) \<longleftrightarrow> True"
| "filtered (Invoice _) \<longleftrightarrow> True"
| "filtered (Channel (Opened _ _ n _ _)) \<longleftrightarrow> length (chars n) \<le> 8"
| "filtered (Channel (OpenFailed _ _ n _)) \<longleftrightarrow> length (chars n) \<le> 8"
| "filtered (Channel _) \<longleftrightarrow> True"
| "filtered (Peer e) \<longleftrightarrow> length (chars (peer_node_id e)) \<le> 8"
| "filtered (System (Warning _ _ s l)) \<longleftrightarrow> length (chars s) \<le> 8 \<and> length l \<le> 203"
| "filtered (System _) \<longleftrightarrow> True"

text \<open>When sanitising an event does not panic, its result carries no preimage, no node id or
  warning source of more than eight characters and no warning log of more than 203 bytes; it
  keeps the kind, the id and the time of the event, and sanitising it again changes nothing.\<close>

theorem sanitize_filters:
  assumes "sanitize e = Some e'"
  shows "filtered e' \<and> sanitize e' = Some e' \<and> display_event e' = display_event e
    \<and> event_id e' = event_id e \<and> event_timestamp e' = event_timestamp e"
proof (cases e)
  case (Payment p)
  with assms show ?thesis by (cases p) (auto simp: length_chars_truncate_id)
next
  case (Invoice i)
  with assms show ?thesis by (auto simp: sanitize_invoice_def)
next
  case (Channel c)
  with assms show ?thesis by (cases c) (auto simp: length_chars_truncate_id)
next
  case (Peer p)
  with assms show ?thesis by (cases p) (auto simp: length_chars_truncate_id)
next
  case (System s)
  with assms show ?thesis
    by (cases s) (auto simp: length_chars_truncate_id truncate_log_length truncate_log_idem)
qed

lemma sanitize_filters_witness:
  "\<exists>e'. sanitize (Payment (Succeeded ''e'' 1 ''h'' ''secret'' 10 11 ''02abcdef1234'' 9)) = Some e'
     \<and> filtered e'"
proof -
  let ?e = "Payment (Succeeded ''e'' 1 ''h'' ''secret'' 10 11 ''02abcdef1234'' 9)"
  let ?e' = "Payment (Succeeded ''e'' 1 ''h'' '''' 10 11 ''02abcdef'' 9)"
  have "sanitize ?e = Some ?e'" by code_simp
  with sanitize_filters [OF this] show ?thesis by blast
qed

text \<open>Sanitising panics on exactly one kind of event: a warning whose log is longer than 200
  bytes and has a code point that straddles byte 200.\<close>

theorem sanitize_panics:
  "sanitize e = None \<longleftrightarrow>
     (\<exists>i t s l. e = System (Warning i t s l) \<and> 200 < length l \<and> is_cont (l ! 200))"
proof (cases e)
  case (System s)
  then show ?thesis by (cases s) (auto simp: truncate_log_panics LOG_MAX_LEN_def)
qed simp_all

end
