(* ===== verification/Proto_Events.thy ===== *)
theory Proto_Events
  imports Event_Enricher Event_Sanitize
begin

text \<open>
  The events as the gRPC clients receive them: the \<open>oneof\<close> of \<open>proto/api/v1/cln/events.proto\<close> and
  the five converters \<open>to_proto_event\<close> of \<open>domain/\<close>, one per stream. \<open>None\<close> means the stream skips
  the event.
\<close>

datatype proto_event =
    PaymentSucceeded (pb_event_id: string) (pb_timestamp: i64) (pb_payment_hash: string)
      (pb_amount_msat: u64) (pb_amount_sent_msat: u64) (pb_node_id: string)
      (pb_recommendation: string)
  | PaymentFailed (pb_event_id: string) (pb_timestamp: i64) (pb_payment_hash: string)
      (pb_failure_reason: string) (pb_amount_msat: u64) (pb_recommendation: string)
  | InvoiceCreated (pb_event_id: string) (pb_timestamp: i64) (pb_label: string)
      (pb_amount_opt: "u64 option") (pb_description: string) (pb_bolt11: string)
      (pb_recommendation: string) (pb_expiry: "u64 option")
  | InvoicePaid (pb_event_id: string) (pb_timestamp: i64) (pb_label: string)
      (pb_amount_msat: u64) (pb_payment_hash: string) (pb_recommendation: string)
  | ChannelOpened (pb_event_id: string) (pb_timestamp: i64) (pb_node_id: string)
      (pb_channel_id: string) (pb_amount_msat: u64) (pb_recommendation: string)
  | ChannelOpenFailed (pb_event_id: string) (pb_timestamp: i64) (pb_node_id: string)
      (pb_reason: string) (pb_recommendation: string)
  | ChannelStateChanged (pb_event_id: string) (pb_timestamp: i64) (pb_channel_id: string)
      (pb_old_state: string) (pb_new_state: string) (pb_recommendation: string)
  | PeerConnected (pb_event_id: string) (pb_timestamp: i64) (pb_node_id: string)
      (pb_addr: string) (pb_direction: string) (pb_recommendation: string)
  | PeerDisconnected (pb_event_id: string) (pb_timestamp: i64) (pb_node_id: string)
      (pb_recommendation: string)
  | SystemWarning (pb_event_id: string) (pb_timestamp: i64) (pb_source: string) (pb_log: string)
      (pb_recommendation: string)
  | SystemBlockAdded (pb_event_id: string) (pb_timestamp: i64) (pb_block_height: u64)
      (pb_recommendation: string)

text \<open>\<open>format!("{}. {}", rec.summary, rec.action)\<close>\<close>

definition rec_text :: "recommendation \<Rightarrow> string" where
  "rec_text r = summary r @ ''. '' @ action r"

section \<open>The converters\<close>

fun payment_to_proto_event :: "event \<Rightarrow> proto_event option" where
  "payment_to_proto_event (Payment e) =
     (case e of
        Succeeded eid ts payment_hash _ amount_msat amount_sent_msat node_id _ \<Rightarrow>
          (let r = payment_recommendation e in
           Some (PaymentSucceeded eid ts payment_hash amount_msat amount_sent_msat node_id
             (rec_text r)))
      | Failed eid ts payment_hash amount_msat _ failure_reason \<Rightarrow>
          (let r = payment_recommendation e in
           Some (PaymentFailed eid ts payment_hash failure_reason amount_msat (rec_text r)))
      | _ \<Rightarrow> None)"
| "payment_to_proto_event _ = None"

fun invoice_to_proto_event :: "event \<Rightarrow> proto_event option" where
  "invoice_to_proto_event (Invoice e) =
     (case e of
        Created eid ts label amount_msat description bolt11 expiry \<Rightarrow>
          (let r = invoice_recommendation e in
           Some (InvoiceCreated eid ts label amount_msat description bolt11 (rec_text r) expiry))
      | Paid eid ts label amount_msat payment_hash \<Rightarrow>
          (let r = invoice_recommendation e in
           Some (InvoicePaid eid ts label amount_msat payment_hash (rec_text r))))"
| "invoice_to_proto_event _ = None"

fun channel_to_proto_event :: "event \<Rightarrow> proto_event option" where
  "channel_to_proto_event (Channel e) =
     (case e of
        Opened eid ts node_id channel_id amount_msat \<Rightarrow>
          (let r = channel_recommendation e in
           Some (ChannelOpened eid ts node_id channel_id amount_msat (rec_text r)))
      | OpenFailed eid ts node_id reason \<Rightarrow>
          (let r = channel_recommendation e in
           Some (ChannelOpenFailed eid ts node_id reason (rec_text r)))
      | StateChanged eid ts channel_id old_state new_state \<Rightarrow>
          (let r = channel_recommendation e in
           Some (ChannelStateChanged eid ts channel_id old_state new_state (rec_text r)))
      | _ \<Rightarrow> None)"
| "channel_to_proto_event _ = None"

fun peer_to_proto_event :: "event \<Rightarrow> proto_event option" where
  "peer_to_proto_event (Peer e) =
     (case e of
        Connected eid ts node_id addr direction \<Rightarrow>
          (let r = peer_recommendation e in
           Some (PeerConnected eid ts node_id addr direction (rec_text r)))
      | Disconnected eid ts node_id \<Rightarrow>
          (let r = peer_recommendation e in
           Some (PeerDisconnected eid ts node_id (rec_text r)))
      | _ \<Rightarrow> None)"
| "peer_to_proto_event _ = None"

fun system_to_proto_event :: "event \<Rightarrow> proto_event option" where
  "system_to_proto_event (System e) =
     (let r = system_recommendation e;
          (eid, ts, source, log) =
            (case e of
               BlockAdded eid ts block_height \<Rightarrow>
                 (eid, ts, ''blockchain'', ''New block height: '' @ fmt_word block_height)
             | BalanceSnapshot eid ts \<Rightarrow>
                 (eid, ts, ''wallet'', ''Balance snapshot recorded.'')
             | Shutdown eid ts \<Rightarrow> (eid, ts, ''node'', ''Node is shutting down.'')
             | Warning eid ts source log \<Rightarrow> (eid, ts, source, log)
             | Log eid ts level message \<Rightarrow>
                 (eid, ts, ''cln'', ''['' @ level @ ''] '' @ message)
             | PluginStarted eid ts name \<Rightarrow>
                 (eid, ts, ''plugin'', ''Plugin '' @ name @ '' started'')
             | PluginStopped eid ts name \<Rightarrow>
                 (eid, ts, ''plugin'', ''Plugin '' @ name @ '' stopped'')
             | ForwardEvent eid ts in_channel out_channel amount_msat fee_msat \<Rightarrow>
                 (eid, ts, ''forward'',
                  ''Forwarded '' @ fmt_word amount_msat @ '' msat from '' @ in_channel @ '' to '' @
                    out_channel @ '' (fee: '' @ fmt_word fee_msat @ '' msat)''))
      in Some (SystemWarning eid ts source log (rec_text r)))"
| "system_to_proto_event _ = None"

section \<open>The converters as one table\<close>

text \<open>The converter of the stream for an event type. The five topics are the ones the bridge
  dispatches under.\<close>

definition converter :: "string \<Rightarrow> event \<Rightarrow> proto_event option" where
  "converter topic =
     (if topic = ''payment'' then payment_to_proto_event
      else if topic = ''invoice'' then invoice_to_proto_event
      else if topic = ''channel'' then channel_to_proto_event
      else if topic = ''peer'' then peer_to_proto_event
      else if topic = ''system'' then system_to_proto_event
      else (\<lambda>_. None))"

text \<open>The topic under which the bridge dispatches an event (\<open>events/subscribers/mod.rs\<close>).\<close>

fun event_topic :: "event \<Rightarrow> string" where
  "event_topic (Payment _) = ''payment''"
| "event_topic (Invoice _) = ''invoice''"
| "event_topic (Channel _) = ''channel''"
| "event_topic (Peer _) = ''peer''"
| "event_topic (System _) = ''system''"

text \<open>The variants no stream carries.\<close>

fun silent :: "event \<Rightarrow> bool" where
  "silent (Payment (PartEnd _ _ _ _ _)) = True"
| "silent (Payment (PartStart _ _ _ _ _)) = True"
| "silent (Channel (PeerSig _ _ _)) = True"
| "silent (Peer (CustomMsg _ _ _ _)) = True"
| "silent _ = False"

lemma converter_simps:
  "converter ''payment'' = payment_to_proto_event"
  "converter ''invoice'' = invoice_to_proto_event"
  "converter ''channel'' = channel_to_proto_event"
  "converter ''peer'' = peer_to_proto_event"
  "converter ''system'' = system_to_proto_event"
  by (simp_all add: converter_def)

lemma payment_dom: "payment_to_proto_event e \<noteq> None \<longleftrightarrow> ''payment'' = event_topic e \<and> \<not> silent e"
  by (cases e rule: silent.cases) (simp_all add: Let_def)

lemma invoice_dom: "invoice_to_proto_event e \<noteq> None \<longleftrightarrow> ''invoice'' = event_topic e \<and> \<not> silent e"
  by (cases e rule: silent.cases) (simp_all add: Let_def split: invoice_event.split)

lemma channel_dom: "channel_to_proto_event e \<noteq> None \<longleftrightarrow> ''channel'' = event_topic e \<and> \<not> silent e"
  by (cases e rule: silent.cases) (simp_all add: Let_def)

lemma peer_dom: "peer_to_proto_event e \<noteq> None \<longleftrightarrow> ''peer'' = event_topic e \<and> \<not> silent e"
  by (cases e rule: silent.cases) (simp_all add: Let_def)

lemma system_dom: "system_to_proto_event e \<noteq> None \<longleftrightarrow> ''system'' = event_topic e \<and> \<not> silent e"
  by (cases e rule: silent.cases) (simp_all add: Let_def split: system_event.split)

lemma event_topic_range:
  "event_topic e \<in> {''payment'', ''invoice'', ''channel'', ''peer'', ''system''}"
  by (cases e) simp_all

lemma converter_dom: "converter topic e \<noteq> None \<longleftrightarrow> topic = event_topic e \<and> \<not> silent e"
proof (cases "topic \<in> {''payment'', ''invoice'', ''channel'', ''peer'', ''system''}")
  case True
  then have "topic = ''payment'' \<or> topic = ''invoice'' \<or> topic = ''channel'' \<or>
      topic = ''peer'' \<or> topic = ''system''"
    by (simp only: insert_iff empty_iff simp_thms)
  then show ?thesis
  proof (elim disjE)
    assume t: "topic = ''payment''"
    show ?thesis unfolding t converter_simps by (rule payment_dom)
  next
    assume t: "topic = ''invoice''"
    show ?thesis unfolding t converter_simps by (rule invoice_dom)
  next
    assume t: "topic = ''channel''"
    show ?thesis unfolding t converter_simps by (rule channel_dom)
  next
    assume t: "topic = ''peer''"
    show ?thesis unfolding t converter_simps by (rule peer_dom)
  next
    assume t: "topic = ''system''"
    show ?thesis unfolding t converter_simps by (rule system_dom)
  qed
next
  case False
  have "topic \<noteq> event_topic e"
    using event_topic_range [of e] False by metis
  with False show ?thesis by (simp add: converter_def)
qed

section \<open>What a converted event says\<close>

text \<open>Every message repeats the id and the time of its event and carries the recommendation.\<close>

definition faithful :: "event \<Rightarrow> proto_event \<Rightarrow> bool" where
  "faithful e p \<longleftrightarrow> pb_event_id p = event_id e \<and> pb_timestamp p = event_timestamp e
     \<and> pb_recommendation p = rec_text (enrich e)"

lemma payment_faithful: "payment_to_proto_event (Payment e) = Some p \<Longrightarrow> faithful (Payment e) p"
  by (cases e) (auto simp: faithful_def Let_def simp del: payment_recommendation.simps)

lemma invoice_faithful: "invoice_to_proto_event (Invoice e) = Some p \<Longrightarrow> faithful (Invoice e) p"
  by (cases e) (auto simp: faithful_def Let_def simp del: invoice_recommendation.simps)

lemma channel_faithful: "channel_to_proto_event (Channel e) = Some p \<Longrightarrow> faithful (Channel e) p"
  by (cases e) (auto simp: faithful_def Let_def simp del: channel_recommendation.simps)

lemma peer_faithful: "peer_to_proto_event (Peer e) = Some p \<Longrightarrow> faithful (Peer e) p"
  by (cases e) (auto simp: faithful_def Let_def simp del: peer_recommendation.simps)

lemma system_faithful: "system_to_proto_event (System e) = Some p \<Longrightarrow> faithful (System e) p"
  by (cases e) (auto simp: faithful_def Let_def simp del: system_recommendation.simps)

lemma converter_faithful: "converter topic e = Some p \<Longrightarrow> faithful e p"
proof -
  assume p: "converter topic e = Some p"
  then have "topic = event_topic e" using converter_dom by (metis option.distinct(1))
  with p show ?thesis
    by (cases e rule: event_topic.cases)
      (simp_all add: converter_simps payment_faithful invoice_faithful channel_faithful
        peer_faithful system_faithful del: payment_to_proto_event.simps
        invoice_to_proto_event.simps channel_to_proto_event.simps peer_to_proto_event.simps
        system_to_proto_event.simps)
qed

lemma converter_erase_preimage: "converter topic (erase_preimage e) = converter topic e"
  by (cases e rule: erase_preimage.cases) (simp_all add: converter_def Let_def)

section \<open>Properties\<close>

text \<open>The converter of a stream accepts exactly the events of its own topic, except part
  starts, part ends, peer signatures and custom messages, which no stream carries; an accepted
  event keeps its id and its time and carries the recommendation of the enricher.\<close>

theorem conversion_complete:
  "(converter topic e \<noteq> None \<longleftrightarrow> topic = event_topic e \<and> \<not> silent e) \<and>
   (case converter topic e of None \<Rightarrow> True | Some p \<Rightarrow>
      pb_event_id p = event_id e \<and> pb_timestamp p = event_timestamp e \<and>
      pb_recommendation p = rec_text (enrich e))"
  using converter_dom [of topic e] converter_faithful [of topic e]
  by (auto simp: faithful_def split: option.split)

text \<open>No stream exposes the preimage of a payment: two payments that differ in nothing but
  their preimages are converted to the same message by every converter.\<close>

theorem preimage_not_converted:
  "converter topic (Payment (Succeeded i t h p a s n c)) =
   converter topic (Payment (Succeeded i t h q a s n c))"
  using converter_erase_preimage [of topic "Payment (Succeeded i t h p a s n c)"]
    converter_erase_preimage [of topic "Payment (Succeeded i t h q a s n c)"]
  by simp

end
