(* ===== verification/Event_Router.thy ===== *)
theory Event_Router
  imports Proto_Events
begin

text \<open>
  The fan-out of events to subscribers (\<open>events/router.rs\<close>). The subscriber map sits behind a
  read-write lock, so \<open>subscribe\<close> and \<open>unsubscribe\<close> are atomic; \<open>dispatch\<close> takes a snapshot under
  the read lock, delivers without the lock and removes failing subscribers under the write
  lock, so its three parts interleave with everything else. The bounded channels of tokio are
  the parameter \<open>try_send\<close> acting on a world of channels.
\<close>

section \<open>State\<close>

text \<open>\<open>drops: Arc<AtomicU64>\<close> is an address into the counters of the router: a snapshot shares the
  counter with the subscriber it was taken from.\<close>

record subscriber =
  sub_id :: string
  sub_sender :: nat
  sub_drops :: nat

record router_limits =
  lim_subscribers_global :: usize
  lim_subscribers_per_type :: usize
  lim_slow_subscriber_max_drops :: u64

datatype subscribe_error = GlobalLimit | TypeLimit

record router_stats =
  events_dispatched :: u64
  events_delivered :: u64
  events_dropped :: u64
  subscribers_dropped :: u64

record event_router =
  subscribers :: "subscriber list hmap"
  max_subscribers_global :: usize
  max_subscribers_per_type :: usize
  slow_subscriber_max_drops :: u64
  tracked_subscribers :: usize
  stats :: router_stats
  drop_counters :: "nat \<Rightarrow> u64"
  next_counter :: nat

definition DEFAULT_SLOW_SUBSCRIBER_MAX_DROPS :: u64 where
  "DEFAULT_SLOW_SUBSCRIBER_MAX_DROPS = 64"

definition default_router_limits :: router_limits where
  "default_router_limits = \<lparr>lim_subscribers_global = 512, lim_subscribers_per_type = 256,
     lim_slow_subscriber_max_drops = DEFAULT_SLOW_SUBSCRIBER_MAX_DROPS\<rparr>"

definition zero_stats :: router_stats where
  "zero_stats = \<lparr>events_dispatched = 0, events_delivered = 0, events_dropped = 0,
     subscribers_dropped = 0\<rparr>"

definition with_limits :: "router_limits \<Rightarrow> event_router" where
  "with_limits l = \<lparr>subscribers = hm_empty,
     max_subscribers_global = max (lim_subscribers_global l) 1,
     max_subscribers_per_type = max (lim_subscribers_per_type l) 1,
     slow_subscriber_max_drops = max (lim_slow_subscriber_max_drops l) 1,
     tracked_subscribers = 0, stats = zero_stats, drop_counters = (\<lambda>_. 0), next_counter = 0\<rparr>"

definition with_max_drops :: "u64 \<Rightarrow> event_router" where
  "with_max_drops n = with_limits (default_router_limits\<lparr>lim_slow_subscriber_max_drops := n\<rparr>)"

definition new_router :: event_router where
  "new_router = with_limits default_router_limits"

section \<open>Operations\<close>

definition topic_list :: "event_router \<Rightarrow> string \<Rightarrow> subscriber list" where
  "topic_list r topic = (case hm_get (subscribers r) topic of None \<Rightarrow> [] | Some l \<Rightarrow> l)"

definition subscriber_count :: "event_router \<Rightarrow> string \<Rightarrow> nat" where
  "subscriber_count r topic = (case hm_get (subscribers r) topic of None \<Rightarrow> 0 | Some l \<Rightarrow> length l)"

definition total_subscribers :: "event_router \<Rightarrow> nat" where
  "total_subscribers r = (\<Sum>(_, l)\<leftarrow>hm_entries (subscribers r). length l)"

text \<open>\<open>Arc::new(AtomicU64::new(0))\<close> allocates a counter that no subscriber holds yet.\<close>

definition subscribe ::
  "event_router \<Rightarrow> string \<Rightarrow> string \<Rightarrow> nat \<Rightarrow> (subscribe_error + unit) \<times> event_router" where
  "subscribe r topic i snd_handle =
     (let type_count = subscriber_count r topic in
      if unat (max_subscribers_per_type r) \<le> type_count then (Inl TypeLimit, r)
      else if max_subscribers_global r \<le> tracked_subscribers r then (Inl GlobalLimit, r)
      else
        (let s = \<lparr>sub_id = i, sub_sender = snd_handle, sub_drops = next_counter r\<rparr> in
         (Inr (),
          r\<lparr>subscribers := hm_put topic (topic_list r topic @ [s]) (subscribers r),
            drop_counters := (drop_counters r)(next_counter r := 0),
            next_counter := Suc (next_counter r),
            tracked_subscribers := tracked_subscribers r + 1\<rparr>)))"

text \<open>The removal that \<open>unsubscribe\<close> and \<open>dispatch\<close> share: \<open>retain\<close>, and \<open>remove\<close> when the list is
  empty afterwards.\<close>

definition retain_topic ::
  "(subscriber \<Rightarrow> bool) \<Rightarrow> string \<Rightarrow> subscriber list \<Rightarrow> subscriber list hmap \<Rightarrow> subscriber list hmap"
where
  "retain_topic keep topic l m =
     (let l' = filter keep l in if l' = [] then hm_del topic m else hm_put topic l' m)"

definition unsubscribe :: "event_router \<Rightarrow> string \<Rightarrow> string \<Rightarrow> event_router" where
  "unsubscribe r topic i =
     (case hm_get (subscribers r) topic of
        None \<Rightarrow> r
      | Some l \<Rightarrow>
          (let keep = (\<lambda>s. sub_id s \<noteq> i);
               removed = length l - length (filter keep l);
               r1 = (if 0 < removed
                     then r\<lparr>tracked_subscribers := tracked_subscribers r - of_nat removed\<rparr> else r)
           in r1\<lparr>subscribers := retain_topic keep topic l (subscribers r1)\<rparr>))"

section \<open>Dispatch\<close>

datatype send_result = Sent | Full | Closed

definition bump_dispatched :: "event_router \<Rightarrow> event_router" where
  "bump_dispatched r = r\<lparr>stats := (stats r)\<lparr>events_dispatched := events_dispatched (stats r) + 1\<rparr>\<rparr>"

definition bump_delivered :: "event_router \<Rightarrow> event_router" where
  "bump_delivered r = r\<lparr>stats := (stats r)\<lparr>events_delivered := events_delivered (stats r) + 1\<rparr>\<rparr>"

definition bump_dropped :: "event_router \<Rightarrow> event_router" where
  "bump_dropped r = r\<lparr>stats := (stats r)\<lparr>events_dropped := events_dropped (stats r) + 1\<rparr>\<rparr>"

definition set_counter :: "nat \<Rightarrow> u64 \<Rightarrow> event_router \<Rightarrow> event_router" where
  "set_counter a v r = r\<lparr>drop_counters := (drop_counters r)(a := v)\<rparr>"

text \<open>The body of the delivery loop for one entry of the snapshot, after its \<open>try_send\<close>. The ids
  to remove are a set, kept as a list without duplicates.\<close>

definition account ::
  "subscriber \<Rightarrow> send_result \<Rightarrow> event_router \<times> string list \<Rightarrow> event_router \<times> string list" where
  "account s res st = (case st of (r, to_remove) \<Rightarrow>
     (case res of
        Sent \<Rightarrow> (bump_delivered (set_counter (sub_drops s) 0 r), to_remove)
      | Full \<Rightarrow>
          (let r1 = bump_dropped r;
               consecutive = drop_counters r1 (sub_drops s) + 1;
               r2 = set_counter (sub_drops s) consecutive r1
           in (r2, if slow_subscriber_max_drops r2 \<le> consecutive
                   then List.insert (sub_id s) to_remove else to_remove))
      | Closed \<Rightarrow> (bump_dropped r, List.insert (sub_id s) to_remove)))"

definition remove_failed :: "event_router \<Rightarrow> string \<Rightarrow> string list \<Rightarrow> event_router" where
  "remove_failed r topic to_remove =
     (if to_remove = [] then r
      else case hm_get (subscribers r) topic of
        None \<Rightarrow> r
      | Some l \<Rightarrow>
          (let keep = (\<lambda>s. sub_id s \<notin> set to_remove);
               removed = length l - length (filter keep l);
               r1 = r\<lparr>subscribers := retain_topic keep topic l (subscribers r)\<rparr>
           in if 0 < removed
              then r1\<lparr>tracked_subscribers := tracked_subscribers r1 - of_nat removed,
                      stats := (stats r1)\<lparr>subscribers_dropped :=
                        subscribers_dropped (stats r1) + of_nat removed\<rparr>\<rparr>
              else r1))"

type_synonym 'w try_send = "'w \<Rightarrow> nat \<Rightarrow> event \<Rightarrow> 'w \<times> send_result"

fun deliver ::
  "'w try_send \<Rightarrow> event \<Rightarrow> subscriber list \<Rightarrow> 'w \<times> event_router \<times> string list
     \<Rightarrow> 'w \<times> event_router \<times> string list" where
  "deliver try_send ev [] st = st"
| "deliver try_send ev (s # ss) (w, r, rm) =
     (case try_send w (sub_sender s) ev of
        (w', res) \<Rightarrow> deliver try_send ev ss (w', account s res (r, rm)))"

definition dispatch ::
  "'w try_send \<Rightarrow> string \<Rightarrow> event \<Rightarrow> 'w \<times> event_router \<Rightarrow> 'w \<times> event_router" where
  "dispatch try_send topic ev st = (case st of (w, r) \<Rightarrow>
     (let snapshot = topic_list r topic in
      if snapshot = [] then (w, r)
      else case deliver try_send ev snapshot (w, bump_dispatched r, []) of
        (w', r', to_remove) \<Rightarrow> (w', remove_failed r' topic to_remove)))"

section \<open>Interleavings\<close>

text \<open>A running dispatch: its topic and event, the part of the snapshot still to deliver, and the
  ids collected so far.\<close>

record task =
  task_topic :: string
  task_event :: event
  task_rest :: "subscriber list"
  task_failed :: "string list"

record 'w router_system =
  sys_router :: event_router
  sys_world :: 'w
  sys_tasks :: "task list"

text \<open>Between two steps of a dispatch anything may run: other operations, other dispatches, and
  the receivers, which change the channels at will. A dispatch may also be abandoned.\<close>

inductive router_step :: "'w try_send \<Rightarrow> 'w router_system \<Rightarrow> 'w router_system \<Rightarrow> bool"
  for try_send :: "'w try_send" where
  step_subscribe:
    "t = s\<lparr>sys_router := snd (subscribe (sys_router s) topic i h)\<rparr> \<Longrightarrow> router_step try_send s t"
| step_unsubscribe:
    "t = s\<lparr>sys_router := unsubscribe (sys_router s) topic i\<rparr> \<Longrightarrow> router_step try_send s t"
| step_begin:
    "topic_list (sys_router s) topic \<noteq> [] \<Longrightarrow>
     t = s\<lparr>sys_router := bump_dispatched (sys_router s),
           sys_tasks := \<lparr>task_topic = topic, task_event = ev,
             task_rest = topic_list (sys_router s) topic, task_failed = []\<rparr> # sys_tasks s\<rparr> \<Longrightarrow>
     router_step try_send s t"
| step_deliver:
    "sys_tasks s = xs @ k # ys \<Longrightarrow> task_rest k = sub # rest \<Longrightarrow>
     try_send (sys_world s) (sub_sender sub) (task_event k) = (w', res) \<Longrightarrow>
     account sub res (sys_router s, task_failed k) = (r', rm') \<Longrightarrow>
     t = s\<lparr>sys_world := w', sys_router := r',
           sys_tasks := xs @ k\<lparr>task_rest := rest, task_failed := rm'\<rparr> # ys\<rparr> \<Longrightarrow>
     router_step try_send s t"
| step_finish:
    "sys_tasks s = xs @ k # ys \<Longrightarrow> task_rest k = [] \<Longrightarrow>
     t = s\<lparr>sys_router := remove_failed (sys_router s) (task_topic k) (task_failed k),
           sys_tasks := xs @ ys\<rparr> \<Longrightarrow>
     router_step try_send s t"
| step_abandon:
    "sys_tasks s = xs @ k # ys \<Longrightarrow> t = s\<lparr>sys_tasks := xs @ ys\<rparr> \<Longrightarrow> router_step try_send s t"
| step_world:
    "t = s\<lparr>sys_world := w'\<rparr> \<Longrightarrow> router_step try_send s t"

definition router_init :: "'w router_system \<Rightarrow> bool" where
  "router_init s \<longleftrightarrow> (\<exists>l. sys_router s = with_limits l) \<and> sys_tasks s = []"

end
