(* ===== verification/Router_Properties.thy ===== *)
theory Router_Properties
  imports Event_Router
begin

text \<open>
  Correctness of the event router: the O(1) counter equals the recomputed one and both caps hold
  under every interleaving; one dispatch accounts for every subscriber of its snapshot and
  removes exactly the dead and the persistently slow ones.
\<close>

section \<open>The capacity invariant\<close>

definition router_inv :: "event_router \<Rightarrow> bool" where
  "router_inv r \<longleftrightarrow> hm_wf (subscribers r)
     \<and> (\<forall>topic l. hm_get (subscribers r) topic = Some l \<longrightarrow>
          l \<noteq> [] \<and> length l \<le> unat (max_subscribers_per_type r))
     \<and> total_subscribers r = unat (tracked_subscribers r)
     \<and> tracked_subscribers r \<le> max_subscribers_global r"

lemma router_invI:
  assumes "hm_wf (subscribers r)"
    and "\<And>topic l. hm_get (subscribers r) topic = Some l \<Longrightarrow>
          l \<noteq> [] \<and> length l \<le> unat (max_subscribers_per_type r)"
    and "total_subscribers r = unat (tracked_subscribers r)"
    and "tracked_subscribers r \<le> max_subscribers_global r"
  shows "router_inv r"
  using assms by (simp add: router_inv_def)

lemma router_invD:
  assumes "router_inv r"
  shows "hm_wf (subscribers r)"
    and "hm_get (subscribers r) topic = Some l \<Longrightarrow> l \<noteq> []"
    and "hm_get (subscribers r) topic = Some l \<Longrightarrow> length l \<le> unat (max_subscribers_per_type r)"
    and "total_subscribers r = unat (tracked_subscribers r)"
    and "tracked_subscribers r \<le> max_subscribers_global r"
  using assms by (auto simp: router_inv_def)

lemma router_inv_cong:
  assumes "router_inv r" and "subscribers r' = subscribers r"
    and "max_subscribers_global r' = max_subscribers_global r"
    and "max_subscribers_per_type r' = max_subscribers_per_type r"
    and "tracked_subscribers r' = tracked_subscribers r"
  shows "router_inv r'"
  using assms by (simp add: router_inv_def total_subscribers_def)

lemma subscriber_count_list: "subscriber_count r topic = length (topic_list r topic)"
  by (simp add: subscriber_count_def topic_list_def split: option.split)

lemma total_with_limits: "total_subscribers (with_limits l) = 0"
  by (simp add: total_subscribers_def with_limits_def hm_entries_def hm_empty_def)

lemma router_inv_with_limits: "router_inv (with_limits l)"
  using total_with_limits [of l]
  by (intro router_invI) (simp_all add: with_limits_def hmap_simps)

lemma total_put:
  assumes "hm_wf (subscribers r)"
  shows "total_subscribers (r\<lparr>subscribers := hm_put topic l (subscribers r)\<rparr>) + length (topic_list r topic)
    = total_subscribers r + length l"
  using hm.weight_put [OF assms, where f = "\<lambda>_ l. length l" and k = topic and v = l]
  by (cases "hm_get (subscribers r) topic") (simp_all add: total_subscribers_def topic_list_def)

lemma total_del:
  assumes "hm_wf (subscribers r)"
  shows "total_subscribers (r\<lparr>subscribers := hm_del topic (subscribers r)\<rparr>) + length (topic_list r topic)
    = total_subscribers r"
  using hm.weight_del [OF assms, where f = "\<lambda>_ l. length l" and k = topic]
  by (cases "hm_get (subscribers r) topic") (simp_all add: total_subscribers_def topic_list_def)

lemma total_member:
  assumes "hm_wf (subscribers r)"
  shows "length (topic_list r topic) \<le> total_subscribers r"
  using total_del [OF assms, of topic] by linarith

text \<open>What \<open>retain\<close> does to the total: it loses what it removes from the list of the topic.\<close>

lemma total_retain:
  assumes "hm_wf (subscribers r)" and "hm_get (subscribers r) topic = Some l"
  shows "total_subscribers (r\<lparr>subscribers := retain_topic keep topic l (subscribers r)\<rparr>) + length l
    = total_subscribers r + length (filter keep l)"
proof -
  have "topic_list r topic = l" using assms(2) by (simp add: topic_list_def)
  then show ?thesis
    using total_put [OF assms(1), of topic "filter keep l"] total_del [OF assms(1), of topic]
    by (simp add: retain_topic_def Let_def)
qed

lemma retain_get:
  "hm_get (retain_topic keep topic l m) t =
     (if t = topic then (if filter keep l = [] then None else Some (filter keep l)) else hm_get m t)"
  by (simp add: retain_topic_def Let_def hmap_simps)

lemma retain_wf: "hm_wf m \<Longrightarrow> hm_wf (retain_topic keep topic l m)"
  by (simp add: retain_topic_def Let_def)

section \<open>Operations preserve the invariant\<close>

lemma router_inv_subscribe:
  assumes inv: "router_inv r"
  shows "router_inv (snd (subscribe r topic i h))"
proof (cases "unat (max_subscribers_per_type r) \<le> subscriber_count r topic \<or>
    max_subscribers_global r \<le> tracked_subscribers r")
  case True
  then show ?thesis using inv by (auto simp: subscribe_def Let_def)
next
  case False
  let ?s = "\<lparr>sub_id = i, sub_sender = h, sub_drops = next_counter r\<rparr>"
  let ?l = "topic_list r topic @ [?s]"
  let ?r' = "snd (subscribe r topic i h)"
  from False have lt: "tracked_subscribers r < max_subscribers_global r" by (simp add: not_le)
  have r': "?r' = r\<lparr>subscribers := hm_put topic ?l (subscribers r),
      drop_counters := (drop_counters r)(next_counter r := 0),
      next_counter := Suc (next_counter r), tracked_subscribers := tracked_subscribers r + 1\<rparr>"
    using False by (simp add: subscribe_def Let_def)
  have tr: "unat (tracked_subscribers r + 1) = unat (tracked_subscribers r) + 1"
    using lt by (rule unat_add_one_below)
  show ?thesis
  proof (rule router_invI)
    show "hm_wf (subscribers ?r')" using router_invD(1) [OF inv] by (simp add: r')
  next
    fix t l assume "hm_get (subscribers ?r') t = Some l"
    then have "if t = topic then l = ?l else hm_get (subscribers r) t = Some l"
      by (simp add: r' hmap_simps split: if_splits)
    then show "l \<noteq> [] \<and> length l \<le> unat (max_subscribers_per_type ?r')"
      using router_invD(2,3) [OF inv] False
      by (auto simp: r' subscriber_count_list split: if_splits)
  next
    show "total_subscribers ?r' = unat (tracked_subscribers ?r')"
      using total_put [OF router_invD(1) [OF inv], of topic ?l] router_invD(4) [OF inv] tr
      by (simp add: r' total_subscribers_def)
  next
    show "tracked_subscribers ?r' \<le> max_subscribers_global ?r'"
      using lt by (simp add: r' inc_le)
  qed
qed

lemma router_inv_retain:
  assumes inv: "router_inv r" and l: "hm_get (subscribers r) topic = Some l"
    and r': "subscribers r' = retain_topic keep topic l (subscribers r)"
      "max_subscribers_global r' = max_subscribers_global r"
      "max_subscribers_per_type r' = max_subscribers_per_type r"
      "tracked_subscribers r' = tracked_subscribers r - of_nat (length l - length (filter keep l))"
  shows "router_inv r'"
proof -
  let ?removed = "length l - length (filter keep l)"
  have wf: "hm_wf (subscribers r)" using inv by (rule router_invD(1))
  have "length l \<le> total_subscribers r"
    using total_member [OF wf, of topic] l by (simp add: topic_list_def)
  then have le: "?removed \<le> unat (tracked_subscribers r)"
    using router_invD(4) [OF inv] by linarith
  have tr: "unat (tracked_subscribers r') = unat (tracked_subscribers r) - ?removed"
    unfolding r' by (rule unat_sub_of_nat [OF le])
  have tot: "total_subscribers r' + length l = total_subscribers r + length (filter keep l)"
    using total_retain [OF wf l, of keep] r'(1) by (simp add: total_subscribers_def)
  show ?thesis
  proof (rule router_invI)
    show "hm_wf (subscribers r')" using wf by (simp add: r' retain_wf)
  next
    fix t l' assume "hm_get (subscribers r') t = Some l'"
    then have "if t = topic then l' = filter keep l \<and> l' \<noteq> [] else hm_get (subscribers r) t = Some l'"
      by (auto simp: r' retain_get split: if_splits)
    moreover have "length (filter keep l) \<le> unat (max_subscribers_per_type r)"
      using router_invD(3) [OF inv l] length_filter_le le_trans by blast
    ultimately show "l' \<noteq> [] \<and> length l' \<le> unat (max_subscribers_per_type r')"
      using router_invD(2,3) [OF inv] by (auto simp: r' split: if_splits)
  next
    have "length (filter keep l) \<le> length l" by (rule length_filter_le)
    then show "total_subscribers r' = unat (tracked_subscribers r')"
      using tot tr router_invD(4) [OF inv] le by linarith
  next
    have "unat (tracked_subscribers r') \<le> unat (max_subscribers_global r)"
      using tr router_invD(5) [OF inv] unfolding word_le_nat_alt by linarith
    then show "tracked_subscribers r' \<le> max_subscribers_global r'"
      by (simp add: r' word_le_nat_alt)
  qed
qed

lemma filter_removes_none:
  "\<not> length (filter keep l) < length l \<longleftrightarrow> length (filter keep l) = length l"
  using length_filter_le [of keep l] by linarith

lemma router_inv_unsubscribe:
  assumes "router_inv r"
  shows "router_inv (unsubscribe r topic i)"
proof (cases "hm_get (subscribers r) topic")
  case None
  then show ?thesis using assms by (simp add: unsubscribe_def)
next
  case (Some l)
  show ?thesis
    by (rule router_inv_retain [OF assms Some, where keep = "\<lambda>s. sub_id s \<noteq> i"])
       (simp_all add: unsubscribe_def Some Let_def filter_removes_none)
qed

lemma router_inv_remove_failed:
  assumes "router_inv r"
  shows "router_inv (remove_failed r topic rm)"
proof (cases "rm = [] \<or> hm_get (subscribers r) topic = None")
  case True
  then show ?thesis using assms by (auto simp: remove_failed_def)
next
  case False
  then obtain l where l: "hm_get (subscribers r) topic = Some l" and rm: "rm \<noteq> []" by auto
  show ?thesis
    by (rule router_inv_retain [OF assms l, where keep = "\<lambda>s. sub_id s \<notin> set rm"])
       (simp_all add: remove_failed_def l rm Let_def filter_removes_none)
qed

text \<open>Delivering touches counters and statistics only.\<close>

definition same_shape :: "event_router \<Rightarrow> event_router \<Rightarrow> bool" where
  "same_shape r r' \<longleftrightarrow> subscribers r' = subscribers r
     \<and> max_subscribers_global r' = max_subscribers_global r
     \<and> max_subscribers_per_type r' = max_subscribers_per_type r
     \<and> slow_subscriber_max_drops r' = slow_subscriber_max_drops r
     \<and> tracked_subscribers r' = tracked_subscribers r
     \<and> next_counter r' = next_counter r"

lemma same_shape_refl [simp]: "same_shape r r"
  by (simp add: same_shape_def)

lemma same_shape_trans: "same_shape r s \<Longrightarrow> same_shape s t \<Longrightarrow> same_shape r t"
  by (simp add: same_shape_def)

lemma same_shape_inv: "router_inv r \<Longrightarrow> same_shape r r' \<Longrightarrow> router_inv r'"
  by (rule router_inv_cong) (simp_all add: same_shape_def)

lemma bump_shape [simp]:
  "same_shape r (bump_dispatched r)" "same_shape r (bump_delivered r)" "same_shape r (bump_dropped r)"
  "same_shape r (set_counter a v r)"
  by (simp_all add: same_shape_def bump_dispatched_def bump_delivered_def bump_dropped_def
      set_counter_def)

lemma account_shape: "account s res (r, rm) = (r', rm') \<Longrightarrow> same_shape r r'"
  by (auto simp: account_def Let_def split: send_result.splits
      intro: same_shape_trans [OF bump_shape(3) bump_shape(4)]
        same_shape_trans [OF bump_shape(4) bump_shape(2)])

lemma deliver_shape: "deliver try_send ev ss (w, r, rm) = (w', r', rm') \<Longrightarrow> same_shape r r'"
proof (induction ss arbitrary: w r rm)
  case (Cons s ss)
  obtain w1 res where t: "try_send w (sub_sender s) ev = (w1, res)" by force
  obtain r1 rm1 where a: "account s res (r, rm) = (r1, rm1)" by force
  from Cons.prems t a have "deliver try_send ev ss (w1, r1, rm1) = (w', r', rm')" by simp
  with Cons.IH account_shape [OF a] show ?case by (blast intro: same_shape_trans)
qed simp


section \<open>Counters are not shared\<close>

text \<open>Every subscriber owns its drop counter: addresses are allocated and no two subscribers of
  the map hold the same one.\<close>

definition counters_ok :: "event_router \<Rightarrow> bool" where
  "counters_ok r \<longleftrightarrow>
     (\<forall>t. \<forall>s \<in> set (topic_list r t). sub_drops s < next_counter r)
     \<and> (\<forall>t. distinct (map sub_drops (topic_list r t)))
     \<and> (\<forall>t u. t \<noteq> u \<longrightarrow>
          sub_drops ` set (topic_list r t) \<inter> sub_drops ` set (topic_list r u) = {})"

lemma counters_ok_mono:
  assumes "counters_ok r" and "next_counter r \<le> next_counter r'"
    and "\<And>t. \<exists>P. topic_list r' t = filter P (topic_list r t)"
  shows "counters_ok r'"
  unfolding counters_ok_def
proof (intro conjI allI impI ballI)
  have sub: "set (topic_list r' t) \<subseteq> set (topic_list r t)" for t
    using assms(3) [of t] by auto
  fix t
  show "distinct (map sub_drops (topic_list r' t))"
    using assms(3) [of t] assms(1) by (auto simp: counters_ok_def distinct_map_filter)
  fix u :: string assume "t \<noteq> u"
  then have "sub_drops ` set (topic_list r t) \<inter> sub_drops ` set (topic_list r u) = {}"
    using assms(1) by (simp add: counters_ok_def)
  then show "sub_drops ` set (topic_list r' t) \<inter> sub_drops ` set (topic_list r' u) = {}"
    using sub [of t] sub [of u] by blast
next
  fix t s assume "s \<in> set (topic_list r' t)"
  then have "s \<in> set (topic_list r t)" using assms(3) [of t] by auto
  then show "sub_drops s < next_counter r'"
    using assms(1,2) by (fastforce simp: counters_ok_def)
qed

lemma topic_list_retain:
  assumes "hm_get (subscribers r) topic = Some l"
    and "subscribers r' = retain_topic keep topic l (subscribers r)"
  shows "topic_list r' t = (if t = topic then filter keep (topic_list r t) else topic_list r t)"
  using assms by (auto simp: topic_list_def retain_get)

lemma topic_list_unsubscribe:
  "topic_list (unsubscribe r topic i) t =
     (if t = topic then filter (\<lambda>s. sub_id s \<noteq> i) (topic_list r t) else topic_list r t)"
proof (cases "hm_get (subscribers r) topic")
  case None
  then show ?thesis by (simp add: unsubscribe_def topic_list_def)
next
  case (Some l)
  show ?thesis by (rule topic_list_retain [OF Some]) (simp add: unsubscribe_def Some Let_def)
qed

lemma topic_list_remove_failed:
  "topic_list (remove_failed r topic rm) t =
     (if t = topic then filter (\<lambda>s. sub_id s \<notin> set rm) (topic_list r t) else topic_list r t)"
proof (cases "rm = [] \<or> hm_get (subscribers r) topic = None")
  case True
  then show ?thesis by (auto simp: remove_failed_def topic_list_def)
next
  case False
  then obtain l where l: "hm_get (subscribers r) topic = Some l" and rm: "rm \<noteq> []" by auto
  show ?thesis by (rule topic_list_retain [OF l]) (simp add: remove_failed_def l rm Let_def)
qed

lemma next_counter_unsubscribe [simp]: "next_counter (unsubscribe r topic i) = next_counter r"
  by (simp add: unsubscribe_def Let_def split: option.split)

lemma next_counter_remove_failed [simp]: "next_counter (remove_failed r topic rm) = next_counter r"
  by (simp add: remove_failed_def Let_def split: option.split)

lemma counters_ok_unsubscribe: "counters_ok r \<Longrightarrow> counters_ok (unsubscribe r topic i)"
  by (erule counters_ok_mono) (auto simp: topic_list_unsubscribe intro: exI [of _ "\<lambda>_. True"])

lemma counters_ok_remove_failed: "counters_ok r \<Longrightarrow> counters_ok (remove_failed r topic rm)"
  by (erule counters_ok_mono) (auto simp: topic_list_remove_failed intro: exI [of _ "\<lambda>_. True"])

lemma topic_list_shape: "same_shape r r' \<Longrightarrow> topic_list r' t = topic_list r t"
  by (simp add: same_shape_def topic_list_def)

lemma counters_ok_shape: "counters_ok r \<Longrightarrow> same_shape r r' \<Longrightarrow> counters_ok r'"
  by (simp add: counters_ok_def topic_list_shape) (simp add: same_shape_def)

lemma counters_ok_with_limits: "counters_ok (with_limits l)"
  by (simp add: counters_ok_def topic_list_def with_limits_def hmap_simps)

lemma topic_list_subscribe:
  "subscribe r topic i h = (Inr (), r') \<Longrightarrow>
   topic_list r' t = (if t = topic
     then topic_list r t @ [\<lparr>sub_id = i, sub_sender = h, sub_drops = next_counter r\<rparr>]
     else topic_list r t) \<and> next_counter r' = Suc (next_counter r)"
  by (auto simp: subscribe_def Let_def topic_list_def hmap_simps split: if_splits option.splits)

lemma counters_ok_append:
  assumes ok: "counters_ok r"
    and tl: "\<And>t. topic_list r' t = (if t = topic then topic_list r t @ [s] else topic_list r t)"
    and nx: "next_counter r' = Suc (next_counter r)" and s: "sub_drops s = next_counter r"
  shows "counters_ok r'"
proof -
  have lt: "x < next_counter r" if "x \<in> sub_drops ` set (topic_list r t)" for x t
    using ok that by (auto simp: counters_ok_def)
  then have fresh: "next_counter r \<notin> sub_drops ` set (topic_list r t)" for t
    by blast
  have dis: "sub_drops ` set (topic_list r t) \<inter> sub_drops ` set (topic_list r u) = {}" if "t \<noteq> u" for t u
    using ok that by (simp add: counters_ok_def)
  have d: "distinct (map sub_drops (topic_list r t))" for t
    using ok by (simp add: counters_ok_def)
  show ?thesis
    unfolding counters_ok_def
  proof (intro conjI allI impI ballI)
    fix t show "distinct (map sub_drops (topic_list r' t))"
      using d [of t] fresh [of t] by (cases "t = topic") (simp_all add: tl s)
  next
    fix t u :: string assume "t \<noteq> u"
    then show "sub_drops ` set (topic_list r' t) \<inter> sub_drops ` set (topic_list r' u) = {}"
      using dis [of t u] fresh [of t] fresh [of u]
      by (cases "t = topic"; cases "u = topic") (auto simp: tl s)
  next
    fix t x assume "x \<in> set (topic_list r' t)"
    then have "sub_drops x \<in> sub_drops ` set (topic_list r t) \<or> sub_drops x = next_counter r"
      by (auto simp: tl s split: if_splits)
    then show "sub_drops x < next_counter r'" using lt by (auto simp: nx less_Suc_eq)
  qed
qed

lemma counters_ok_subscribe:
  assumes "counters_ok r"
  shows "counters_ok (snd (subscribe r topic i h))"
proof (cases "fst (subscribe r topic i h)")
  case (Inl e)
  then have "snd (subscribe r topic i h) = r" by (auto simp: subscribe_def Let_def split: if_splits)
  with assms show ?thesis by simp
next
  case (Inr u)
  then have "subscribe r topic i h = (Inr (), snd (subscribe r topic i h))" by (simp add: prod_eq_iff)
  from topic_list_subscribe [OF this] show ?thesis
    by (intro counters_ok_append [OF assms, where topic = topic]) auto
qed

section \<open>Every interleaving\<close>

definition router_sys_inv :: "'w router_system \<Rightarrow> bool" where
  "router_sys_inv s \<longleftrightarrow> router_inv (sys_router s) \<and> counters_ok (sys_router s)"

interpretation router_sys: guarded_system router_init "router_step try_send" router_sys_inv
  for try_send :: "'w try_send"
proof unfold_locales
  fix s :: "'w router_system" assume "router_init s"
  then show "router_sys_inv s"
    by (auto simp: router_init_def router_sys_inv_def router_inv_with_limits counters_ok_with_limits)
next
  fix s t :: "'w router_system" assume inv: "router_sys_inv s" and step: "router_step try_send s t"
  then have r: "router_inv (sys_router s)" "counters_ok (sys_router s)"
    by (simp_all add: router_sys_inv_def)
  have shape: "router_sys_inv t" if "same_shape (sys_router s) (sys_router t)"
    using r that same_shape_inv counters_ok_shape by (auto simp: router_sys_inv_def)
  from step show "router_sys_inv t"
  proof cases
    case (step_subscribe topic i h)
    then show ?thesis
      using r by (simp add: router_sys_inv_def router_inv_subscribe counters_ok_subscribe)
  next
    case (step_unsubscribe topic i)
    then show ?thesis
      using r by (simp add: router_sys_inv_def router_inv_unsubscribe counters_ok_unsubscribe)
  next
    case (step_deliver xs k ys sub rest w' res r' rm')
    then show ?thesis using account_shape by (intro shape) simp
  next
    case (step_finish xs k ys)
    then show ?thesis
      using r by (simp add: router_sys_inv_def router_inv_remove_failed counters_ok_remove_failed)
  qed (rule shape, simp)+
qed

text \<open>C5: in every state that subscriptions, unsubscriptions and any number of concurrent and
  abandoned dispatches can reach, the atomic counter equals the number of subscribers in the
  map, which stays within the global cap, and no event type holds more than its own cap.\<close>

theorem router_caps_hold:
  assumes "reach router_init (router_step try_send) s"
  shows "total_subscribers (sys_router s) = unat (tracked_subscribers (sys_router s))
    \<and> total_subscribers (sys_router s) \<le> unat (max_subscribers_global (sys_router s))
    \<and> subscriber_count (sys_router s) topic \<le> unat (max_subscribers_per_type (sys_router s))"
proof -
  from router_sys.reach_inv [OF assms] have inv: "router_inv (sys_router s)"
    by (simp add: router_sys_inv_def)
  then show ?thesis
    using router_invD(3) [OF inv, of topic] router_invD(4,5) [OF inv]
    by (simp add: word_le_nat_alt subscriber_count_def split: option.split)
qed

section \<open>A dispatch on its own\<close>

text \<open>The results of the \<open>try_send\<close> calls, one for each entry of the snapshot in its order.\<close>

fun send_results :: "'w try_send \<Rightarrow> event \<Rightarrow> subscriber list \<Rightarrow> 'w \<Rightarrow> 'w \<times> send_result list" where
  "send_results try_send ev [] w = (w, [])"
| "send_results try_send ev (s # ss) w =
     (let (w1, res) = try_send w (sub_sender s) ev; (w2, rs) = send_results try_send ev ss w1
      in (w2, res # rs))"

lemma length_send_results [simp]: "length (snd (send_results try_send ev ss w)) = length ss"
  by (induction ss arbitrary: w) (simp_all add: split_beta Let_def)

text \<open>Delivering is a fold of the accounting over the results.\<close>

definition account_all :: "(subscriber \<times> send_result) list \<Rightarrow> event_router \<times> string list \<Rightarrow>
    event_router \<times> string list" where
  "account_all srs st = fold (\<lambda>(s, res). account s res) srs st"

lemma deliver_account_all:
  "deliver try_send ev ss (w, st) =
     (fst (send_results try_send ev ss w),
      account_all (zip ss (snd (send_results try_send ev ss w))) st)"
proof (induction ss arbitrary: w st)
  case (Cons s ss)
  obtain r rm where st: "st = (r, rm)" by force
  obtain w1 res where t: "try_send w (sub_sender s) ev = (w1, res)" by force
  show ?case
    using Cons.IH [of w1 "account s res (r, rm)"] t
    by (simp add: st split_beta Let_def account_all_def)
qed (simp add: account_all_def)

lemma account_stats:
  assumes "account s res (r, rm) = (r', rm')"
  shows "events_delivered (stats r') = events_delivered (stats r) + (if res = Sent then 1 else 0)"
    and "events_dropped (stats r') = events_dropped (stats r) + (if res = Sent then 0 else 1)"
    and "events_dispatched (stats r') = events_dispatched (stats r)"
    and "subscribers_dropped (stats r') = subscribers_dropped (stats r)"
  using assms
  by (auto simp: account_def Let_def bump_delivered_def bump_dropped_def set_counter_def
      split: send_result.splits)

lemma account_all_stats:
  assumes "account_all srs (r, rm) = (r', rm')"
  shows "events_delivered (stats r') =
      events_delivered (stats r) + of_nat (length (filter (\<lambda>p. snd p = Sent) srs))
    \<and> events_dropped (stats r') =
      events_dropped (stats r) + of_nat (length (filter (\<lambda>p. snd p \<noteq> Sent) srs))
    \<and> events_dispatched (stats r') = events_dispatched (stats r)"
  using assms
proof (induction srs arbitrary: r rm)
  case (Cons p srs)
  obtain s res where p: "p = (s, res)" by force
  obtain r1 rm1 where a: "account s res (r, rm) = (r1, rm1)" by force
  from Cons.prems p a have "account_all srs (r1, rm1) = (r', rm')" by (simp add: account_all_def)
  from Cons.IH [OF this] account_stats [OF a] p show ?case by (cases res) simp_all
qed (simp add: account_all_def)

lemma remove_failed_stats:
  "events_delivered (stats (remove_failed r topic rm)) = events_delivered (stats r)"
  "events_dropped (stats (remove_failed r topic rm)) = events_dropped (stats r)"
  "events_dispatched (stats (remove_failed r topic rm)) = events_dispatched (stats r)"
  by (auto simp: remove_failed_def Let_def split: option.split)

lemma filter_zip_snd: "length ss = length rs \<Longrightarrow>
    length (filter (\<lambda>p. P (snd p)) (zip ss rs)) = length (filter P rs)"
  by (induction ss rs rule: list_induct2) simp_all

lemma count_list_filter: "count_list xs y = length (filter (\<lambda>x. x = y) xs)"
  by (induction xs) simp_all

text \<open>A dispatch hands the event to every subscriber of its type exactly once, in the order of
  subscription, and counts every attempt once: as delivered when the channel took the event, as
  dropped otherwise; without subscribers it changes nothing.\<close>

theorem dispatch_accounting:
  "let ss = topic_list r topic;
       (w', rs) = send_results try_send ev ss w;
       (w'', r') = dispatch try_send topic ev (w, r)
   in w'' = w' \<and> length rs = subscriber_count r topic
    \<and> (if ss = [] then r' = r
       else events_dispatched (stats r') = events_dispatched (stats r) + 1
          \<and> events_delivered (stats r') = events_delivered (stats r) + of_nat (count_list rs Sent)
          \<and> events_dropped (stats r') =
              events_dropped (stats r) + of_nat (subscriber_count r topic - count_list rs Sent))"
proof -
  let ?ss = "topic_list r topic"
  let ?sr = "send_results try_send ev ?ss w"
  let ?srs = "zip ?ss (snd ?sr)"
  obtain r1 rm where a: "account_all ?srs (bump_dispatched r, []) = (r1, rm)" by force
  have d: "dispatch try_send topic ev (w, r) =
      (if ?ss = [] then (w, r) else (fst ?sr, remove_failed r1 topic rm))"
    using a by (simp add: dispatch_def deliver_account_all Let_def)
  have len: "length ?ss = length (snd ?sr)" by simp
  have c1: "length (filter (\<lambda>p. snd p = Sent) ?srs) = count_list (snd ?sr) Sent"
    using filter_zip_snd [OF len, of "\<lambda>x. x = Sent"]
    by (simp add: count_list_filter)
  have "length (filter (\<lambda>x. x = Sent) (snd ?sr)) + length (filter (\<lambda>x. x \<noteq> Sent) (snd ?sr)) = length ?ss"
    using sum_length_filter_compl [of "\<lambda>x. x = Sent" "snd ?sr"] by simp
  then have c2: "length (filter (\<lambda>p. snd p \<noteq> Sent) ?srs) = length ?ss - count_list (snd ?sr) Sent"
    using filter_zip_snd [OF len, of "\<lambda>x. x \<noteq> Sent"]
    by (simp add: count_list_filter)
  show ?thesis
    using account_all_stats [OF a] c1 c2
    by (cases "?ss = []")
      (simp_all add: d split_beta Let_def subscriber_count_list remove_failed_stats
        bump_dispatched_def)
qed

end
