(* ===== verification/Cln_Subscribers.thy ===== *)
theory Cln_Subscribers
  imports Proto_Events
begin

text \<open>
  The subscribers of the Core Lightning notification streams (\<open>events/subscribers/\<close>). Each \<open>run\<close>
  subscribes to its streams one after the other and then polls them in a \<open>select!\<close>; the input of
  the model is what the subscriptions return and the results of the polls in the order the
  \<open>select!\<close> picks them. \<open>hex::encode\<close> is the parameter \<open>hex\<close>. The notifications are records of the
  fields the handlers read (\<open>proto/api/v1/cln/node.proto\<close>) and of the preimages they hold; an
  \<open>Amount\<close> message is its millisatoshi.
\<close>

section \<open>Polling\<close>

text \<open>What \<open>stream.message()\<close> returns: \<open>Ok(Some n)\<close>, \<open>Ok(None)\<close> or \<open>Err\<close>.\<close>

datatype 'n message = Message 'n | Stream_End | Stream_Error

text \<open>One iteration of the loop: send an event, break, or panic in a slice.\<close>

datatype branch = Send event | Break | Panic

datatype run_state = Polling | Stopped | Panicked

fun poll_loop :: "('p \<Rightarrow> branch) \<Rightarrow> 'p list \<Rightarrow> event list \<times> run_state" where
  "poll_loop h [] = ([], Polling)"
| "poll_loop h (p # ps) =
     (case h p of
        Send e \<Rightarrow> (let (es, r) = poll_loop h ps in (e # es, r))
      | Break \<Rightarrow> ([], Stopped)
      | Panic \<Rightarrow> ([], Panicked))"

text \<open>The subscriptions are requested in order and the first failure returns. The result is the
  number of requests made and whether all of them succeeded.\<close>

fun subscribe_all :: "bool list \<Rightarrow> nat \<times> bool" where
  "subscribe_all [] = (0, True)"
| "subscribe_all (ok # oks) = (if ok then let (n, r) = subscribe_all oks in (Suc n, r) else (1, False))"

definition run_subscriber :: "('p \<Rightarrow> branch) \<Rightarrow> bool list \<Rightarrow> 'p list \<Rightarrow> event list \<times> run_state" where
  "run_subscriber h oks ps = (if snd (subscribe_all oks) then poll_loop h ps else ([], Stopped))"

text \<open>\<open>&v[..8]\<close> of a byte vector.\<close>

definition first8 :: "bytes \<Rightarrow> bytes option" where
  "first8 v = (if 8 \<le> length v then Some (take 8 v) else None)"

definition on_message :: "('n \<Rightarrow> event option) \<Rightarrow> 'n message \<Rightarrow> branch" where
  "on_message f m = (case m of
     Message n \<Rightarrow> (case f n of Some e \<Rightarrow> Send e | None \<Rightarrow> Panic)
   | Stream_End \<Rightarrow> Break
   | Stream_Error \<Rightarrow> Break)"

definition msat_or_zero :: "u64 option \<Rightarrow> u64" where
  "msat_or_zero a = (case a of None \<Rightarrow> 0 | Some m \<Rightarrow> m)"

section \<open>Payments\<close>

record send_pay_success =
  sps_payment_hash :: bytes
  sps_amount_msat :: "u64 option"
  sps_amount_sent_msat :: "u64 option"
  sps_destination :: "bytes option"
  sps_created_at :: u64
  sps_payment_preimage :: "bytes option"

record send_pay_failure_data =
  spf_payment_hash :: "bytes option"
  spf_amount_msat :: "u64 option"
  spf_destination :: "bytes option"
  spf_payment_preimage :: "bytes option"

record send_pay_failure =
  spf_code :: i64
  spf_message :: string
  spf_data :: "send_pay_failure_data option"

record pay_part_start =
  pps_payment_hash :: bytes
  pps_partid :: u64
  pps_attempt_msat :: "u64 option"

record pay_part_end =
  ppe_payment_hash :: bytes
  ppe_partid :: u64

datatype payment_poll =
    Poll_Success "send_pay_success message"
  | Poll_Failure "send_pay_failure message"
  | Poll_Part_Start "pay_part_start message"
  | Poll_Part_End "pay_part_end message"

definition hex_or_empty :: "(bytes \<Rightarrow> string) \<Rightarrow> bytes option \<Rightarrow> string" where
  "hex_or_empty hex b = (case b of None \<Rightarrow> '''' | Some v \<Rightarrow> hex v)"

definition success_event :: "(bytes \<Rightarrow> string) \<Rightarrow> send_pay_success \<Rightarrow> event option" where
  "success_event hex n = map_option (\<lambda>h8.
     Payment (Succeeded (''cln-pay-ok-'' @ hex h8) (sps_created_at n) (hex (sps_payment_hash n)) ''''
       (msat_or_zero (sps_amount_msat n)) (msat_or_zero (sps_amount_sent_msat n))
       (hex_or_empty hex (sps_destination n)) (sps_created_at n)))
     (first8 (sps_payment_hash n))"

definition failure_event :: "(bytes \<Rightarrow> string) \<Rightarrow> send_pay_failure \<Rightarrow> event option" where
  "failure_event hex n = Some (
     Payment (Failed (''cln-pay-fail-'' @ fmt_int (sint (spf_code n))) 0
       (hex_or_empty hex (Option.bind (spf_data n) spf_payment_hash))
       (msat_or_zero (Option.bind (spf_data n) spf_amount_msat))
       (hex_or_empty hex (Option.bind (spf_data n) spf_destination))
       (spf_message n)))"

definition part_start_event :: "(bytes \<Rightarrow> string) \<Rightarrow> pay_part_start \<Rightarrow> event option" where
  "part_start_event hex n = map_option (\<lambda>h8.
     Payment (PartStart (''cln-part-start-'' @ hex h8 @ ''-'' @ fmt_word (pps_partid n)) 0
       (hex (pps_payment_hash n)) (pps_partid n) (msat_or_zero (pps_attempt_msat n))))
     (first8 (pps_payment_hash n))"

definition part_end_event :: "(bytes \<Rightarrow> string) \<Rightarrow> pay_part_end \<Rightarrow> event option" where
  "part_end_event hex n = map_option (\<lambda>h8.
     Payment (PartEnd (''cln-part-end-'' @ hex h8 @ ''-'' @ fmt_word (ppe_partid n)) 0
       (hex (ppe_payment_hash n)) (ppe_partid n) 0))
     (first8 (ppe_payment_hash n))"

fun payment_branch :: "(bytes \<Rightarrow> string) \<Rightarrow> payment_poll \<Rightarrow> branch" where
  "payment_branch hex (Poll_Success m) = on_message (success_event hex) m"
| "payment_branch hex (Poll_Failure m) = on_message (failure_event hex) m"
| "payment_branch hex (Poll_Part_Start m) = on_message (part_start_event hex) m"
| "payment_branch hex (Poll_Part_End m) = on_message (part_end_event hex) m"

definition payment_run ::
  "(bytes \<Rightarrow> string) \<Rightarrow> bool \<times> bool \<times> bool \<times> bool \<Rightarrow> payment_poll list \<Rightarrow> event list \<times> run_state" where
  "payment_run hex oks ps = (case oks of (ok_success, ok_failure, ok_start, ok_end) \<Rightarrow>
     run_subscriber (payment_branch hex) [ok_success, ok_failure, ok_start, ok_end] ps)"

section \<open>Invoices\<close>

record invoice_creation =
  ic_msat :: "u64 option"
  ic_preimage :: bytes
  ic_label :: string

record invoice_payment =
  ip_msat :: "u64 option"
  ip_preimage :: bytes
  ip_label :: string

datatype invoice_poll =
    Poll_Creation "invoice_creation message"
  | Poll_Payment "invoice_payment message"

definition creation_event :: "invoice_creation \<Rightarrow> event option" where
  "creation_event n = Some (Invoice (
     Created (''cln-inv-create-'' @ ic_label n) 0 (ic_label n) (ic_msat n) '''' '''' None))"

definition paid_event :: "(bytes \<Rightarrow> string) \<Rightarrow> invoice_payment \<Rightarrow> event option" where
  "paid_event hex n = Some (Invoice (
     Paid (''cln-inv-paid-'' @ ip_label n) 0 (ip_label n) (msat_or_zero (ip_msat n))
       (hex (ip_preimage n))))"

fun invoice_branch :: "(bytes \<Rightarrow> string) \<Rightarrow> invoice_poll \<Rightarrow> branch" where
  "invoice_branch hex (Poll_Creation m) = on_message creation_event m"
| "invoice_branch hex (Poll_Payment m) = on_message (paid_event hex) m"

definition invoice_run ::
  "(bytes \<Rightarrow> string) \<Rightarrow> bool \<times> bool \<Rightarrow> invoice_poll list \<Rightarrow> event list \<times> run_state" where
  "invoice_run hex oks ps = (case oks of (ok_creation, ok_payment) \<Rightarrow>
     run_subscriber (invoice_branch hex) [ok_creation, ok_payment] ps)"

section \<open>Channels, peers and warnings\<close>

record channel_opened =
  co_id :: bytes
  co_funding_msat :: "u64 option"
  co_funding_txid :: bytes

record channel_open_failed =
  cof_channel_id :: bytes

datatype channel_poll =
    Poll_Opened "channel_opened message"
  | Poll_Open_Failed "channel_open_failed message"

definition opened_event :: "(bytes \<Rightarrow> string) \<Rightarrow> channel_opened \<Rightarrow> event option" where
  "opened_event hex n = map_option (\<lambda>i8.
     Channel (Opened (''cln-chan-open-'' @ hex i8) 0 (hex (co_id n)) (hex (co_funding_txid n))
       (msat_or_zero (co_funding_msat n))))
     (first8 (co_id n))"

definition open_failed_event :: "(bytes \<Rightarrow> string) \<Rightarrow> channel_open_failed \<Rightarrow> event option" where
  "open_failed_event hex n = map_option (\<lambda>i8.
     Channel (OpenFailed (''cln-chan-fail-'' @ hex i8) 0 (hex (cof_channel_id n)) ''''))
     (first8 (cof_channel_id n))"

fun channel_branch :: "(bytes \<Rightarrow> string) \<Rightarrow> channel_poll \<Rightarrow> branch" where
  "channel_branch hex (Poll_Opened m) = on_message (opened_event hex) m"
| "channel_branch hex (Poll_Open_Failed m) = on_message (open_failed_event hex) m"

definition channel_run ::
  "(bytes \<Rightarrow> string) \<Rightarrow> bool \<times> bool \<Rightarrow> channel_poll list \<Rightarrow> event list \<times> run_state" where
  "channel_run hex oks ps = (case oks of (ok_opened, ok_failed) \<Rightarrow>
     run_subscriber (channel_branch hex) [ok_opened, ok_failed] ps)"

record peer_connect =
  pc_id :: bytes

record peer_disconnect =
  pd_id :: bytes

datatype peer_poll =
    Poll_Connect "peer_connect message"
  | Poll_Disconnect "peer_disconnect message"

definition connected_event :: "(bytes \<Rightarrow> string) \<Rightarrow> peer_connect \<Rightarrow> event option" where
  "connected_event hex n = map_option (\<lambda>i8.
     Peer (Connected (''cln-peer-conn-'' @ hex i8) 0 (hex (pc_id n)) '''' ''''))
     (first8 (pc_id n))"

definition disconnected_event :: "(bytes \<Rightarrow> string) \<Rightarrow> peer_disconnect \<Rightarrow> event option" where
  "disconnected_event hex n = map_option (\<lambda>i8.
     Peer (Disconnected (''cln-peer-disc-'' @ hex i8) 0 (hex (pd_id n))))
     (first8 (pd_id n))"

fun peer_branch :: "(bytes \<Rightarrow> string) \<Rightarrow> peer_poll \<Rightarrow> branch" where
  "peer_branch hex (Poll_Connect m) = on_message (connected_event hex) m"
| "peer_branch hex (Poll_Disconnect m) = on_message (disconnected_event hex) m"

definition peer_run ::
  "(bytes \<Rightarrow> string) \<Rightarrow> bool \<times> bool \<Rightarrow> peer_poll list \<Rightarrow> event list \<times> run_state" where
  "peer_run hex oks ps = (case oks of (ok_connect, ok_disconnect) \<Rightarrow>
     run_subscriber (peer_branch hex) [ok_connect, ok_disconnect] ps)"

record warning_note =
  wn_timestamp :: string
  wn_source :: string
  wn_log :: string

definition warning_event :: "warning_note \<Rightarrow> event option" where
  "warning_event n = Some (System (
     Warning (''cln-warn-'' @ wn_timestamp n) 0 (wn_source n) (wn_log n)))"

definition system_run :: "bool \<Rightarrow> warning_note message list \<Rightarrow> event list \<times> run_state" where
  "system_run ok ps = run_subscriber (on_message warning_event) [ok] ps"

section \<open>The loop\<close>

text \<open>The events of a run are those of the polls before the first one that breaks or panics.\<close>

fun sent :: "branch \<Rightarrow> event option" where
  "sent (Send e) = Some e"
| "sent _ = None"

lemma subscribe_all_iff: "snd (subscribe_all oks) \<longleftrightarrow> list_all id oks"
  by (induction oks) (auto simp: split_beta)

lemma subscribe_all_count: "fst (subscribe_all oks) = min (length oks) (Suc (length (takeWhile id oks)))"
  by (induction oks) (auto simp: split_beta)

lemma poll_loop_events:
  "fst (poll_loop h ps) = map (the \<circ> sent \<circ> h) (takeWhile (\<lambda>p. sent (h p) \<noteq> None) ps)"
  by (induction ps) (auto simp: split_beta split: branch.split)

lemma poll_loop_state:
  "snd (poll_loop h ps) = (case dropWhile (\<lambda>p. sent (h p) \<noteq> None) ps of
     [] \<Rightarrow> Polling | p # _ \<Rightarrow> if h p = Break then Stopped else Panicked)"
  by (induction ps) (auto simp: split_beta split: branch.split)

lemma poll_loop_all:
  assumes "\<And>p e. p \<in> set ps \<Longrightarrow> h p = Send e \<Longrightarrow> P e"
  shows "list_all P (fst (poll_loop h ps))"
  using assms by (induction ps) (auto simp: split_beta split: branch.split)

lemma run_subscriber_all:
  assumes "\<And>p e. p \<in> set ps \<Longrightarrow> h p = Send e \<Longrightarrow> P e"
  shows "list_all P (fst (run_subscriber h oks ps))"
  using poll_loop_all [of ps h P] assms by (simp add: run_subscriber_def)

lemma on_message_Send: "on_message f m = Send e \<longleftrightarrow> (\<exists>n. m = Message n \<and> f n = Some e)"
  by (auto simp: on_message_def split: message.splits option.splits)

lemma on_message_Break: "on_message f m = Break \<longleftrightarrow> m = Stream_End \<or> m = Stream_Error"
  by (auto simp: on_message_def split: message.splits option.splits)

lemma on_message_Panic: "on_message f m = Panic \<longleftrightarrow> (\<exists>n. m = Message n \<and> f n = None)"
  by (auto simp: on_message_def split: message.splits option.splits)

lemmas event_defs = success_event_def failure_event_def part_start_event_def part_end_event_def
  creation_event_def paid_event_def opened_event_def open_failed_event_def connected_event_def
  disconnected_event_def warning_event_def

lemma payment_branch_Send:
  "payment_branch hex p = Send e \<Longrightarrow> event_topic e = ''payment'' \<and> erase_preimage e = e"
  by (cases p) (auto simp: on_message_Send event_defs)

text \<open>The polls of the payment subscriber that forward a notification and those that close it.\<close>

fun forwardable :: "payment_poll \<Rightarrow> bool" where
  "forwardable (Poll_Success (Message n)) \<longleftrightarrow> 8 \<le> length (sps_payment_hash n)"
| "forwardable (Poll_Failure (Message n)) \<longleftrightarrow> True"
| "forwardable (Poll_Part_Start (Message n)) \<longleftrightarrow> 8 \<le> length (pps_payment_hash n)"
| "forwardable (Poll_Part_End (Message n)) \<longleftrightarrow> 8 \<le> length (ppe_payment_hash n)"
| "forwardable _ \<longleftrightarrow> False"

definition closing :: "payment_poll \<Rightarrow> bool" where
  "closing p \<longleftrightarrow>
     p \<in> {Poll_Success Stream_End, Poll_Failure Stream_End, Poll_Part_Start Stream_End,
          Poll_Part_End Stream_End, Poll_Success Stream_Error, Poll_Failure Stream_Error,
          Poll_Part_Start Stream_Error, Poll_Part_End Stream_Error}"

lemma payment_branch_forward: "sent (payment_branch hex p) \<noteq> None \<longleftrightarrow> forwardable p"
  by (cases p rule: forwardable.cases) (simp_all add: on_message_def event_defs first8_def)

lemma payment_branch_close: "payment_branch hex p = Break \<longleftrightarrow> closing p"
  by (cases p) (auto simp: on_message_Break closing_def)

lemma payment_run_topic: "list_all (\<lambda>e. event_topic e = ''payment'') (fst (payment_run hex oks ps))"
  unfolding payment_run_def by (cases oks) (auto intro!: run_subscriber_all dest: payment_branch_Send)

section \<open>Properties\<close>


text \<open>With its four subscriptions open, the payment subscriber forwards every notification, in
  order, until the first poll in which any of the four streams ends or fails, where it stops; it
  panics instead if, before that, a notification other than a failure has a payment hash of
  fewer than eight bytes.\<close>

theorem payment_run_result:
  "payment_run hex (True, True, True, True) ps =
     (map (the \<circ> sent \<circ> payment_branch hex) (takeWhile forwardable ps),
      case dropWhile forwardable ps of
        [] \<Rightarrow> Polling
      | p # _ \<Rightarrow> if closing p then Stopped else Panicked)"
  by (simp only: payment_run_def run_subscriber_def prod.case subscribe_all_iff list.pred_inject
      id_apply simp_thms if_True prod_eq_iff fst_conv snd_conv poll_loop_events poll_loop_state
      payment_branch_forward payment_branch_close)

text \<open>A paid invoice is announced to the clients of the invoice streams with the hexadecimal
  form of its preimage in the field named \<open>payment_hash\<close>.\<close>

theorem invoice_paid_exposes_preimage:
  "\<exists>p. Option.bind (paid_event hex n) (converter ''invoice'') = Some p
     \<and> pb_payment_hash p = hex (ip_preimage n)"
  by (simp add: paid_event_def converter_simps Let_def)

end
