(* ===== verification/Cln_Api.thy ===== *)
theory Cln_Api
  imports Rust_Text
begin

text \<open>
  The messages of Core Lightning that the service copies (\<open>proto/api/v1/cln/node.proto\<close>,
  \<open>primitives.proto\<close>), as records with the fields of the messages, and the gRPC status values the
  server returns. An \<open>Amount\<close> is its millisatoshi; \<open>amount_or_any\<close> is the \<open>oneof\<close> of
  \<open>AmountOrAny\<close>.
\<close>

datatype amount_or_any = Amount u64 | Any bool

record invoice_request =
  ir_description :: string
  ir_label :: string
  ir_fallbacks :: "string list"
  ir_preimage :: "bytes option"
  ir_cltv :: "u32 option"
  ir_expiry :: "u64 option"
  ir_exposeprivatechannels :: "string list"
  ir_deschashonly :: "bool option"
  ir_amount_msat :: "amount_or_any option option"  \<comment> \<open>the message and its \<open>oneof\<close> may be absent\<close>

definition default_invoice_request :: invoice_request where
  "default_invoice_request = \<lparr>ir_description = '''', ir_label = '''', ir_fallbacks = [],
     ir_preimage = None, ir_cltv = None, ir_expiry = None, ir_exposeprivatechannels = [],
     ir_deschashonly = None, ir_amount_msat = None\<rparr>"

record invoice_response =
  ip_bolt11 :: string
  ip_payment_hash :: bytes
  ip_payment_secret :: bytes
  ip_expires_at :: u64
  ip_warning_capacity :: "string option"
  ip_warning_offline :: "string option"
  ip_warning_deadends :: "string option"
  ip_warning_private_unused :: "string option"
  ip_warning_mpp :: "string option"
  ip_created_index :: u64

record xpay_request =
  xr_invstring :: string
  xr_amount_msat :: "u64 option"
  xr_maxfee :: "u64 option"
  xr_layers :: "string list"
  xr_retry_for :: "u32 option"
  xr_partial_msat :: "u64 option"
  xr_maxdelay :: "u32 option"
  xr_payer_note :: "string option"
  xr_label :: "string option"
  xr_localinvreqid :: "bytes option"
  xr_dev_use_shadow :: "bool option"

definition default_xpay_request :: xpay_request where
  "default_xpay_request = \<lparr>xr_invstring = '''', xr_amount_msat = None, xr_maxfee = None,
     xr_layers = [], xr_retry_for = None, xr_partial_msat = None, xr_maxdelay = None,
     xr_payer_note = None, xr_label = None, xr_localinvreqid = None, xr_dev_use_shadow = None\<rparr>"

record xpay_response =
  xp_payment_preimage :: bytes
  xp_failed_parts :: u64
  xp_successful_parts :: u64
  xp_amount_msat :: "u64 option"
  xp_amount_sent_msat :: "u64 option"

text \<open>The node's addresses, bindings and features pass through unread: they are type variables.\<close>

record ('addr, 'bind, 'feat) getinfo_response =
  gi_id :: bytes
  gi_alias :: string
  gi_color :: bytes
  gi_num_peers :: u32
  gi_num_pending_channels :: u32
  gi_num_active_channels :: u32
  gi_num_inactive_channels :: u32
  gi_version :: string
  gi_lightning_dir :: string
  gi_our_features :: "'feat option"
  gi_blockheight :: u32
  gi_network :: string
  gi_fees_collected_msat :: "u64 option"
  gi_address :: "'addr list"
  gi_binding :: "'bind list"
  gi_warning_bitcoind_sync :: "string option"
  gi_warning_lightningd_sync :: "string option"

record checkrune_request =
  cr_rune :: string
  cr_nodeid :: "string option"
  cr_method :: "string option"
  cr_params :: "string list"

section \<open>Status\<close>

datatype status_code = Unauthenticated | Resource_Exhausted | Internal | Failed_Precondition | Permission_Denied

record status =
  st_code :: status_code
  st_message :: string

definition unauthenticated :: "string \<Rightarrow> status" where
  "unauthenticated m = \<lparr>st_code = Unauthenticated, st_message = m\<rparr>"

definition resource_exhausted :: "string \<Rightarrow> status" where
  "resource_exhausted m = \<lparr>st_code = Resource_Exhausted, st_message = m\<rparr>"

definition internal_error :: "string \<Rightarrow> status" where
  "internal_error m = \<lparr>st_code = Internal, st_message = m\<rparr>"

end
