(* ===== verification/F64_Round.thy ===== *)
theory F64_Round
  imports Complex_Main
begin

text \<open>
  The \<open>f64\<close> arithmetic of the rate limiter: nonnegative values are fractions of naturals, and every
  operation rounds its exact result to 53 significant bits, ties to even. The values of the
  limiter lie between a nanosecond over 2^64 seconds and 2^64, so neither subnormal numbers nor
  overflow to infinity arise and the exponent is left unbounded.
\<close>

type_synonym f64 = "nat \<times> nat"

text \<open>The integer nearest to \<open>n / d\<close>, ties to even.\<close>

definition round_div :: "nat \<Rightarrow> nat \<Rightarrow> nat" where
  "round_div n d =
     (let q = n div d; r = n mod d
      in if d < 2 * r \<or> (2 * r = d \<and> odd q) then q + 1 else q)"

text \<open>Scale a fraction by a power of two until its integer part has 53 bits.\<close>

function scale_up :: "nat \<Rightarrow> nat \<Rightarrow> nat \<Rightarrow> nat \<times> nat" where
  "scale_up n d k = (if n = 0 \<or> 2 ^ 52 * d \<le> n then (n, k) else scale_up (2 * n) d (k + 1))"
  by pat_completeness auto
termination by (relation "measure (\<lambda>(n, d, k). 2 ^ 52 * d - n)") auto

function scale_down :: "nat \<Rightarrow> nat \<Rightarrow> nat \<Rightarrow> nat \<times> nat" where
  "scale_down n d k = (if d = 0 \<or> n < 2 ^ 53 * d then (d, k) else scale_down n (2 * d) (k + 1))"
  by pat_completeness auto
termination by (relation "measure (\<lambda>(n, d, k). n - d)") auto

declare scale_up.simps [simp del] scale_down.simps [simp del]

definition f_round :: "nat \<Rightarrow> nat \<Rightarrow> f64" where
  "f_round n d =
     (if n < 2 ^ 52 * d
      then case scale_up n d 0 of (n', k) \<Rightarrow> (round_div n' d, 2 ^ k)
      else case scale_down n d 0 of (d', k) \<Rightarrow> (round_div n d' * 2 ^ k, 1))"

definition f_of_nat :: "nat \<Rightarrow> f64" where
  "f_of_nat n = f_round n 1"

definition f_add :: "f64 \<Rightarrow> f64 \<Rightarrow> f64" where
  "f_add x y = f_round (fst x * snd y + fst y * snd x) (snd x * snd y)"

definition f_mul :: "f64 \<Rightarrow> f64 \<Rightarrow> f64" where
  "f_mul x y = f_round (fst x * fst y) (snd x * snd y)"

definition f_div :: "f64 \<Rightarrow> f64 \<Rightarrow> f64" where
  "f_div x y = f_round (fst x * snd y) (snd x * fst y)"

text \<open>The cast \<open>as u32\<close> truncates and saturates.\<close>

definition f_to_u32 :: "f64 \<Rightarrow> nat" where
  "f_to_u32 x = min (fst x div snd x) (2 ^ 32 - 1)"

section \<open>Rounding on the reals\<close>

definition f_val :: "f64 \<Rightarrow> real" where
  "f_val x = real (fst x) / real (snd x)"

definition rnd :: "real \<Rightarrow> int" where
  "rnd y = (if 1 / 2 < y - \<lfloor>y\<rfloor> \<or> (y - \<lfloor>y\<rfloor> = 1 / 2 \<and> odd \<lfloor>y\<rfloor>) then \<lfloor>y\<rfloor> + 1 else \<lfloor>y\<rfloor>)"

lemma rnd_bounds: "\<lfloor>y\<rfloor> \<le> rnd y" "rnd y \<le> \<lfloor>y\<rfloor> + 1"
  by (auto simp: rnd_def)

lemma rnd_of_int [simp]: "rnd (of_int k) = k"
  by (simp add: rnd_def)

lemma rnd_mono: "y \<le> z \<Longrightarrow> rnd y \<le> rnd z"
proof -
  assume le: "y \<le> z"
  then have fl: "\<lfloor>y\<rfloor> \<le> \<lfloor>z\<rfloor>" by (rule floor_mono)
  show ?thesis
  proof (cases "\<lfloor>y\<rfloor> = \<lfloor>z\<rfloor>")
    case True
    then show ?thesis using le by (auto simp: rnd_def)
  next
    case False
    with fl have "\<lfloor>y\<rfloor> + 1 \<le> \<lfloor>z\<rfloor>" by simp
    with rnd_bounds show ?thesis by (meson order_trans)
  qed
qed

lemma rnd_error: "real_of_int (rnd y) \<le> y + 1 / 2"
proof -
  have le: "of_int \<lfloor>y\<rfloor> \<le> y" by linarith
  show ?thesis
  proof (cases "rnd y = \<lfloor>y\<rfloor>")
    case True
    then show ?thesis using le by linarith
  next
    case False
    then have "rnd y = \<lfloor>y\<rfloor> + 1" "1 / 2 \<le> y - \<lfloor>y\<rfloor>" by (auto simp: rnd_def split: if_splits)
    then show ?thesis by simp
  qed
qed

lemma round_div_rnd:
  assumes "0 < d"
  shows "int (round_div n d) = rnd (real n / real d)"
proof -
  have fl: "\<lfloor>real n / real d\<rfloor> = int (n div d)"
    by (metis floor_divide_of_nat_eq of_nat_id)
  have fr: "real n / real d - real (n div d) = real (n mod d) / real d"
  proof -
    have "real n = real (n div d) * real d + real (n mod d)"
      by (metis div_mult_mod_eq of_nat_add of_nat_mult)
    with assms show ?thesis by (simp add: field_simps)
  qed
  have gt: "1 / 2 < real (n mod d) / real d \<longleftrightarrow> d < 2 * (n mod d)"
    using assms by (simp add: field_simps) linarith
  have eq: "real (n mod d) / real d = 1 / 2 \<longleftrightarrow> 2 * (n mod d) = d"
    using assms by (simp add: field_simps) linarith
  show ?thesis
    unfolding rnd_def fl of_int_of_nat_eq fr gt eq round_div_def Let_def by simp
qed

section \<open>What rounding guarantees\<close>

text \<open>A positive value is scaled by a power of two into the range of the 53-bit integers, rounded
  there, and scaled back.\<close>

lemma scale_up_spec:
  assumes "0 < n" and "n < 2 ^ 53 * d"
  shows "\<exists>j. scale_up n d k = (n * 2 ^ j, k + j) \<and> 2 ^ 52 * d \<le> n * 2 ^ j \<and> n * 2 ^ j < 2 ^ 53 * d"
  using assms
proof (induction n d k rule: scale_up.induct)
  case (1 n d k)
  show ?case
  proof (cases "2 ^ 52 * d \<le> n")
    case True
    then show ?thesis using "1.prems" by (intro exI [of _ 0]) (simp add: scale_up.simps [of n])
  next
    case False
    then have "2 * n < 2 ^ 53 * d" by simp
    with "1.IH" False "1.prems" obtain j where
      j: "scale_up (2 * n) d (k + 1) = (2 * n * 2 ^ j, k + 1 + j)" "2 ^ 52 * d \<le> 2 * n * 2 ^ j"
        "2 * n * 2 ^ j < 2 ^ 53 * d" by auto
    then show ?thesis using False "1.prems"
      by (intro exI [of _ "Suc j"]) (simp add: scale_up.simps [of n] mult_ac)
  qed
qed

lemma scale_down_spec:
  assumes "0 < d" and "2 ^ 52 * d \<le> n"
  shows "\<exists>j. scale_down n d k = (d * 2 ^ j, k + j) \<and> 2 ^ 52 * (d * 2 ^ j) \<le> n \<and> n < 2 ^ 53 * (d * 2 ^ j)"
  using assms
proof (induction n d k rule: scale_down.induct)
  case (1 n d k)
  show ?case
  proof (cases "n < 2 ^ 53 * d")
    case True
    then show ?thesis using "1.prems" by (intro exI [of _ 0]) (simp add: scale_down.simps [of n])
  next
    case False
    then have "2 ^ 52 * (2 * d) \<le> n" by simp
    with "1.IH" False "1.prems" obtain j where
      j: "scale_down n (2 * d) (k + 1) = (2 * d * 2 ^ j, k + 1 + j)" "2 ^ 52 * (2 * d * 2 ^ j) \<le> n"
        "n < 2 ^ 53 * (2 * d * 2 ^ j)" by auto
    then show ?thesis using False "1.prems"
      by (intro exI [of _ "Suc j"]) (simp add: scale_down.simps [of n] mult_ac)
  qed
qed

text \<open>\<open>rounds_at e v w\<close>: \<open>w\<close> is \<open>v\<close> rounded at the exponent \<open>e\<close>.\<close>

definition rounds_at :: "int \<Rightarrow> real \<Rightarrow> real \<Rightarrow> bool" where
  "rounds_at e v w \<longleftrightarrow> 2 ^ 52 \<le> v / 2 powi e \<and> v / 2 powi e < 2 ^ 53
     \<and> w = of_int (rnd (v / 2 powi e)) * 2 powi e"

lemma f_round_rounds:
  assumes "0 < n" and "0 < d"
  shows "\<exists>e. rounds_at e (real n / real d) (f_val (f_round n d))"
proof (cases "n < 2 ^ 52 * d")
  case True
  then have "n < 2 ^ 53 * d" by simp
  from scale_up_spec [OF assms(1) this, of 0] obtain j where
    j: "scale_up n d 0 = (n * 2 ^ j, j)" "2 ^ 52 * d \<le> n * 2 ^ j" "n * 2 ^ j < 2 ^ 53 * d" by auto
  have v: "real n / real d / 2 powi (- int j) = real (n * 2 ^ j) / real d"
    by (simp add: power_int_minus field_simps)
  have "real (2 ^ 52 * d) \<le> real (n * 2 ^ j)" "real (n * 2 ^ j) < real (2 ^ 53 * d)"
    using j(2,3) by (simp_all only: of_nat_le_iff of_nat_less_iff)
  then have r: "2 ^ 52 \<le> real (n * 2 ^ j) / real d" "real (n * 2 ^ j) / real d < 2 ^ 53"
    using assms(2) by (simp_all add: field_simps)
  have "f_val (f_round n d) = real (round_div (n * 2 ^ j) d) / 2 ^ j"
    using True j by (simp add: f_round_def f_val_def)
  also have "real (round_div (n * 2 ^ j) d) = of_int (rnd (real (n * 2 ^ j) / real d))"
    by (metis round_div_rnd [OF assms(2)] of_int_of_nat_eq)
  finally show ?thesis using r
    by (intro exI [of _ "- int j"]) (simp only: rounds_at_def v, simp add: power_int_minus field_simps)
next
  case False
  then have "2 ^ 52 * d \<le> n" by simp
  from scale_down_spec [OF assms(2) this, of 0] obtain j where
    j: "scale_down n d 0 = (d * 2 ^ j, j)" "2 ^ 52 * (d * 2 ^ j) \<le> n" "n < 2 ^ 53 * (d * 2 ^ j)" by auto
  have v: "real n / real d / 2 powi (int j) = real n / real (d * 2 ^ j)"
    by (simp add: field_simps)
  have d: "0 < d * 2 ^ j" using assms(2) by simp
  have "real (2 ^ 52 * (d * 2 ^ j)) \<le> real n" "real n < real (2 ^ 53 * (d * 2 ^ j))"
    using j(2,3) by (simp_all only: of_nat_le_iff of_nat_less_iff)
  then have r: "2 ^ 52 \<le> real n / real (d * 2 ^ j)" "real n / real (d * 2 ^ j) < 2 ^ 53"
    using assms(2) by (simp_all add: field_simps)
  have "f_val (f_round n d) = real (round_div n (d * 2 ^ j)) * 2 ^ j"
    using False j by (simp add: f_round_def f_val_def)
  also have "real (round_div n (d * 2 ^ j)) = of_int (rnd (real n / real (d * 2 ^ j)))"
    by (metis round_div_rnd [OF d] of_int_of_nat_eq)
  finally show ?thesis using r
    by (intro exI [of _ "int j"]) (simp only: rounds_at_def v, simp)
qed

lemma f_round_zero [simp]: "f_round 0 d = (0, 1)"
  by (cases "d = 0")
     (simp_all add: f_round_def scale_up.simps [of 0] scale_down.simps [of 0] round_div_def)

lemma f_round_den: "0 < snd (f_round n d)"
  by (auto simp: f_round_def split: prod.split)

lemma rounds_at_mono:
  assumes "rounds_at e v w" and "rounds_at f x y" and "v \<le> x"
  shows "w \<le> y"
proof (cases "e \<le> f")
  case False
  have "v < 2 ^ 53 * 2 powi e" "2 ^ 52 * 2 powi e \<le> v" "2 ^ 52 * 2 powi f \<le> x" "x < 2 ^ 53 * 2 powi f"
    using assms(1,2) by (simp_all add: rounds_at_def field_simps)
  moreover have "(2 :: real) powi (f + 1) \<le> 2 powi e" using False by (intro power_int_increasing) auto
  ultimately have "x < v" by (simp add: power_int_add)
  with assms(3) show ?thesis by simp
next
  case le: True
  show ?thesis
  proof (cases "e = f")
    case True
    have "v / 2 powi e \<le> x / 2 powi e" using assms(3) by (simp add: divide_right_mono)
    then have "rnd (v / 2 powi e) \<le> rnd (x / 2 powi e)" by (rule rnd_mono)
    then have "of_int (rnd (v / 2 powi e)) * 2 powi e \<le> (of_int (rnd (x / 2 powi e)) :: real) * 2 powi e"
      by (intro mult_right_mono) simp_all
    then show ?thesis using assms(1,2) True by (simp add: rounds_at_def)
  next
    case False
    have "rnd (v / 2 powi e) \<le> rnd (of_int (2 ^ 53))"
      using assms(1) by (intro rnd_mono) (simp add: rounds_at_def)
    then have 1: "rnd (v / 2 powi e) \<le> 2 ^ 53" by (simp only: rnd_of_int)
    have "rnd (of_int (2 ^ 52)) \<le> rnd (x / 2 powi f)"
      using assms(2) by (intro rnd_mono) (simp add: rounds_at_def)
    then have 2: "2 ^ 52 \<le> rnd (x / 2 powi f)" by (simp only: rnd_of_int)
    have "w = of_int (rnd (v / 2 powi e)) * 2 powi e" using assms(1) by (simp add: rounds_at_def)
    also have "\<dots> \<le> of_int (2 ^ 53) * 2 powi e" using 1 by (intro mult_right_mono) (simp_all only: of_int_le_iff, simp)
    also have "\<dots> = 2 ^ 52 * 2 powi (e + 1)" by (simp add: power_int_add)
    also have "\<dots> \<le> 2 ^ 52 * 2 powi f"
      using le False by (intro mult_left_mono power_int_increasing) auto
    also have "\<dots> \<le> of_int (rnd (x / 2 powi f)) * 2 powi f"
    proof (intro mult_right_mono)
      show "(2 ^ 52 :: real) \<le> of_int (rnd (x / 2 powi f))"
        using 2 by (metis of_int_le_iff of_int_numeral of_int_power)
    qed simp
    also have "\<dots> = y" using assms(2) by (simp add: rounds_at_def)
    finally show ?thesis .
  qed
qed

lemma rounds_at_error:
  assumes "rounds_at e v w"
  shows "w \<le> v * (1 + 1 / 2 ^ 53)"
proof -
  let ?y = "v / 2 powi e"
  have "of_int (rnd ?y) \<le> ?y + 1 / 2" by (rule rnd_error)
  also have "\<dots> \<le> ?y * (1 + 1 / 2 ^ 53)"
    using assms by (simp add: rounds_at_def algebra_simps)
  finally have "of_int (rnd ?y) * 2 powi e \<le> ?y * (1 + 1 / 2 ^ 53) * 2 powi e"
    by (intro mult_right_mono) simp_all
  then show ?thesis using assms by (simp add: rounds_at_def field_simps)
qed

lemma f_val_nonneg: "0 \<le> f_val x"
  by (simp add: f_val_def)

lemma f_val_zero [simp]: "f_val (0, d) = 0"
  by (simp add: f_val_def)

lemma f_round_mono:
  assumes "real n / real d \<le> real m / real c" and "0 < d" and "0 < c"
  shows "f_val (f_round n d) \<le> f_val (f_round m c)"
proof (cases "n = 0")
  case True
  then show ?thesis by (simp add: f_val_nonneg)
next
  case False
  then have "0 < real n / real d" using assms(2) by simp
  with assms(1) have "m \<noteq> 0" by (cases "m = 0") auto
  with False assms(2,3) obtain e f where
    "rounds_at e (real n / real d) (f_val (f_round n d))"
    "rounds_at f (real m / real c) (f_val (f_round m c))"
    using f_round_rounds by (metis gr0I)
  with assms(1) show ?thesis by (blast intro: rounds_at_mono)
qed

lemma f_round_exact:
  assumes "real n / real d = real k" and "0 < d" and "k < 2 ^ 53"
  shows "f_val (f_round n d) = real k"
proof (cases "n = 0")
  case True
  then show ?thesis using assms by simp
next
  case False
  then obtain e where e: "rounds_at e (real k) (f_val (f_round n d))"
    using f_round_rounds [of n d] assms by auto
  have "e \<le> 0"
  proof (rule ccontr)
    assume "\<not> e \<le> 0"
    then have "(2 :: real) powi 1 \<le> 2 powi e" by (intro power_int_increasing) auto
    moreover have "2 ^ 52 * 2 powi e \<le> real k" using e by (simp add: rounds_at_def field_simps)
    ultimately have "2 ^ 53 \<le> real k" by simp
    moreover have "real k < real (2 ^ 53)" using assms(3) by (simp only: of_nat_less_iff)
    ultimately show False by simp
  qed
  then have "real k / 2 powi e = of_int (int (k * 2 ^ nat (- e)))"
    by (cases "- e" rule: int_cases3) (simp_all add: power_int_def field_simps)
  then have "real_of_int (rnd (real k / 2 powi e)) = real k / 2 powi e" by (simp only: rnd_of_int)
  then show ?thesis using e by (simp add: rounds_at_def)
qed

lemma f_round_error:
  assumes "0 < d"
  shows "f_val (f_round n d) \<le> real n / real d * (1 + 1 / 2 ^ 53)"
proof (cases "n = 0")
  case False
  then show ?thesis using f_round_rounds [of n d] assms rounds_at_error by blast
qed simp

section \<open>The operations\<close>

definition f_wf :: "f64 \<Rightarrow> bool" where
  "f_wf x \<longleftrightarrow> 0 < snd x"

lemma f_wf_ops [simp]: "f_wf (f_of_nat n)" "f_wf (f_add x y)" "f_wf (f_mul x y)" "f_wf (f_div x y)"
  by (simp_all add: f_wf_def f_of_nat_def f_add_def f_mul_def f_div_def f_round_den)

lemma f_of_nat_exact: "n < 2 ^ 53 \<Longrightarrow> f_val (f_of_nat n) = real n"
  unfolding f_of_nat_def by (rule f_round_exact) simp_all

lemma f_frac_add: "f_wf x \<Longrightarrow> f_wf y \<Longrightarrow>
    real (fst x * snd y + fst y * snd x) / real (snd x * snd y) = f_val x + f_val y"
  by (simp add: f_wf_def f_val_def field_simps)

lemma f_add_mono:
  assumes "f_wf x" "f_wf y" "f_wf u" "f_wf v" and "f_val x + f_val y \<le> f_val u + f_val v"
  shows "f_val (f_add x y) \<le> f_val (f_add u v)"
  unfolding f_add_def
  by (rule f_round_mono) (use assms in \<open>simp_all only: f_frac_add\<close>, simp_all add: f_wf_def)

lemma f_add_le_nat:
  assumes "f_wf x" "f_wf y" and "f_val x + f_val y \<le> real k" and "k < 2 ^ 53"
  shows "f_val (f_add x y) \<le> real k"
proof -
  have "f_val (f_add x y) \<le> f_val (f_round k 1)"
    unfolding f_add_def
    by (rule f_round_mono) (use assms in \<open>simp_all only: f_frac_add\<close>, simp_all add: f_wf_def)
  then show ?thesis using f_round_exact [of k 1 k] assms(4) by simp
qed

lemma f_add_ge_nat:
  assumes "f_wf x" "f_wf y" and "real k \<le> f_val x + f_val y" and "k < 2 ^ 53"
  shows "real k \<le> f_val (f_add x y)"
proof -
  have "f_val (f_round k 1) \<le> f_val (f_add x y)"
    unfolding f_add_def
    by (rule f_round_mono) (use assms in \<open>simp_all only: f_frac_add\<close>, simp_all add: f_wf_def)
  then show ?thesis using f_round_exact [of k 1 k] assms(4) by simp
qed

lemma f_add_error:
  assumes "f_wf x" "f_wf y"
  shows "f_val (f_add x y) \<le> (f_val x + f_val y) * (1 + 1 / 2 ^ 53)"
  using f_round_error [of "snd x * snd y" "fst x * snd y + fst y * snd x"] f_frac_add [OF assms] assms
  unfolding f_add_def by (simp only:) (simp add: f_wf_def)

lemma f_frac_div: "f_wf x \<Longrightarrow> real (fst x * snd y) / real (snd x * fst y) = f_val x / f_val y"
  by (simp add: f_wf_def f_val_def field_simps)

lemma f_div_le_one:
  assumes "f_wf x" "f_wf y" and "f_val x \<le> f_val y" and "0 < f_val y"
  shows "f_val (f_div x y) \<le> 1"
proof -
  have "f_val x / f_val y \<le> real 1 / real 1" using assms(3,4) by simp
  moreover have "0 < snd x * fst y"
    using assms(1,4) by (auto simp: f_wf_def f_val_def zero_less_divide_iff)
  ultimately have "f_val (f_div x y) \<le> f_val (f_round 1 1)"
    unfolding f_div_def by (intro f_round_mono) (simp_all only: f_frac_div [OF assms(1)])
  then show ?thesis using f_round_exact [of 1 1 1] by simp
qed

lemma f_div_error:
  assumes "f_wf x" and "0 < f_val y"
  shows "f_val (f_div x y) \<le> f_val x / f_val y * (1 + 1 / 2 ^ 53)"
proof -
  have "0 < snd x * fst y"
    using assms by (auto simp: f_wf_def f_val_def zero_less_divide_iff)
  from f_round_error [OF this, of "fst x * snd y"] show ?thesis
    unfolding f_div_def f_frac_div [OF assms(1)] .
qed

lemma f_frac_mul: "real (fst x * fst y) / real (snd x * snd y) = f_val x * f_val y"
  by (simp add: f_val_def)

lemma f_mul_le_nat:
  assumes "f_wf x" "f_wf y" and "f_val x * f_val y \<le> real k" and "k < 2 ^ 53"
  shows "f_val (f_mul x y) \<le> real k"
proof -
  have "f_val (f_mul x y) \<le> f_val (f_round k 1)"
    unfolding f_mul_def
    by (rule f_round_mono) (use assms in \<open>simp_all only: f_frac_mul\<close>, simp_all add: f_wf_def)
  then show ?thesis using f_round_exact [of k 1 k] assms(4) by simp
qed

lemma f_mul_error:
  assumes "f_wf x" "f_wf y"
  shows "f_val (f_mul x y) \<le> f_val x * f_val y * (1 + 1 / 2 ^ 53)"
proof -
  have "0 < snd x * snd y" using assms by (simp add: f_wf_def)
  from f_round_error [OF this, of "fst x * fst y"] show ?thesis
    unfolding f_mul_def f_frac_mul .
qed

lemma f_to_u32_le: "real (f_to_u32 x) \<le> f_val x"
proof -
  have "real (f_to_u32 x) \<le> real (fst x div snd x)" by (simp add: f_to_u32_def)
  also have "\<dots> \<le> real (fst x) / real (snd x)" by (rule of_nat_div_le_of_nat)
  finally show ?thesis by (simp add: f_val_def)
qed

lemma f_to_u32_range: "f_to_u32 x < 2 ^ 32"
  by (simp add: f_to_u32_def)

end
