(* ===== verification/Rate_Limiter.thy ===== *)
theory Rate_Limiter
  imports F64_Round Rust_Text
begin

text \<open>
  The rate limiter (\<open>grpc/interceptors/rate_limiter.rs\<close>): the policies, the counter in Redis, the
  token buckets that replace it when Redis is unreachable, and the combination. Instants and
  durations are nanoseconds; the clock is the argument \<open>now\<close>. \<open>Duration\<close> and \<open>f64\<close> are those of the
  standard library.
\<close>

section \<open>Policies\<close>

record rate_limit_policy =
  policy_limit :: u32
  policy_window_seconds :: u64

definition PAYMENT_POLICY :: rate_limit_policy where
  "PAYMENT_POLICY = \<lparr>policy_limit = 3, policy_window_seconds = 3600\<rparr>"

definition GETINFO_POLICY :: rate_limit_policy where
  "GETINFO_POLICY = \<lparr>policy_limit = 60, policy_window_seconds = 3600\<rparr>"

definition STREAM_POLICY :: rate_limit_policy where
  "STREAM_POLICY = \<lparr>policy_limit = 12, policy_window_seconds = 3600\<rparr>"

definition policy_for_method :: "string \<Rightarrow> rate_limit_policy option" where
  "policy_for_method m =
     (if m = ''invoice'' \<or> m = ''xpay'' then Some PAYMENT_POLICY
      else if m = ''getinfo'' then Some GETINFO_POLICY
      else if m = ''xpay_stream'' \<or> m = ''invoice_watch'' \<or> m = ''watch_channels'' \<or>
              m = ''watch_peers'' \<or> m = ''watch_system'' then Some STREAM_POLICY
      else None)"

section \<open>The counter in Redis\<close>

text \<open>The commands the script issues; \<open>None\<close> from \<open>redis_incr\<close> is a failed call.\<close>

record 'r redis_ops =
  redis_incr :: "'r \<Rightarrow> string \<Rightarrow> ('r \<times> int) option"
  redis_expire :: "'r \<Rightarrow> string \<Rightarrow> u64 \<Rightarrow> 'r"

definition redis_script :: "'r redis_ops \<Rightarrow> 'r \<Rightarrow> string \<Rightarrow> u32 \<Rightarrow> u64 \<Rightarrow> ('r \<times> int) option" where
  "redis_script ops r key limit window =
     (case redis_incr ops r key of
        None \<Rightarrow> None
      | Some (r1, current) \<Rightarrow>
          (let r2 = (if current = 1 then redis_expire ops r1 key window else r1)
           in Some (r2, if uint limit < current then 0 else 1)))"

definition check_rate_limit :: "'r redis_ops \<Rightarrow> 'r \<Rightarrow> string \<Rightarrow> rate_limit_policy \<Rightarrow> ('r \<times> bool) option" where
  "check_rate_limit ops r key p =
     (case redis_script ops r (''rate_limit:'' @ key) (policy_limit p) (policy_window_seconds p) of
        None \<Rightarrow> None
      | Some (r', reply) \<Rightarrow> Some (r', reply = 1))"

section \<open>Token buckets\<close>

record token_bucket =
  tokens :: u32
  capacity :: u32
  refill_duration :: nat
  last_refill :: nat

definition NANOS_PER_SEC :: nat where
  "NANOS_PER_SEC = 10 ^ 9"

definition from_secs :: "u64 \<Rightarrow> nat" where
  "from_secs s = unat s * NANOS_PER_SEC"

definition as_secs_f64 :: "nat \<Rightarrow> f64" where
  "as_secs_f64 d = f_add (f_of_nat (d div NANOS_PER_SEC))
     (f_div (f_of_nat (d mod NANOS_PER_SEC)) (f_of_nat NANOS_PER_SEC))"

definition refill_tokens :: "nat \<Rightarrow> nat \<Rightarrow> u32 \<Rightarrow> nat" where
  "refill_tokens elapsed duration cap =
     f_to_u32 (f_mul (f_div (as_secs_f64 elapsed) (as_secs_f64 duration)) (f_of_nat (unat cap)))"

definition refill :: "nat \<Rightarrow> token_bucket \<Rightarrow> token_bucket" where
  "refill now b =
     (let elapsed = now - last_refill b in
      if refill_duration b \<le> elapsed then b\<lparr>tokens := capacity b, last_refill := now\<rparr>
      else if tokens b < capacity b then
        (let r = refill_tokens elapsed (refill_duration b) (capacity b) in
         if 0 < r
         then b\<lparr>tokens := min (tokens b + of_nat r) (capacity b), last_refill := now\<rparr>
         else b)
      else b)"

definition take_token :: "token_bucket \<Rightarrow> bool \<times> token_bucket" where
  "take_token b = (if 0 < tokens b then (True, b\<lparr>tokens := tokens b - 1\<rparr>) else (False, b))"

type_synonym limiter = "token_bucket hmap"

definition check :: "string \<Rightarrow> rate_limit_policy \<Rightarrow> nat \<Rightarrow> limiter \<Rightarrow> bool \<times> limiter" where
  "check key p now m =
     (let duration = from_secs (policy_window_seconds p);
          b0 = (case hm_get m key of
                  Some b \<Rightarrow> b
                | None \<Rightarrow> \<lparr>tokens = policy_limit p, capacity = policy_limit p,
                           refill_duration = duration, last_refill = now\<rparr>);
          b1 = b0\<lparr>capacity := policy_limit p, refill_duration := duration\<rparr>;
          (allowed, b2) = take_token (refill now b1)
      in (allowed, hm_put key b2 m))"

text \<open>\<open>Duration * 2\<close> panics when it exceeds \<open>Duration::MAX\<close>.\<close>

definition cleanup :: "nat \<Rightarrow> limiter \<Rightarrow> limiter option" where
  "cleanup now m =
     (if list_ex (\<lambda>(_, b). 2 ^ 64 * NANOS_PER_SEC \<le> refill_duration b * 2) (hm_entries m) then None
      else Some (hm_retain (\<lambda>_ b. now - last_refill b < refill_duration b * 2) m))"

definition tracked_keys :: "limiter \<Rightarrow> nat" where
  "tracked_keys m = hm_len m"

section \<open>The combination\<close>

definition check_with_fallback ::
  "'r redis_ops \<Rightarrow> string \<Rightarrow> rate_limit_policy \<Rightarrow> nat \<Rightarrow> 'r option \<times> limiter \<Rightarrow> bool \<times> 'r option \<times> limiter"
where
  "check_with_fallback ops key p now st =
     (case st of
        (Some r, m) \<Rightarrow>
          (case check_rate_limit ops r key p of
             Some (r', allowed) \<Rightarrow> (allowed, Some r', m)
           | None \<Rightarrow> (let (allowed, m') = check key p now m in (allowed, Some r, m')))
      | (None, m) \<Rightarrow> (let (allowed, m') = check key p now m in (allowed, None, m')))"

section \<open>The contract of a keyed limiter\<close>

text \<open>
  What the layers rely on when they charge a request to a key: the answer and the new state of a
  key depend on the old state of that key only, and the other keys keep theirs. Then the
  answers a key gets in a run are those of the run without all other requests.
\<close>

fun answers ::
  "('k \<Rightarrow> 'p \<Rightarrow> 't \<Rightarrow> 's \<Rightarrow> bool \<times> 's) \<Rightarrow> 'k \<Rightarrow> ('k \<times> 'p \<times> 't) list \<Rightarrow> 's \<Rightarrow> bool list" where
  "answers check_op k [] s = []"
| "answers check_op k ((k', p, t) # ops) s =
     (case check_op k' p t s of (a, s') \<Rightarrow>
        (if k' = k then a # answers check_op k ops s' else answers check_op k ops s'))"

locale keyed_limiter =
  fixes check_op :: "'k \<Rightarrow> 'p \<Rightarrow> 't \<Rightarrow> 's \<Rightarrow> bool \<times> 's" and view :: "'s \<Rightarrow> 'k \<Rightarrow> 'b option"
  assumes frame: "k' \<noteq> k \<Longrightarrow> view (snd (check_op k p t s)) k' = view s k'"
    and local_answer: "view s k = view s' k \<Longrightarrow> fst (check_op k p t s) = fst (check_op k p t s')"
    and local_view: "view s k = view s' k \<Longrightarrow>
      view (snd (check_op k p t s)) k = view (snd (check_op k p t s')) k"
begin

lemma answers_cong: "view s k = view s' k \<Longrightarrow> answers check_op k ops s = answers check_op k ops s'"
proof (induction ops arbitrary: s s')
  case (Cons op ops)
  obtain k' p t where op: "op = (k', p, t)" by (metis prod_cases3)
  obtain a s1 where 1: "check_op k' p t s = (a, s1)" by force
  obtain b s2 where 2: "check_op k' p t s' = (b, s2)" by force
  show ?case
  proof (cases "k' = k")
    case True
    then have "a = b" "view s1 k = view s2 k"
      using local_answer [OF Cons.prems, of p t] local_view [OF Cons.prems, of p t] 1 2 by simp_all
    then show ?thesis using True op 1 2 Cons.IH [of s1 s2] by simp
  next
    case False
    then have "view s1 k = view s k" "view s2 k = view s' k"
      using frame [of k k' p t s] frame [of k k' p t s'] 1 2 by auto
    then show ?thesis using False op 1 2 Cons.IH [of s1 s2] Cons.prems by simp
  qed
qed simp

lemma answers_independent: "answers check_op k ops s = answers check_op k (filter (\<lambda>op. fst op = k) ops) s"
proof (induction ops arbitrary: s)
  case (Cons op ops)
  obtain k' p t where op: "op = (k', p, t)" by (metis prod_cases3)
  obtain a s1 where 1: "check_op k' p t s = (a, s1)" by force
  show ?case
  proof (cases "k' = k")
    case False
    then have "view s1 k = view s k" using frame [of k k' p t s] 1 by auto
    from answers_cong [OF this, of "filter (\<lambda>op. fst op = k) ops"] False op 1 Cons.IH [of s1]
    show ?thesis by simp
  qed (use op 1 Cons.IH [of s1] in simp)
qed simp

end

interpretation limiter: keyed_limiter check hm_get
  by unfold_locales (simp_all add: check_def Let_def split_beta hmap_simps)

end
