(* ===== verification/Limiter_Bounds.thy ===== *)
theory Limiter_Bounds
  imports Rate_Limiter
begin

text \<open>
  What the token buckets guarantee: the f64 refill never overfills a bucket, a key is never
  granted more than its burst plus the policy's rate over the elapsed time (up to the rounding
  of four floating-point operations), keys do not influence each other, and the periodic cleanup
  cannot be observed.
\<close>

declare of_nat_unat [simp del]

section \<open>The refill\<close>

lemma as_secs_parts:
  "f_wf (as_secs_f64 d)" "f_wf (f_div (f_of_nat (d mod NANOS_PER_SEC)) (f_of_nat NANOS_PER_SEC))"
  by (simp_all add: as_secs_f64_def)

lemma nanos_val: "f_val (f_of_nat NANOS_PER_SEC) = 10 ^ 9"
  using f_of_nat_exact [of NANOS_PER_SEC] by (simp add: NANOS_PER_SEC_def)

lemma subsec_val: "f_val (f_of_nat (d mod NANOS_PER_SEC)) = real (d mod NANOS_PER_SEC)"
proof (rule f_of_nat_exact)
  have "d mod NANOS_PER_SEC < NANOS_PER_SEC" by (simp add: NANOS_PER_SEC_def)
  then show "d mod NANOS_PER_SEC < 2 ^ 53" by (simp add: NANOS_PER_SEC_def)
qed

lemma subsec_le_one: "f_val (f_div (f_of_nat (d mod NANOS_PER_SEC)) (f_of_nat NANOS_PER_SEC)) \<le> 1"
proof (rule f_div_le_one)
  have "d mod NANOS_PER_SEC < NANOS_PER_SEC" by (simp add: NANOS_PER_SEC_def)
  then show "f_val (f_of_nat (d mod NANOS_PER_SEC)) \<le> f_val (f_of_nat NANOS_PER_SEC)"
    unfolding subsec_val nanos_val by (simp add: NANOS_PER_SEC_def)
qed (simp_all add: nanos_val)

lemma as_secs_whole:
  assumes "w < 2 ^ 53"
  shows "f_val (as_secs_f64 (w * NANOS_PER_SEC)) = real w"
proof -
  have n: "w * NANOS_PER_SEC div NANOS_PER_SEC = w" "w * NANOS_PER_SEC mod NANOS_PER_SEC = 0"
    by (simp_all add: NANOS_PER_SEC_def)
  have z: "f_val (f_div (f_of_nat 0) (f_of_nat NANOS_PER_SEC)) = 0"
    by (simp add: f_div_def f_of_nat_def)
  note w = f_of_nat_exact [OF assms]
  have "f_val (as_secs_f64 (w * NANOS_PER_SEC)) \<le> real w"
    unfolding as_secs_f64_def n using w z assms by (intro f_add_le_nat) simp_all
  moreover have "real w \<le> f_val (as_secs_f64 (w * NANOS_PER_SEC))"
    unfolding as_secs_f64_def n using w z assms by (intro f_add_ge_nat) simp_all
  ultimately show ?thesis by simp
qed

lemma secs_below:
  assumes "d < w * NANOS_PER_SEC"
  shows "d div NANOS_PER_SEC + 1 \<le> w"
  using assms by (simp add: less_mult_imp_div_less Suc_leI)

lemma as_secs_le:
  assumes "d < w * NANOS_PER_SEC" and "w < 2 ^ 53"
  shows "f_val (as_secs_f64 d) \<le> real w"
proof -
  have s: "d div NANOS_PER_SEC + 1 \<le> w" using assms(1) by (rule secs_below)
  then have "f_val (f_of_nat (d div NANOS_PER_SEC)) = real (d div NANOS_PER_SEC)"
    using assms(2) by (intro f_of_nat_exact) simp
  then have "f_val (f_of_nat (d div NANOS_PER_SEC)) +
      f_val (f_div (f_of_nat (d mod NANOS_PER_SEC)) (f_of_nat NANOS_PER_SEC)) \<le> real w"
    using subsec_le_one [of d] s by linarith
  then show ?thesis
    unfolding as_secs_f64_def using assms(2) by (intro f_add_le_nat) simp_all
qed

text \<open>One unit in the last place, once for each of the four rounded operations.\<close>

definition ulp :: real where
  "ulp = 1 + 1 / 2 ^ 53"

lemma ulp_pos: "0 < ulp" "1 \<le> ulp" "1 \<le> ulp ^ n"
  by (simp_all add: ulp_def)

lemma as_secs_error:
  assumes "d < w * NANOS_PER_SEC" and "w < 2 ^ 53"
  shows "f_val (as_secs_f64 d) \<le> real d / 10 ^ 9 * ulp ^ 2"
proof -
  let ?s = "real (d div NANOS_PER_SEC)" and ?n = "real (d mod NANOS_PER_SEC)"
  have s: "f_val (f_of_nat (d div NANOS_PER_SEC)) = ?s"
    using secs_below [OF assms(1)] assms(2) by (intro f_of_nat_exact) simp
  have n: "f_val (f_div (f_of_nat (d mod NANOS_PER_SEC)) (f_of_nat NANOS_PER_SEC)) \<le> ?n / 10 ^ 9 * ulp"
    using f_div_error [of "f_of_nat (d mod NANOS_PER_SEC)" "f_of_nat NANOS_PER_SEC"]
    unfolding subsec_val nanos_val by (simp add: ulp_def)
  have "real d = ?s * 10 ^ 9 + ?n"
    by (metis NANOS_PER_SEC_def div_mult_mod_eq of_nat_add of_nat_mult of_nat_numeral of_nat_power)
  then have d: "real d / 10 ^ 9 = ?s + ?n / 10 ^ 9" by (simp add: field_simps)
  have "f_val (as_secs_f64 d) \<le> (?s + ?n / 10 ^ 9 * ulp) * ulp"
    unfolding as_secs_f64_def
    by (rule order_trans [OF f_add_error]) (use s n ulp_pos in \<open>simp_all add: ulp_def\<close>)
  also have "\<dots> \<le> ((?s + ?n / 10 ^ 9) * ulp) * ulp"
  proof (rule mult_right_mono)
    have "1 * ?s \<le> ulp * ?s" using ulp_pos(2) by (intro mult_right_mono) simp_all
    then show "?s + ?n / 10 ^ 9 * ulp \<le> (?s + ?n / 10 ^ 9) * ulp" by (simp add: algebra_simps)
  qed (use ulp_pos in simp)
  finally show ?thesis unfolding d power2_eq_square by (simp only: mult.assoc)
qed

lemma unat_u32_small: "unat (c :: u32) < 2 ^ 32"
  using unsigned_less [of c] by simp

lemma cap_val: "f_val (f_of_nat (unat (c :: u32))) = real (unat c)"
  using unat_u32_small [of c] by (intro f_of_nat_exact) simp

text \<open>A partial refill never exceeds the capacity.\<close>

lemma refill_tokens_le:
  assumes "e < w * NANOS_PER_SEC" and "w < 2 ^ 53"
  shows "refill_tokens e (w * NANOS_PER_SEC) c \<le> unat c"
proof -
  have w: "0 < w" using assms(1) by (cases w) auto
  let ?q = "f_div (as_secs_f64 e) (as_secs_f64 (w * NANOS_PER_SEC))"
  have "f_val ?q \<le> 1"
    using as_secs_le [OF assms] as_secs_whole [OF assms(2)] w
    by (intro f_div_le_one) (simp_all add: as_secs_parts)
  from mult_right_mono [OF this of_nat_0_le_iff]
  have "f_val ?q * f_val (f_of_nat (unat c)) \<le> 1 * real (unat c)" unfolding cap_val .
  then have "f_val (f_mul ?q (f_of_nat (unat c))) \<le> real (unat c)"
    using unat_u32_small [of c] by (intro f_mul_le_nat) simp_all
  then have "real (refill_tokens e (w * NANOS_PER_SEC) c) \<le> real (unat c)"
    unfolding refill_tokens_def using f_to_u32_le order_trans by blast
  then show ?thesis by (simp only: of_nat_le_iff)
qed

lemma refill_tokens_rate:
  assumes "e < w * NANOS_PER_SEC" and "w < 2 ^ 53"
  shows "real (refill_tokens e (w * NANOS_PER_SEC) c) \<le>
    real (unat c) * (real e / real (w * NANOS_PER_SEC)) * ulp ^ 4"
proof -
  have w: "0 < w" using assms(1) by (cases w) auto
  let ?q = "f_div (as_secs_f64 e) (as_secs_f64 (w * NANOS_PER_SEC))"
  have "f_val ?q \<le> f_val (as_secs_f64 e) / real w * ulp"
    using f_div_error [of "as_secs_f64 e" "as_secs_f64 (w * NANOS_PER_SEC)"] w
    by (simp add: as_secs_whole [OF assms(2)] as_secs_parts ulp_def)
  also have "\<dots> \<le> (real e / 10 ^ 9 * ulp ^ 2) / real w * ulp"
    using as_secs_error [OF assms] ulp_pos by (intro mult_right_mono divide_right_mono) simp_all
  finally have q: "f_val ?q \<le> real e / real (w * NANOS_PER_SEC) * ulp ^ 3"
    by (simp add: NANOS_PER_SEC_def power2_eq_square power3_eq_cube mult_ac)
  have "f_val (f_mul ?q (f_of_nat (unat c))) \<le> f_val ?q * real (unat c) * ulp"
    using f_mul_error [of ?q "f_of_nat (unat c)"] by (simp add: cap_val ulp_def)
  also have "\<dots> \<le> (real e / real (w * NANOS_PER_SEC) * ulp ^ 3) * real (unat c) * ulp"
    using mult_right_mono [OF mult_right_mono [OF q of_nat_0_le_iff] less_imp_le [OF ulp_pos(1)]] .
  also have "\<dots> = real (unat c) * (real e / real (w * NANOS_PER_SEC)) * ulp ^ 4"
    by (simp add: power4_eq_xxxx power3_eq_cube mult_ac)
  finally show ?thesis
    unfolding refill_tokens_def using f_to_u32_le order_trans by blast
qed

section \<open>One check\<close>

text \<open>The policies the bounds speak of: a window of at least a second and of less than 2^53
  seconds, and a limit for which the sum of two fillings fits an \<open>u32\<close>.\<close>

definition policy_ok :: "rate_limit_policy \<Rightarrow> bool" where
  "policy_ok p \<longleftrightarrow> 0 < unat (policy_window_seconds p) \<and> unat (policy_window_seconds p) < 2 ^ 53
     \<and> unat (policy_limit p) \<le> 2 ^ 31"

definition bucket_of :: "rate_limit_policy \<Rightarrow> token_bucket \<Rightarrow> bool" where
  "bucket_of p b \<longleftrightarrow> capacity b = policy_limit p \<and> refill_duration b = from_secs (policy_window_seconds p)
     \<and> tokens b \<le> capacity b"

text \<open>Tokens a bucket may still gain: the rate of the policy over the time, rounding included.\<close>

definition gain :: "rate_limit_policy \<Rightarrow> real \<Rightarrow> real" where
  "gain p t = real (unat (policy_limit p)) * (t / real (from_secs (policy_window_seconds p))) * ulp ^ 4"

lemma window_pos: "policy_ok p \<Longrightarrow> 0 < from_secs (policy_window_seconds p)"
  by (simp add: policy_ok_def from_secs_def NANOS_PER_SEC_def)

lemma gain_diff: "gain p (t - u) = gain p t - gain p u"
  by (simp add: gain_def diff_divide_distrib algebra_simps)

lemma gain_mono: "t \<le> u \<Longrightarrow> gain p t \<le> gain p u"
  unfolding gain_def
  by (intro mult_right_mono mult_left_mono divide_right_mono) (simp_all add: less_imp_le [OF ulp_pos(1)])

lemma gain_nonneg: "0 \<le> t \<Longrightarrow> 0 \<le> gain p t"
  using gain_mono [of 0 t p] by (simp add: gain_def)

lemma gain_full:
  assumes "policy_ok p" and "real (from_secs (policy_window_seconds p)) \<le> t"
  shows "real (unat (policy_limit p)) \<le> gain p t"
proof -
  let ?w = "real (from_secs (policy_window_seconds p))"
  have "real (unat (policy_limit p)) * 1 \<le> real (unat (policy_limit p)) * (t / ?w * ulp ^ 4)"
  proof (rule mult_left_mono [OF _ of_nat_0_le_iff])
    have "1 \<le> t / ?w" using assms window_pos [OF assms(1)] by simp
    moreover have "0 \<le> t / ?w" using \<open>1 \<le> t / ?w\<close> by linarith
    ultimately show "1 \<le> t / ?w * ulp ^ 4"
      using mult_mono [of 1 "t / ?w" 1 "ulp ^ 4"] ulp_pos(3) [of 4] by simp
  qed
  then show ?thesis by (simp add: gain_def mult.assoc)
qed

text \<open>A refill adds at most the gain of the time since the last one, keeps the bucket within its
  capacity and does not wrap.\<close>

lemma refill_bound:
  assumes ok: "policy_ok p" and b: "bucket_of p b" and now: "last_refill b \<le> now"
  shows "bucket_of p (refill now b) \<and> last_refill b \<le> last_refill (refill now b)
    \<and> last_refill (refill now b) \<le> now
    \<and> real (unat (tokens (refill now b))) \<le> real (unat (tokens b))
        + gain p (real (last_refill (refill now b)) - real (last_refill b))"
proof -
  let ?e = "now - last_refill b" and ?w = "unat (policy_window_seconds p)"
  let ?r = "refill_tokens ?e (refill_duration b) (capacity b)"
  have dur: "refill_duration b = ?w * NANOS_PER_SEC" and cap: "capacity b = policy_limit p"
    and le: "tokens b \<le> capacity b"
    using b unfolding bucket_of_def from_secs_def by blast+
  have w: "?w < 2 ^ 53" "unat (policy_limit p) \<le> 2 ^ 31" using ok by (simp_all add: policy_ok_def)
  consider (full) "refill_duration b \<le> ?e"
    | (part) "?e < refill_duration b" "tokens b < capacity b" "0 < ?r"
    | (none) "refill now b = b"
    by (cases "refill_duration b \<le> ?e"; cases "tokens b < capacity b"; cases "0 < ?r")
       (auto simp: refill_def Let_def)
  then show ?thesis
  proof cases
    case full
    then have "refill now b = b\<lparr>tokens := capacity b, last_refill := now\<rparr>" by (simp add: refill_def)
    moreover have "real (unat (policy_limit p)) \<le> gain p (real now - real (last_refill b))"
    proof (rule gain_full [OF ok])
      have "from_secs (policy_window_seconds p) \<le> now - last_refill b"
        using full by (simp only: dur from_secs_def)
      then show "real (from_secs (policy_window_seconds p)) \<le> real now - real (last_refill b)"
        using now by linarith
    qed
    ultimately show ?thesis using b now cap by (simp add: bucket_of_def add_increasing)
  next
    case part
    have r: "?r \<le> unat (policy_limit p)"
      using refill_tokens_le [of ?e ?w] part(1) w(1) by (simp add: dur cap)
    have t: "unat (tokens b) < 2 ^ 31"
      using part(2) w(2) unfolding word_less_nat_alt cap by linarith
    have sum: "unat (tokens b + of_nat ?r) = unat (tokens b) + ?r"
    proof -
      have "?r < 2 ^ LENGTH(32)" using r w(2) by simp
      then have "unat (of_nat ?r :: u32) = ?r" by (rule unat_of_nat_small)
      then show ?thesis using t r w(2) by (simp add: unat_word_ariths)
    qed
    have new: "refill now b = b\<lparr>tokens := min (tokens b + of_nat ?r) (capacity b), last_refill := now\<rparr>"
      using part by (simp add: refill_def Let_def)
    have "unat (min (tokens b + of_nat ?r) (capacity b)) \<le> unat (tokens b) + ?r"
      using sum by (metis min.cobounded1 word_le_nat_alt)
    moreover have "tokens (refill now b) = min (tokens b + of_nat ?r) (capacity b)" by (simp add: new)
    ultimately have "unat (tokens (refill now b)) \<le> unat (tokens b) + ?r" by simp
    then have "real (unat (tokens (refill now b))) \<le> real (unat (tokens b) + ?r)"
      by (rule of_nat_mono)
    then have "real (unat (tokens (refill now b))) \<le> real (unat (tokens b)) + real ?r"
      by (simp only: of_nat_add)
    also have "real ?r \<le> gain p (real now - real (last_refill b))"
      using refill_tokens_rate [of ?e ?w "capacity b"] part(1) w(1) now
      by (simp add: dur cap gain_def from_secs_def of_nat_diff)
    finally show ?thesis using b now by (simp add: new bucket_of_def)
  next
    case none
    then show ?thesis using b now by (simp add: gain_def)
  qed
qed

text \<open>The bucket of a key after a check, and the invariant of a run: what was granted and what is
  left never exceeds the burst plus the gain since the first refill time.\<close>

lemma check_bucket:
  assumes ok: "policy_ok p" and chk: "check k p now m = (a, m')"
    and b: "\<And>b. hm_get m k = Some b \<Longrightarrow> bucket_of p b \<and> last_refill b \<le> now"
  shows "\<exists>b'. hm_get m' k = Some b' \<and> bucket_of p b' \<and> last_refill b' \<le> now
    \<and> (case hm_get m k of
         None \<Rightarrow> real (unat (tokens b')) + of_bool a \<le> real (unat (policy_limit p)) \<and> last_refill b' = now
       | Some b \<Rightarrow> last_refill b \<le> last_refill b' \<and>
           real (unat (tokens b')) + of_bool a \<le> real (unat (tokens b))
             + gain p (real (last_refill b') - real (last_refill b)))"
proof -
  define b0 where "b0 = (case hm_get m k of Some b \<Rightarrow> b
    | None \<Rightarrow> \<lparr>tokens = policy_limit p, capacity = policy_limit p,
              refill_duration = from_secs (policy_window_seconds p), last_refill = now\<rparr>)"
  have b0: "bucket_of p b0" "last_refill b0 \<le> now"
    using b by (auto simp: b0_def bucket_of_def split: option.split)
  then have same: "b0\<lparr>capacity := policy_limit p, refill_duration := from_secs (policy_window_seconds p)\<rparr> = b0"
    by (simp add: bucket_of_def)
  define b1 where "b1 = refill now b0"
  define b2 where "b2 = snd (take_token b1)"
  have a: "a = fst (take_token b1)" and m': "m' = hm_put k b2 m"
    using chk same by (simp_all add: check_def Let_def b0_def [symmetric] split_beta b1_def b2_def)
  note r = refill_bound [OF ok b0, folded b1_def]
  have pos: "0 < tokens b1 \<Longrightarrow> unat (tokens b1 - 1) = unat (tokens b1) - 1 \<and> 0 < unat (tokens b1)"
    by (metis unat_minus_one unat_gt_0 word_gt_0)
  have tk: "bucket_of p b2" "last_refill b2 = last_refill b1"
    "real (unat (tokens b2)) + of_bool a = real (unat (tokens b1))"
    using r pos
    by (auto simp: take_token_def a b2_def bucket_of_def word_le_nat_alt word_gt_0 of_nat_diff)
  show ?thesis
  proof (cases "hm_get m k")
    case None
    then have "tokens b0 = policy_limit p" "last_refill b0 = now" "b1 = b0"
      using window_pos [OF ok] by (simp_all add: b0_def b1_def refill_def)
    with None tk show ?thesis by (simp add: m' hmap_simps)
  next
    case (Some b)
    then have "b0 = b" by (simp add: b0_def)
    with Some tk r show ?thesis by (simp add: m' hmap_simps)
  qed
qed

section \<open>A run of one key\<close>

definition granted :: "bool list \<Rightarrow> nat" where
  "granted rs = length (filter id rs)"

lemma granted_Cons: "granted (a # rs) = of_bool a + granted rs"
  by (simp add: granted_def)

lemma run_bound:
  assumes ok: "policy_ok p" and "hm_get m k = Some b" and "bucket_of p b"
    and "sorted ts" and "\<forall>t \<in> set ts. last_refill b \<le> t \<and> t \<le> T" and "last_refill b \<le> T"
  shows "real (granted (answers check k (map (\<lambda>t. (k, p, t)) ts) m)) \<le>
    real (unat (tokens b)) + gain p (real T - real (last_refill b))"
  using assms(2-)
proof (induction ts arbitrary: m b)
  case Nil
  then show ?case using gain_nonneg [of "real T - real (last_refill b)" p] by (simp add: granted_def)
next
  case (Cons t ts)
  obtain a m' where c: "check k p t m = (a, m')" by force
  have t: "bucket_of p b" "last_refill b \<le> t" "t \<le> T" using Cons.prems by simp_all
  from check_bucket [OF ok c] Cons.prems(1) t obtain b' where
    b': "hm_get m' k = Some b'" "bucket_of p b'" "last_refill b' \<le> t"
    and tok: "real (unat (tokens b')) + of_bool a \<le> real (unat (tokens b))
      + gain p (real (last_refill b') - real (last_refill b))"
    by auto
  have "\<forall>u \<in> set ts. last_refill b' \<le> u \<and> u \<le> T" using Cons.prems(3,4) b'(3) by auto
  then have "real (granted (answers check k (map (\<lambda>t. (k, p, t)) ts) m')) \<le>
      real (unat (tokens b')) + gain p (real T - real (last_refill b'))"
    using Cons.prems(3) b' t(3) by (intro Cons.IH) simp_all
  then show ?case using tok c by (simp add: granted_Cons gain_diff)
qed

lemma bucket_bound:
  assumes "policy_ok p" and "hm_get m k = None"
    and "filter (\<lambda>op. fst op = k) ops = map (\<lambda>t. (k, p, t)) (t0 # ts)"
    and "sorted (t0 # ts)" and "list_all (\<lambda>t. t \<le> T) (t0 # ts)"
  shows "real (granted (answers check k ops m)) \<le> real (unat (policy_limit p)) *
    (1 + (real T - real t0) / real (from_secs (policy_window_seconds p)) * (1 + 1 / 2 ^ 53) ^ 4)"
proof -
  obtain a m' where c: "check k p t0 m = (a, m')" by force
  from check_bucket [OF assms(1) c] assms(2) obtain b' where
    b': "hm_get m' k = Some b'" "bucket_of p b'" "last_refill b' = t0"
    and tok: "real (unat (tokens b')) + of_bool a \<le> real (unat (policy_limit p))"
    by auto
  have "real (granted (answers check k (map (\<lambda>t. (k, p, t)) ts) m')) \<le>
      real (unat (tokens b')) + gain p (real T - real (last_refill b'))"
    using assms(4,5) b' by (intro run_bound [OF assms(1) b'(1,2)]) (auto simp: list_all_iff)
  moreover have "answers check k ops m = a # answers check k (map (\<lambda>t. (k, p, t)) ts) m'"
    by (subst limiter.answers_independent) (simp add: assms(3) c)
  ultimately have "real (granted (answers check k ops m)) \<le>
      real (unat (policy_limit p)) + gain p (real T - real t0)"
    using tok b'(3) by (simp add: granted_Cons)
  then show ?thesis by (simp add: gain_def ulp_def algebra_simps)
qed

text \<open>C10: whatever the other keys do, the fallback grants a key that it does not track yet at most
  its limit plus the policy's share of the time since the key's first request, with one relative
  error of 2^-53 for each of the four rounded operations: the code keeps a token bucket, so over
  one window up to twice the limit can pass.\<close>

theorem token_bucket_bound:
  assumes "policy_ok p" and "hm_get m k = None"
    and "filter (\<lambda>op. fst op = k) ops = map (\<lambda>t. (k, p, t)) (t0 # ts)"
    and "sorted (t0 # ts)" and "list_all (\<lambda>t. t \<le> T) (t0 # ts)"
  shows "real (granted (answers check k ops m)) \<le> real (unat (policy_limit p)) *
    (1 + (real T - real t0) / real (from_secs (policy_window_seconds p)) * (1 + 1 / 2 ^ 53) ^ 4)"
  by (rule bucket_bound [OF assms])

lemma token_bucket_bound_witness:
  "real (granted (answers check ''a'' [(''a'', PAYMENT_POLICY, 5), (''b'', PAYMENT_POLICY, 6)] hm_empty)) \<le> 3"
  using token_bucket_bound [of PAYMENT_POLICY hm_empty "''a''"
      "[(''a'', PAYMENT_POLICY, 5), (''b'', PAYMENT_POLICY, 6)]" 5 "[]" 5]
  by (simp add: policy_ok_def PAYMENT_POLICY_def hmap_simps)

text \<open>The answers a key gets are those it would get if no other key made any request: no client
  can spend or refill the budget of another.\<close>

theorem budgets_independent:
  "answers check k ops m = answers check k (filter (\<lambda>op. fst op = k) ops) m"
  by (rule limiter.answers_independent)

section \<open>Bursts and cleanup\<close>

lemma refill_tokens_zero: "refill_tokens 0 d c = 0"
  by (simp add: refill_tokens_def as_secs_f64_def f_of_nat_def f_div_def f_add_def f_mul_def f_to_u32_def)

lemma refill_now:
  assumes "policy_ok p" and "bucket_of p b" and "last_refill b = now"
  shows "refill now b = b"
  using assms window_pos [OF assms(1)] by (simp add: refill_def bucket_of_def refill_tokens_zero)

lemma burst_from:
  assumes ok: "policy_ok p" and "hm_get m k = Some b" and "bucket_of p b" and "last_refill b = now"
  shows "answers check k (replicate n (k, p, now)) m =
    map (\<lambda>i. i < unat (tokens b)) [0..<n]"
  using assms(2-)
proof (induction n arbitrary: m b)
  case (Suc n)
  let ?b2 = "snd (take_token b)"
  have "b\<lparr>capacity := policy_limit p, refill_duration := from_secs (policy_window_seconds p)\<rparr> = b"
    using Suc.prems(2) by (simp add: bucket_of_def)
  then have c: "check k p now m = (0 < tokens b, hm_put k ?b2 m)"
    using Suc.prems refill_now [OF ok Suc.prems(2,3)]
    by (simp add: check_def Let_def take_token_def)
  have dec: "unat (tokens ?b2) = unat (tokens b) - 1" "bucket_of p ?b2"
  proof -
    have "0 < tokens b \<Longrightarrow> unat (tokens b - 1) = unat (tokens b) - 1" by (metis unat_minus_one word_gt_0)
    then show "unat (tokens ?b2) = unat (tokens b) - 1" "bucket_of p ?b2"
      using Suc.prems(2) by (auto simp: take_token_def bucket_of_def word_le_nat_alt word_gt_0)
  qed
  have "answers check k (replicate n (k, p, now)) (hm_put k ?b2 m) =
      map (\<lambda>i. i < unat (tokens ?b2)) [0..<n]"
    using Suc.prems(3) dec(2) by (intro Suc.IH) (simp_all add: hmap_simps take_token_def)
  then have "answers check k (replicate (Suc n) (k, p, now)) m =
      (0 < unat (tokens b)) # map (\<lambda>i. Suc i < unat (tokens b)) [0..<n]"
    by (simp add: c dec less_diff_conv word_gt_0 unat_gt_0)
  also have "\<dots> = map (\<lambda>i. i < unat (tokens b)) [0..<Suc n]"
    by (simp add: upt_conv_Cons map_Suc_upt [symmetric] del: upt_Suc)
  finally show ?case .
qed simp

lemma burst_of_fresh_key:
  assumes "policy_ok p" and "hm_get m k = None"
  shows "answers check k (replicate n (k, p, now)) m = map (\<lambda>i. i < unat (policy_limit p)) [0..<n]"
proof -
  let ?b = "\<lparr>tokens = policy_limit p, capacity = policy_limit p,
      refill_duration = from_secs (policy_window_seconds p), last_refill = now\<rparr>"
  let ?m = "hm_put k ?b m"
  have eq: "fst (check k p now ?m) = fst (check k p now m)"
    "hm_get (snd (check k p now ?m)) k = hm_get (snd (check k p now m)) k"
    using assms(2) by (simp_all add: check_def Let_def split_beta hmap_simps)
  have "answers check k ((k, p, now) # ops) ?m = answers check k ((k, p, now) # ops) m" for ops
    using eq limiter.answers_cong [OF eq(2), of ops] by (simp add: split_beta)
  then have "answers check k (replicate n (k, p, now)) m = answers check k (replicate n (k, p, now)) ?m"
    by (cases n) simp_all
  also have "\<dots> = map (\<lambda>i. i < unat (policy_limit p)) [0..<n]"
    using burst_from [OF assms(1), of ?m k ?b now n] by (simp add: hmap_simps bucket_of_def)
  finally show ?thesis .
qed

text \<open>A fresh key that sends any number of requests at one instant gets exactly its limit: the
  first \<open>limit\<close> requests pass and every later one is refused.\<close>

theorem burst_exact:
  assumes "policy_ok p" and "hm_get m k = None"
  shows "answers check k (replicate n (k, p, now)) m = map (\<lambda>i. i < unat (policy_limit p)) [0..<n]"
  using assms by (rule burst_of_fresh_key)

lemma burst_exact_witness:
  "answers check ''a'' (replicate 5 (''a'', PAYMENT_POLICY, 7)) hm_empty = [True, True, True, False, False]"
  using burst_exact [of PAYMENT_POLICY hm_empty "''a''" 5 7]
  by (simp add: policy_ok_def PAYMENT_POLICY_def hmap_simps upt_rec)


text \<open>C36: the periodic cleanup cannot be observed: for a bucket made under the policy of its key, the
  next check gives the same answer and leaves the same bucket whether or not a cleanup ran
  before it, because only buckets that would be refilled completely are dropped.\<close>

theorem cleanup_invisible:
  assumes "policy_ok p" and "hm_wf m" and "cleanup now m = Some m'" and "now \<le> t"
    and "case hm_get m k of None \<Rightarrow> True
         | Some b \<Rightarrow> refill_duration b = from_secs (policy_window_seconds p)"
  shows "fst (check k p t m') = fst (check k p t m)
    \<and> hm_get (snd (check k p t m')) k = hm_get (snd (check k p t m)) k"
proof (cases "hm_get m' k = hm_get m k")
  case True
  then show ?thesis
    using limiter.local_answer [of m' k m p t] limiter.local_view [of m' k m p t] by simp
next
  case False
  have m': "m' = hm_retain (\<lambda>_ b. now - last_refill b < refill_duration b * 2) m"
    using assms(3) by (simp add: cleanup_def split: if_splits)
  let ?d = "from_secs (policy_window_seconds p)"
  let ?b = "\<lparr>tokens = policy_limit p, capacity = policy_limit p, refill_duration = ?d, last_refill = t\<rparr>"
  from False obtain b where b: "hm_get m k = Some b" and none: "hm_get m' k = None"
    and old: "refill_duration b * 2 \<le> now - last_refill b"
    by (auto simp: m' hm_get_retain [OF assms(2)] split: option.splits if_splits)
  have d: "refill_duration b = ?d" using assms(5) b by simp
  have "refill t (b\<lparr>capacity := policy_limit p, refill_duration := ?d\<rparr>) = ?b"
  proof -
    have "?d \<le> t - last_refill b" using old assms(4) unfolding d by linarith
    then show ?thesis by (intro token_bucket.equality) (simp_all add: refill_def)
  qed
  moreover have "refill t ?b = ?b"
    by (rule refill_now [OF assms(1)]) (simp_all add: bucket_of_def)
  ultimately show ?thesis by (simp add: check_def Let_def b none split_beta hmap_simps)
qed

lemma cleanup_invisible_witness:
  "fst (check ''a'' PAYMENT_POLICY (10 ^ 13) hm_empty)
     = fst (check ''a'' PAYMENT_POLICY (10 ^ 13) (snd (check ''a'' PAYMENT_POLICY 0 hm_empty)))"
proof -
  let ?m = "snd (check ''a'' PAYMENT_POLICY 0 hm_empty)"
  have m: "?m = [(''a'', \<lparr>tokens = 2, capacity = 3, refill_duration = 3600 * 10 ^ 9, last_refill = 0\<rparr>)]"
    by (simp add: check_def Let_def hm_get_def hm_put_def hm_empty_def refill_def take_token_def
        PAYMENT_POLICY_def from_secs_def NANOS_PER_SEC_def)
  have "cleanup (10 ^ 13) ?m = Some hm_empty"
    unfolding m by (simp add: cleanup_def hm_entries_def hm_retain_def hm_empty_def NANOS_PER_SEC_def)
  from cleanup_invisible [OF _ _ this, of PAYMENT_POLICY "10 ^ 13" "''a''"] show ?thesis
    unfolding m by (simp add: policy_ok_def PAYMENT_POLICY_def hm_wf_def hm_get_def from_secs_def NANOS_PER_SEC_def)
qed

section \<open>Redis and the fallback\<close>

text \<open>The documented behaviour of \<open>INCR\<close> and \<open>EXPIRE\<close> on a key that does not expire meanwhile.\<close>

definition redis_laws :: "'r redis_ops \<Rightarrow> ('r \<Rightarrow> string \<Rightarrow> int) \<Rightarrow> bool" where
  "redis_laws ops count \<longleftrightarrow>
     (\<forall>r key. \<exists>r'. redis_incr ops r key = Some (r', count r key + 1)
        \<and> count r' = (count r)(key := count r key + 1))
   \<and> (\<forall>r key w. count (redis_expire ops r key w) = count r)"

fun redis_answers :: "'r redis_ops \<Rightarrow> string \<Rightarrow> rate_limit_policy \<Rightarrow> nat \<Rightarrow> 'r \<Rightarrow> bool list option" where
  "redis_answers ops key p 0 r = Some []"
| "redis_answers ops key p (Suc n) r =
     (case check_rate_limit ops r key p of
        None \<Rightarrow> None
      | Some (r', a) \<Rightarrow> map_option ((#) a) (redis_answers ops key p n r'))"

lemma check_rate_limit_counts:
  assumes "redis_laws ops count"
  shows "\<exists>r'. check_rate_limit ops r key p = Some (r', count r (''rate_limit:'' @ key) < uint (policy_limit p))
    \<and> count r' (''rate_limit:'' @ key) = count r (''rate_limit:'' @ key) + 1"
proof -
  let ?k = "''rate_limit:'' @ key"
  obtain r1 where "redis_incr ops r ?k = Some (r1, count r ?k + 1)" "count r1 = (count r)(?k := count r ?k + 1)"
    using assms unfolding redis_laws_def by blast
  moreover have "count (redis_expire ops r1 ?k w) = count r1" for w
    using assms unfolding redis_laws_def by blast
  ultimately show ?thesis
    by (auto simp: check_rate_limit_def redis_script_def Let_def)
qed

lemma redis_answers_count:
  assumes "redis_laws ops count" and "count r (''rate_limit:'' @ key) = int c"
  shows "redis_answers ops key p n r = Some (map (\<lambda>i. c + i < unat (policy_limit p)) [0..<n])"
  using assms(2)
proof (induction n arbitrary: r c)
  case (Suc n)
  from check_rate_limit_counts [OF assms(1), of r key p] obtain r' where
    r': "check_rate_limit ops r key p = Some (r', count r (''rate_limit:'' @ key) < uint (policy_limit p))"
      "count r' (''rate_limit:'' @ key) = int (Suc c)"
    using Suc.prems by auto
  have "int c < uint (policy_limit p) \<longleftrightarrow> c < unat (policy_limit p)"
    by (metis of_nat_less_iff uint_nat)
  then have "redis_answers ops key p (Suc n) r =
      Some ((c < unat (policy_limit p)) # map (\<lambda>i. Suc c + i < unat (policy_limit p)) [0..<n])"
    using r'(1) Suc.IH [OF r'(2)] Suc.prems by simp
  also have "\<dots> = Some (map (\<lambda>i. c + i < unat (policy_limit p)) [0..<Suc n])"
    by (simp add: upt_conv_Cons map_Suc_upt [symmetric] del: upt_Suc)
  finally show ?case .
qed simp

text \<open>On a burst of a fresh key, Redis and the in-memory fallback give the same answers.\<close>

theorem redis_agrees_with_fallback:
  assumes "redis_laws ops count" and "count r (''rate_limit:'' @ k) = 0"
    and "policy_ok p" and "hm_get m k = None"
  shows "redis_answers ops k p n r = Some (answers check k (replicate n (k, p, now)) m)"
  using redis_answers_count [OF assms(1), of r k 0 p n] assms(2) burst_of_fresh_key [OF assms(3,4)]
  by simp

definition demo_redis :: "(string \<Rightarrow> int) redis_ops" where
  "demo_redis = \<lparr>redis_incr = (\<lambda>r k. Some (r(k := r k + 1), r k + 1)), redis_expire = (\<lambda>r k w. r)\<rparr>"

lemma redis_agrees_with_fallback_witness:
  "redis_answers demo_redis ''a'' PAYMENT_POLICY 4 (\<lambda>_. 0)
     = Some (answers check ''a'' (replicate 4 (''a'', PAYMENT_POLICY, 7)) hm_empty)"
  by (rule redis_agrees_with_fallback [where count = "\<lambda>r. r"])
     (simp_all add: redis_laws_def demo_redis_def policy_ok_def PAYMENT_POLICY_def hmap_simps)

text \<open>When Redis answers, its answer is final and the buckets are not charged; when it is absent
  or fails, the fallback decides.\<close>

theorem fallback_decision:
  "check_with_fallback ops key p now (ro, m) =
     (case Option.bind ro (\<lambda>r. check_rate_limit ops r key p) of
        Some (r', allowed) \<Rightarrow> (allowed, Some r', m)
      | None \<Rightarrow> (fst (check key p now m), ro, snd (check key p now m)))"
  by (auto simp: check_with_fallback_def Let_def split_beta split: option.splits)

end
