(* ===== verification/Server_Limits.thy ===== *)
theory Server_Limits
  imports Rust_Text
begin

text \<open>
  The availability limits of the server (\<open>grpc/limits.rs\<close>): ten values with defaults, each
  overridable by an environment variable. \<open>lookup\<close> stands for the environment. An error is kept
  as the arguments of its message.
\<close>

definition DEFAULT_MAX_REQUEST_BODY_BYTES :: usize where
  "DEFAULT_MAX_REQUEST_BODY_BYTES = 256 * 1024"

definition DEFAULT_PREAUTH_LIMIT :: u32 where
  "DEFAULT_PREAUTH_LIMIT = 120"

definition DEFAULT_PREAUTH_WINDOW_SECONDS :: u64 where
  "DEFAULT_PREAUTH_WINDOW_SECONDS = 60"

definition DEFAULT_MAX_ACTIVE_STREAMS_GLOBAL :: usize where
  "DEFAULT_MAX_ACTIVE_STREAMS_GLOBAL = 256"

definition DEFAULT_MAX_ACTIVE_STREAMS_PER_CLIENT :: usize where
  "DEFAULT_MAX_ACTIVE_STREAMS_PER_CLIENT = 8"

definition DEFAULT_MAX_SUBSCRIBERS_GLOBAL :: usize where
  "DEFAULT_MAX_SUBSCRIBERS_GLOBAL = 512"

definition DEFAULT_MAX_SUBSCRIBERS_PER_TYPE :: usize where
  "DEFAULT_MAX_SUBSCRIBERS_PER_TYPE = 256"

definition DEFAULT_MAX_CONCURRENT_STREAMS :: u32 where
  "DEFAULT_MAX_CONCURRENT_STREAMS = 32"

definition DEFAULT_CONCURRENCY_LIMIT_PER_CONNECTION :: usize where
  "DEFAULT_CONCURRENCY_LIMIT_PER_CONNECTION = 16"

definition DEFAULT_LIMITS_SLOW_SUBSCRIBER_MAX_DROPS :: u64 where
  "DEFAULT_LIMITS_SLOW_SUBSCRIBER_MAX_DROPS = 64"

record limits =
  max_request_body_bytes :: usize
  preauth_limit :: u32
  preauth_window_seconds :: u64
  max_active_streams_global :: usize
  max_active_streams_per_client :: usize
  max_subscribers_global_limit :: usize
  max_subscribers_per_type_limit :: usize
  max_concurrent_streams :: u32
  concurrency_limit_per_connection :: usize
  slow_subscriber_max_drops_limit :: u64

definition default_limits :: limits where
  "default_limits = \<lparr>
     max_request_body_bytes = DEFAULT_MAX_REQUEST_BODY_BYTES,
     preauth_limit = DEFAULT_PREAUTH_LIMIT,
     preauth_window_seconds = DEFAULT_PREAUTH_WINDOW_SECONDS,
     max_active_streams_global = DEFAULT_MAX_ACTIVE_STREAMS_GLOBAL,
     max_active_streams_per_client = DEFAULT_MAX_ACTIVE_STREAMS_PER_CLIENT,
     max_subscribers_global_limit = DEFAULT_MAX_SUBSCRIBERS_GLOBAL,
     max_subscribers_per_type_limit = DEFAULT_MAX_SUBSCRIBERS_PER_TYPE,
     max_concurrent_streams = DEFAULT_MAX_CONCURRENT_STREAMS,
     concurrency_limit_per_connection = DEFAULT_CONCURRENCY_LIMIT_PER_CONNECTION,
     slow_subscriber_max_drops_limit = DEFAULT_LIMITS_SLOW_SUBSCRIBER_MAX_DROPS\<rparr>"

datatype limit_error =
    Not_A_Positive_Integer string string  \<comment> \<open>the variable and its value\<close>
  | Must_Be_Greater_Than_Zero string

text \<open>\<open>parse_usize\<close>, \<open>parse_u32\<close> and \<open>parse_u64\<close> are the same function at three widths.\<close>

definition parse_limit ::
  "(string \<Rightarrow> string option) \<Rightarrow> string \<Rightarrow> 'a::len word \<Rightarrow> limit_error + 'a word" where
  "parse_limit lookup name dflt =
     (case lookup name of
        None \<Rightarrow> Inr dflt
      | Some value \<Rightarrow>
          (case parse_uint value of
             None \<Rightarrow> Inl (Not_A_Positive_Integer name value)
           | Some parsed \<Rightarrow>
               if parsed = 0 then Inl (Must_Be_Greater_Than_Zero name) else Inr parsed))"

definition parse_usize :: "(string \<Rightarrow> string option) \<Rightarrow> string \<Rightarrow> usize \<Rightarrow> limit_error + usize" where
  "parse_usize = parse_limit"

definition parse_u32 :: "(string \<Rightarrow> string option) \<Rightarrow> string \<Rightarrow> u32 \<Rightarrow> limit_error + u32" where
  "parse_u32 = parse_limit"

definition parse_u64 :: "(string \<Rightarrow> string option) \<Rightarrow> string \<Rightarrow> u64 \<Rightarrow> limit_error + u64" where
  "parse_u64 = parse_limit"

definition from_lookup :: "(string \<Rightarrow> string option) \<Rightarrow> limit_error + limits" where
  "from_lookup lookup =
     and_then (parse_usize lookup ''GCOB_MAX_REQUEST_BODY_BYTES'' DEFAULT_MAX_REQUEST_BODY_BYTES) (\<lambda>v1.
     and_then (parse_u32 lookup ''GCOB_PREAUTH_LIMIT'' DEFAULT_PREAUTH_LIMIT) (\<lambda>v2.
     and_then (parse_u64 lookup ''GCOB_PREAUTH_WINDOW_SECONDS'' DEFAULT_PREAUTH_WINDOW_SECONDS) (\<lambda>v3.
     and_then (parse_usize lookup ''GCOB_MAX_ACTIVE_STREAMS_GLOBAL''
       DEFAULT_MAX_ACTIVE_STREAMS_GLOBAL) (\<lambda>v4.
     and_then (parse_usize lookup ''GCOB_MAX_ACTIVE_STREAMS_PER_CLIENT''
       DEFAULT_MAX_ACTIVE_STREAMS_PER_CLIENT) (\<lambda>v5.
     and_then (parse_usize lookup ''GCOB_MAX_SUBSCRIBERS_GLOBAL'' DEFAULT_MAX_SUBSCRIBERS_GLOBAL) (\<lambda>v6.
     and_then (parse_usize lookup ''GCOB_MAX_SUBSCRIBERS_PER_TYPE''
       DEFAULT_MAX_SUBSCRIBERS_PER_TYPE) (\<lambda>v7.
     and_then (parse_u32 lookup ''GCOB_MAX_CONCURRENT_STREAMS'' DEFAULT_MAX_CONCURRENT_STREAMS) (\<lambda>v8.
     and_then (parse_usize lookup ''GCOB_CONCURRENCY_LIMIT_PER_CONNECTION''
       DEFAULT_CONCURRENCY_LIMIT_PER_CONNECTION) (\<lambda>v9.
     and_then (parse_u64 lookup ''GCOB_SLOW_SUBSCRIBER_MAX_DROPS''
       DEFAULT_LIMITS_SLOW_SUBSCRIBER_MAX_DROPS) (\<lambda>v10.
     Inr \<lparr>max_request_body_bytes = v1, preauth_limit = v2, preauth_window_seconds = v3,
          max_active_streams_global = v4, max_active_streams_per_client = v5,
          max_subscribers_global_limit = v6, max_subscribers_per_type_limit = v7,
          max_concurrent_streams = v8, concurrency_limit_per_connection = v9,
          slow_subscriber_max_drops_limit = v10\<rparr>))))))))))"

definition from_env :: "(string \<Rightarrow> string option) \<Rightarrow> limit_error + limits" where
  "from_env env = from_lookup env"

section \<open>Parsing one limit\<close>

text \<open>The value an environment gives a limit, when it gives one.\<close>

definition limit_value :: "string option \<Rightarrow> 'a::len word \<Rightarrow> 'a word option" where
  "limit_value v dflt = (case v of
     None \<Rightarrow> Some dflt
   | Some s \<Rightarrow> Option.bind (parse_uint s) (\<lambda>w. if w = 0 then None else Some w))"

lemmas parse_defs = parse_usize_def parse_u32_def parse_u64_def

lemma parse_limit_Inr: "parse_limit lookup name d = Inr w \<longleftrightarrow> limit_value (lookup name) d = Some w"
  by (auto simp: parse_limit_def limit_value_def split: option.splits)

lemma parse_limit_Inl:
  "parse_limit lookup name (d :: 'a::len word) = Inl e \<longleftrightarrow>
     (\<exists>v. lookup name = Some v \<and>
        (if (parse_uint v :: 'a word option) = None then e = Not_A_Positive_Integer name v
         else parse_uint v = Some (0 :: 'a word) \<and> e = Must_Be_Greater_Than_Zero name))"
  by (auto simp: parse_limit_def split: option.splits)

lemma limit_value_nonzero: "limit_value v d = Some w \<Longrightarrow> d \<noteq> 0 \<Longrightarrow> w \<noteq> 0"
  by (auto simp: limit_value_def split: option.splits bind_splits if_splits)

lemma limit_value_fmt: "w \<noteq> 0 \<Longrightarrow> limit_value (Some (fmt_word w)) d = Some w"
  by (simp add: limit_value_def parse_fmt_word)

lemma parse_limit_blames:
  assumes "parse_limit env n d = Inl e" and "n \<in> N"
  shows "\<exists>name value. env name = Some value \<and> name \<in> N
    \<and> (e = Not_A_Positive_Integer name value \<or> e = Must_Be_Greater_Than_Zero name)"
  using assms by (auto simp: parse_limit_def split: option.splits if_splits)

section \<open>Properties\<close>

definition all_positive :: "limits \<Rightarrow> bool" where
  "all_positive l \<longleftrightarrow> max_request_body_bytes l \<noteq> 0 \<and> preauth_limit l \<noteq> 0
     \<and> preauth_window_seconds l \<noteq> 0 \<and> max_active_streams_global l \<noteq> 0
     \<and> max_active_streams_per_client l \<noteq> 0 \<and> max_subscribers_global_limit l \<noteq> 0
     \<and> max_subscribers_per_type_limit l \<noteq> 0 \<and> max_concurrent_streams l \<noteq> 0
     \<and> concurrency_limit_per_connection l \<noteq> 0 \<and> slow_subscriber_max_drops_limit l \<noteq> 0"

text \<open>The field of each variable.\<close>

definition agrees_with :: "(string \<Rightarrow> string option) \<Rightarrow> limits \<Rightarrow> bool" where
  "agrees_with env l \<longleftrightarrow>
     limit_value (env ''GCOB_MAX_REQUEST_BODY_BYTES'') (max_request_body_bytes default_limits)
       = Some (max_request_body_bytes l)
   \<and> limit_value (env ''GCOB_PREAUTH_LIMIT'') (preauth_limit default_limits) = Some (preauth_limit l)
   \<and> limit_value (env ''GCOB_PREAUTH_WINDOW_SECONDS'') (preauth_window_seconds default_limits)
       = Some (preauth_window_seconds l)
   \<and> limit_value (env ''GCOB_MAX_ACTIVE_STREAMS_GLOBAL'') (max_active_streams_global default_limits)
       = Some (max_active_streams_global l)
   \<and> limit_value (env ''GCOB_MAX_ACTIVE_STREAMS_PER_CLIENT'')
       (max_active_streams_per_client default_limits) = Some (max_active_streams_per_client l)
   \<and> limit_value (env ''GCOB_MAX_SUBSCRIBERS_GLOBAL'') (max_subscribers_global_limit default_limits)
       = Some (max_subscribers_global_limit l)
   \<and> limit_value (env ''GCOB_MAX_SUBSCRIBERS_PER_TYPE'')
       (max_subscribers_per_type_limit default_limits) = Some (max_subscribers_per_type_limit l)
   \<and> limit_value (env ''GCOB_MAX_CONCURRENT_STREAMS'') (max_concurrent_streams default_limits)
       = Some (max_concurrent_streams l)
   \<and> limit_value (env ''GCOB_CONCURRENCY_LIMIT_PER_CONNECTION'')
       (concurrency_limit_per_connection default_limits) = Some (concurrency_limit_per_connection l)
   \<and> limit_value (env ''GCOB_SLOW_SUBSCRIBER_MAX_DROPS'')
       (slow_subscriber_max_drops_limit default_limits) = Some (slow_subscriber_max_drops_limit l)"

lemma from_lookup_Inr: "from_lookup env = Inr l \<longleftrightarrow> agrees_with env l"
  by (cases l) (simp add: from_lookup_def agrees_with_def default_limits_def parse_defs
      result_simps parse_limit_Inr)

lemma default_limits_positive: "all_positive default_limits"
  by (simp add: all_positive_def default_limits_def DEFAULT_MAX_REQUEST_BODY_BYTES_def
      DEFAULT_PREAUTH_LIMIT_def DEFAULT_PREAUTH_WINDOW_SECONDS_def
      DEFAULT_MAX_ACTIVE_STREAMS_GLOBAL_def DEFAULT_MAX_ACTIVE_STREAMS_PER_CLIENT_def
      DEFAULT_MAX_SUBSCRIBERS_GLOBAL_def DEFAULT_MAX_SUBSCRIBERS_PER_TYPE_def
      DEFAULT_MAX_CONCURRENT_STREAMS_def DEFAULT_CONCURRENCY_LIMIT_PER_CONNECTION_def
      DEFAULT_LIMITS_SLOW_SUBSCRIBER_MAX_DROPS_def)

text \<open>The environment that spells out given limits.\<close>

definition spelled_out :: "limits \<Rightarrow> (string \<times> string) list" where
  "spelled_out l =
     [(''GCOB_MAX_REQUEST_BODY_BYTES'', fmt_word (max_request_body_bytes l)),
      (''GCOB_PREAUTH_LIMIT'', fmt_word (preauth_limit l)),
      (''GCOB_PREAUTH_WINDOW_SECONDS'', fmt_word (preauth_window_seconds l)),
      (''GCOB_MAX_ACTIVE_STREAMS_GLOBAL'', fmt_word (max_active_streams_global l)),
      (''GCOB_MAX_ACTIVE_STREAMS_PER_CLIENT'', fmt_word (max_active_streams_per_client l)),
      (''GCOB_MAX_SUBSCRIBERS_GLOBAL'', fmt_word (max_subscribers_global_limit l)),
      (''GCOB_MAX_SUBSCRIBERS_PER_TYPE'', fmt_word (max_subscribers_per_type_limit l)),
      (''GCOB_MAX_CONCURRENT_STREAMS'', fmt_word (max_concurrent_streams l)),
      (''GCOB_CONCURRENCY_LIMIT_PER_CONNECTION'', fmt_word (concurrency_limit_per_connection l)),
      (''GCOB_SLOW_SUBSCRIBER_MAX_DROPS'', fmt_word (slow_subscriber_max_drops_limit l))]"

text \<open>Limits that load are strictly positive in every field, so no variable can switch a
  control off, and each field is the value of its variable, or the default where the variable
  is unset; an empty environment gives the defaults.\<close>

theorem limits_load:
  assumes "from_env env = Inr l"
  shows "all_positive l \<and> agrees_with env l \<and> from_env (\<lambda>_. None) = Inr default_limits"
proof -
  have a: "agrees_with env l" using assms by (simp add: from_env_def from_lookup_Inr)
  have "all_positive l"
    using a default_limits_positive
    by (auto simp: agrees_with_def all_positive_def dest: limit_value_nonzero)
  moreover have "agrees_with (\<lambda>_. None) default_limits"
    by (simp add: agrees_with_def limit_value_def)
  ultimately show ?thesis using a by (simp add: from_env_def from_lookup_Inr)
qed

lemma limits_load_witness:
  "\<exists>l. from_env (map_of [(''GCOB_PREAUTH_LIMIT'', ''7'')]) = Inr l \<and> all_positive l"
proof -
  have "\<exists>l. from_env (map_of [(''GCOB_PREAUTH_LIMIT'', ''7'')]) = Inr l"
    by (simp add: from_env_def from_lookup_def parse_defs parse_limit_def parse_uint_def
        parse_below_def digit_val_def is_digit_def)
  then show ?thesis using limits_load by blast
qed

text \<open>Loading fails only because of a variable that is set, and the error names it: the value
  is no unsigned integer of the field's width, or it is zero.\<close>

theorem limits_reject:
  assumes "from_env env = Inl e"
  shows "\<exists>name value. env name = Some value \<and> name \<in> fst ` set (spelled_out default_limits)
    \<and> (e = Not_A_Positive_Integer name value \<or> e = Must_Be_Greater_Than_Zero name)"
  using assms unfolding from_env_def from_lookup_def parse_defs
  by (elim and_then_InlE) (erule parse_limit_blames, simp add: spelled_out_def, simp?)+

lemma limits_reject_witness:
  "\<exists>name value. map_of [(''GCOB_PREAUTH_LIMIT'', ''0'')] name = Some value
    \<and> name \<in> fst ` set (spelled_out default_limits)
    \<and> (Must_Be_Greater_Than_Zero ''GCOB_PREAUTH_LIMIT'' = Not_A_Positive_Integer name value
       \<or> Must_Be_Greater_Than_Zero ''GCOB_PREAUTH_LIMIT'' = Must_Be_Greater_Than_Zero name)"
proof -
  have "from_env (map_of [(''GCOB_PREAUTH_LIMIT'', ''0'')])
      = Inl (Must_Be_Greater_Than_Zero ''GCOB_PREAUTH_LIMIT'')"
    by (simp add: from_env_def from_lookup_def parse_defs parse_limit_def parse_uint_def
        parse_below_def digit_val_def is_digit_def)
  from limits_reject [OF this] show ?thesis .
qed

text \<open>C37: any positive limits can be configured: the environment that spells them out in decimal
  loads as exactly these limits.\<close>

theorem limits_roundtrip:
  assumes "all_positive l"
  shows "from_env (map_of (spelled_out l)) = Inr l"
  using assms
  by (simp add: from_env_def from_lookup_Inr agrees_with_def spelled_out_def limit_value_fmt
      all_positive_def)

lemma limits_roundtrip_witness: "from_env (map_of (spelled_out default_limits)) = Inr default_limits"
  using limits_roundtrip [OF default_limits_positive] .

end
