(* ===== verification/Grpc_Layers.thy ===== *)
theory Grpc_Layers
  imports Cln_Api Limiter_Bounds Server_Limits
begin

text \<open>
  The tower layers in front of the service (\<open>grpc/interceptors/\<close>): certificate identity, admission
  budget, rune authorisation and per-method rate limit, composed as in \<open>grpc/server.rs\<close>. A service
  takes a request and the world and returns a reply and the new world. The hash and hex functions,
  the header decoding of the \<open>http\<close> crate, the prost decoders, Redis and the node's \<open>check_rune\<close>
  are fields of the environment.
\<close>

section \<open>Requests\<close>

record client_identity =
  fingerprint_sha256 :: string
  claimed_client_id :: "string option"

definition client_identity_new :: "string \<Rightarrow> client_identity" where
  "client_identity_new f = \<lparr>fingerprint_sha256 = f, claimed_client_id = None\<rparr>"

text \<open>\<open>TlsConnectInfo<TcpConnectInfo>\<close>: the peer's certificate chain, when it presented one, and the
  remote address of the connection.\<close>

record tls_info =
  tls_peer_certs :: "bytes list option"
  tls_remote_addr :: "string option"

datatype body_frame = Data_Frame bytes | Other_Frame | Frame_Error

record http_request =
  req_path :: string
  req_headers :: "(string \<times> bytes) list"
  req_identity :: "client_identity option"
  req_tls :: "tls_info option"
  req_tcp :: "string option option"
  req_body :: "body_frame list"

datatype 'resp reply = Rejected status | Served 'resp

section \<open>World and environment\<close>

text \<open>The shared state of the layers: Redis if it was reachable at start, the fallback buckets, the
  number of clock readings so far, the \<open>check_rune\<close> requests sent to the node so far, and the
  rest of the world.\<close>

record ('r, 's) world =
  w_redis :: "'r option"
  w_fallback :: limiter
  w_ticks :: nat
  w_runes :: "checkrune_request list"
  w_rest :: 's

record ('r, 's) environment =
  env_redis :: "'r redis_ops"
  env_clock :: "nat \<Rightarrow> nat"
  env_sha256 :: "bytes \<Rightarrow> bytes"
  env_hex :: "bytes \<Rightarrow> string"
  env_to_str :: "bytes \<Rightarrow> string option"
  env_decode_invoice :: "bytes \<Rightarrow> invoice_request option"
  env_decode_xpay :: "bytes \<Rightarrow> xpay_request option"
  env_check_rune :: "'s \<Rightarrow> checkrune_request \<Rightarrow> bool option \<times> 's"
  env_node_id :: string

type_synonym ('r, 's, 'resp) service =
  "http_request \<Rightarrow> ('r, 's) world \<Rightarrow> 'resp reply \<times> ('r, 's) world"

definition limited ::
  "('r, 's) environment \<Rightarrow> string \<Rightarrow> rate_limit_policy \<Rightarrow> ('r, 's) world \<Rightarrow> bool \<times> ('r, 's) world" where
  "limited env key p w =
     (case check_with_fallback (env_redis env) key p (env_clock env (w_ticks w)) (w_redis w, w_fallback w) of
        (allowed, redis', fallback') \<Rightarrow>
          (allowed, w\<lparr>w_redis := redis', w_fallback := fallback', w_ticks := Suc (w_ticks w)\<rparr>))"

section \<open>Identity\<close>

definition RUNE_HEADER :: string where
  "RUNE_HEADER = ''x-rune''"

definition CLIENT_ID_HEADER :: string where
  "CLIENT_ID_HEADER = ''x-client-id''"

definition header_values :: "string \<Rightarrow> http_request \<Rightarrow> bytes list" where
  "header_values name req = map snd (filter (\<lambda>(n, _). n = name) (req_headers req))"

definition fingerprint_from_der :: "('r, 's) environment \<Rightarrow> bytes \<Rightarrow> string" where
  "fingerprint_from_der env der = env_hex env (env_sha256 env der)"

definition identity_from_extensions ::
  "('r, 's) environment \<Rightarrow> http_request \<Rightarrow> client_identity option" where
  "identity_from_extensions env req =
     (case req_identity req of
        Some i \<Rightarrow> Some i
      | None \<Rightarrow>
          (case req_tls req of
             None \<Rightarrow> None
           | Some info \<Rightarrow>
               (case tls_peer_certs info of
                  None \<Rightarrow> None
                | Some [] \<Rightarrow> None
                | Some (leaf # _) \<Rightarrow>
                    Some \<lparr>fingerprint_sha256 = fingerprint_from_der env leaf, claimed_client_id = None\<rparr>)))"

text \<open>Used by the log lines of the layers only.\<close>

definition remote_addr_from_extensions :: "http_request \<Rightarrow> string option" where
  "remote_addr_from_extensions req =
     (case req_tcp req of
        Some addr \<Rightarrow> addr
      | None \<Rightarrow> (case req_tls req of None \<Rightarrow> None | Some info \<Rightarrow> tls_remote_addr info))"

definition identity_call ::
  "('r, 's) environment \<Rightarrow> ('r, 's, 'resp) service \<Rightarrow> ('r, 's, 'resp) service" where
  "identity_call env inner req w =
     (case identity_from_extensions env req of
        None \<Rightarrow> (Rejected (unauthenticated ''Client certificate required''), w)
      | Some identity \<Rightarrow>
          (let identity' =
             (if claimed_client_id identity = None
              then identity\<lparr>claimed_client_id :=
                (case header_values CLIENT_ID_HEADER req of
                   [] \<Rightarrow> None
                 | v # _ \<Rightarrow> (case env_to_str env v of
                     None \<Rightarrow> None
                   | Some s \<Rightarrow> if s = '''' then None else Some s))\<rparr>
              else identity)
           in inner (req\<lparr>req_identity := Some identity'\<rparr>) w))"

section \<open>Admission\<close>

definition admission_policy :: "limits \<Rightarrow> rate_limit_policy" where
  "admission_policy l = \<lparr>policy_limit = preauth_limit l, policy_window_seconds = preauth_window_seconds l\<rparr>"

definition admission_call ::
  "('r, 's) environment \<Rightarrow> rate_limit_policy \<Rightarrow> ('r, 's, 'resp) service \<Rightarrow> ('r, 's, 'resp) service" where
  "admission_call env policy inner req w =
     (case req_identity req of
        None \<Rightarrow> (Rejected (unauthenticated ''Client certificate required''), w)
      | Some identity \<Rightarrow>
          (let key = ''admit:'' @ fingerprint_sha256 identity;
               (allowed, w1) = limited env key policy w
           in if allowed then inner req w1
              else (Rejected (resource_exhausted ''Too many requests; retry later''), w1)))"

section \<open>Authorisation\<close>

definition MAX_RUNE_LEN :: nat where
  "MAX_RUNE_LEN = 4096"

definition rune_char :: "char \<Rightarrow> bool" where
  "rune_char b \<longleftrightarrow> is_alnum b \<or> b \<in> set ''-_=/+&|,.:''"

definition is_valid_rune_charset :: "string \<Rightarrow> bool" where
  "is_valid_rune_charset rune \<longleftrightarrow> rune \<noteq> [] \<and> list_all rune_char rune"

definition rune_method_for_path :: "string \<Rightarrow> string option" where
  "rune_method_for_path = map_of
     [(''/cln.NodeServices/Invoice'', ''invoice''),
      (''/cln.NodeServices/Getinfo'', ''getinfo''),
      (''/cln.NodeServices/Xpay'', ''xpay''),
      (''/cln.NodeServices/InvoiceStream'', ''invoice''),
      (''/cln.NodeServices/XpayStreamWatch'', ''xpay''),
      (''/cln.NodeServices/XpayStream'', ''xpay_stream''),
      (''/cln.NodeServices/InvoiceWatch'', ''invoice_watch''),
      (''/cln.NodeServices/WatchChannels'', ''watch_channels''),
      (''/cln.NodeServices/WatchPeers'', ''watch_peers''),
      (''/cln.NodeServices/WatchSystem'', ''watch_system'')]"

definition extract_params_for_path :: "('r, 's) environment \<Rightarrow> string \<Rightarrow> bytes \<Rightarrow> string list" where
  "extract_params_for_path env path body =
     (if path = ''/cln.NodeServices/Invoice'' then
        (let req = (case env_decode_invoice env body of Some r \<Rightarrow> r | None \<Rightarrow> default_invoice_request);
             amount = (case Option.bind (ir_amount_msat req) id of
                 Some (Amount m) \<Rightarrow> fmt_word m
               | Some (Any _) \<Rightarrow> ''any''
               | None \<Rightarrow> '''')
         in [amount, ir_label req, ir_description req])
      else if path = ''/cln.NodeServices/Xpay'' then
        (let req = (case env_decode_xpay env body of Some r \<Rightarrow> r | None \<Rightarrow> default_xpay_request);
             amount = (case xr_amount_msat req of Some m \<Rightarrow> fmt_word m | None \<Rightarrow> '''')
         in [xr_invstring req, amount])
      else [])"

text \<open>The body is read frame by frame; the limit is checked before a frame is appended. Frames
  that carry no data are skipped.\<close>

fun read_body :: "usize \<Rightarrow> bytes \<Rightarrow> body_frame list \<Rightarrow> status + bytes" where
  "read_body max_bytes buf [] = Inr buf"
| "read_body max_bytes buf (Data_Frame data # fs) =
     (if unat max_bytes < length buf + length data
      then Inl (resource_exhausted (''Request body exceeds the '' @ fmt_word max_bytes @ '' byte limit''))
      else read_body max_bytes (buf @ data) fs)"
| "read_body max_bytes buf (Other_Frame # fs) = read_body max_bytes buf fs"
| "read_body max_bytes buf (Frame_Error # fs) = Inl (internal_error ''Failed to read request body'')"

definition read_body_limited :: "body_frame list \<Rightarrow> usize \<Rightarrow> status + bytes" where
  "read_body_limited body max_bytes = read_body max_bytes [] body"

definition build_checkrune_request :: "string \<Rightarrow> string \<Rightarrow> string \<Rightarrow> string list \<Rightarrow> checkrune_request" where
  "build_checkrune_request node_id rune meth params =
     \<lparr>cr_rune = rune, cr_nodeid = Some node_id, cr_method = Some meth, cr_params = params\<rparr>"

definition validate_rune ::
  "('r, 's) environment \<Rightarrow> string \<Rightarrow> string \<Rightarrow> string list \<Rightarrow> ('r, 's) world
     \<Rightarrow> (status + unit) \<times> ('r, 's) world" where
  "validate_rune env rune meth params w =
     (let creq = build_checkrune_request (env_node_id env) rune meth params;
          (answer, rest') = env_check_rune env (w_rest w) creq;
          w1 = w\<lparr>w_runes := w_runes w @ [creq], w_rest := rest'\<rparr>
      in case answer of
           None \<Rightarrow> (Inl (unauthenticated ''Rune validation failed''), w1)
         | Some valid \<Rightarrow>
             if valid then (Inr (), w1) else (Inl (unauthenticated ''Invalid rune''), w1))"

text \<open>The rune of a request: exactly one header, decodable, of an acceptable length and alphabet.\<close>

definition rune_of :: "('r, 's) environment \<Rightarrow> http_request \<Rightarrow> status + string" where
  "rune_of env req =
     (case header_values RUNE_HEADER req of
        _ # _ # _ \<Rightarrow> Inl (unauthenticated ''Multiple Rune headers are not allowed'')
      | [v] \<Rightarrow>
          (case env_to_str env v of
             None \<Rightarrow> Inl (unauthenticated ''Invalid Rune header'')
           | Some value \<Rightarrow>
               if value \<noteq> [] \<and> length value \<le> MAX_RUNE_LEN \<and> is_valid_rune_charset value
               then Inr value else Inl (unauthenticated ''Invalid Rune header''))
      | [] \<Rightarrow> Inl (unauthenticated (''Missing or empty Rune header '' @ [CHR 0x27] @ RUNE_HEADER @
                [CHR 0x27] @ ''. Provide a valid Rune for authentication.'')))"

text \<open>\<open>Full::new(bytes)\<close> is a body of one frame, or of none when there are no bytes.\<close>

definition full_body :: "bytes \<Rightarrow> body_frame list" where
  "full_body b = (if b = [] then [] else [Data_Frame b])"

definition auth_call ::
  "('r, 's) environment \<Rightarrow> usize \<Rightarrow> ('r, 's, 'resp) service \<Rightarrow> ('r, 's, 'resp) service" where
  "auth_call env max_body_bytes inner req w =
     (case rune_of env req of
        Inl e \<Rightarrow> (Rejected e, w)
      | Inr rune \<Rightarrow>
          (case rune_method_for_path (req_path req) of
             None \<Rightarrow> (Rejected (unauthenticated (''Unknown gRPC path: '' @ req_path req)), w)
           | Some meth \<Rightarrow>
               (case read_body_limited (req_body req) max_body_bytes of
                  Inl e \<Rightarrow> (Rejected e, w)
                | Inr body \<Rightarrow>
                    (let params = extract_params_for_path env (req_path req) body in
                     case validate_rune env rune meth params w of
                       (Inl e, w1) \<Rightarrow> (Rejected e, w1)
                     | (Inr _, w1) \<Rightarrow> inner (req\<lparr>req_body := full_body body\<rparr>) w1))))"

section \<open>Rate limit per method\<close>

definition rate_limit_call ::
  "('r, 's) environment \<Rightarrow> ('r, 's, 'resp) service \<Rightarrow> ('r, 's, 'resp) service" where
  "rate_limit_call env inner req w =
     (case rune_method_for_path (req_path req) of
        None \<Rightarrow> inner req w
      | Some meth \<Rightarrow>
          (case policy_for_method meth of
             None \<Rightarrow> inner req w
           | Some policy \<Rightarrow>
               (case req_identity req of
                  None \<Rightarrow> (Rejected (unauthenticated ''Client certificate required''), w)
                | Some identity \<Rightarrow>
                    (let key = meth @ '':'' @ fingerprint_sha256 identity;
                         (allowed, w1) = limited env key policy w
                     in if allowed then inner req w1
                        else (Rejected (resource_exhausted (''Rate limit exceeded for '' @ [CHR 0x27] @
                               meth @ [CHR 0x27] @ '' ('' @ fmt_word (policy_limit policy) @ '' per '' @
                               fmt_word (policy_window_seconds policy) @ ''s)'')), w1)))))"

section \<open>The stack\<close>

text \<open>The first layer added is the outermost one.\<close>

definition server_stack ::
  "('r, 's) environment \<Rightarrow> limits \<Rightarrow> ('r, 's, 'resp) service \<Rightarrow> ('r, 's, 'resp) service" where
  "server_stack env l service =
     identity_call env (admission_call env (admission_policy l)
       (auth_call env (max_request_body_bytes l) (rate_limit_call env service)))"

end
