(* ===== verification/Gate_Budget.thy ===== *)
theory Gate_Budget
  imports Grpc_Properties
begin

text \<open>
  Properties that span the layers: what \<open>check_rune\<close> is told about a framed gRPC body, and how the
  admission budget of \<open>Rate_Limiter\<close> bounds the \<open>check_rune\<close> calls a certificate can cause.
\<close>

section \<open>Parameters of a framed body\<close>

text \<open>C2: a gRPC request body is a frame: a flag byte that is 0 for an uncompressed message, four
  length bytes, the message. The layer decodes the whole body, frame header included, and a
  protobuf message never starts with a 0 byte (field numbers start at 1), so decoding fails and the
  code falls back to the default message: an \<open>Invoice\<close> call is authorised for three empty
  parameters and an \<open>Xpay\<close> call for two, whatever the request says.\<close>

theorem framed_params_are_blank:
  assumes "\<forall>rest. env_decode_invoice env (0 # rest) = None"
    and "\<forall>rest. env_decode_xpay env (0 # rest) = None"
    and "server_stack env l probe req w = (Served req', w')"
    and "data_of (req_body req) = 0 # rest"
    and "path = ''/cln.NodeServices/Invoice'' \<and> meth = ''invoice'' \<and> blanks = ['''', '''', '''']
       \<or> path = ''/cln.NodeServices/Xpay'' \<and> meth = ''xpay'' \<and> blanks = ['''', '''']"
    and "req_path req = path"
  shows "\<exists>rune. rune_of env req = Inr rune
    \<and> w_runes w' = w_runes w @ [build_checkrune_request (env_node_id env) rune meth blanks]"
proof -
  from reached_calls_node [OF assms(3)] obtain rune m where
    "rune_of env req = Inr rune" "rune_method_for_path (req_path req) = Some m"
    "w_runes w' = w_runes w @ [build_checkrune_request (env_node_id env) rune m
       (extract_params_for_path env (req_path req) (data_of (req_body req)))]"
    by blast
  then show ?thesis using assms(1,2,4-6)
    by (auto simp: extract_params_for_path_def rune_method_for_path_def default_invoice_request_def
        default_xpay_request_def)
qed

lemma framed_params_are_blank_witness:
  "\<exists>rune. w_runes (snd (server_stack demo_env default_limits probe
       (demo_request ''/cln.NodeServices/Invoice'' [0, 0, 0, 0, 2, 10, 0]) demo_world)) =
     [build_checkrune_request ''02aa'' rune ''invoice'' ['''', '''', '''']]"
proof -
  let ?req = "demo_request ''/cln.NodeServices/Invoice'' [0, 0, 0, 0, 2, 10, 0]"
  obtain r w where *: "server_stack demo_env default_limits probe ?req demo_world = (Served r, w)"
    by (simp add: demo_defs Let_def is_alnum_def is_lower_def)
  have "\<exists>rune. rune_of demo_env ?req = Inr rune \<and> w_runes w = w_runes demo_world @
      [build_checkrune_request (env_node_id demo_env) rune ''invoice'' ['''', '''', '''']]"
    by (rule framed_params_are_blank [OF _ _ *, where path = "''/cln.NodeServices/Invoice''"])
      (auto simp: demo_env_def demo_request_def)
  then have "\<exists>rune. w_runes w = [build_checkrune_request ''02aa'' rune ''invoice'' ['''', '''', '''']]"
    by (auto simp: demo_env_def demo_world_def)
  then show ?thesis by (simp add: *)
qed

section \<open>The charges of a request\<close>

text \<open>Without Redis the world moves from \<open>w\<close> to \<open>w'\<close> by the charges \<open>ops\<close> to the fallback buckets, each
  stamped with its reading of the clock.\<close>

definition run_checks :: "(string \<times> rate_limit_policy \<times> nat) list \<Rightarrow> limiter \<Rightarrow> limiter" where
  "run_checks ops m = fold (\<lambda>(k, p, t) m. snd (check k p t m)) ops m"

lemma answers_append:
  "answers check k (xs @ ys) m = answers check k xs m @ answers check k ys (run_checks xs m)"
  by (induction xs arbitrary: m) (auto simp: run_checks_def split: prod.split)

lemma granted_append: "granted (xs @ ys) = granted xs + granted ys"
  by (simp add: granted_def)

definition ran :: "('r, 's) environment \<Rightarrow> (string \<times> rate_limit_policy \<times> nat) list
    \<Rightarrow> ('r, 's) world \<Rightarrow> ('r, 's) world \<Rightarrow> bool" where
  "ran env ops w w' \<longleftrightarrow> w_redis w = None \<and> w_redis w' = None
     \<and> w_fallback w' = run_checks ops (w_fallback w) \<and> w_ticks w \<le> w_ticks w'
     \<and> map (\<lambda>(_, _, t). t) ops = map (env_clock env) [w_ticks w ..< w_ticks w']"

lemma ran_trans:
  assumes "ran env xs w w1" and "ran env ys w1 w2"
  shows "ran env (xs @ ys) w w2"
proof -
  have "[w_ticks w ..< w_ticks w2] = [w_ticks w ..< w_ticks w1] @ [w_ticks w1 ..< w_ticks w2]"
    using assms upt_add_eq_append [of "w_ticks w" "w_ticks w1" "w_ticks w2 - w_ticks w1"]
    by (simp add: ran_def)
  then show ?thesis using assms by (simp add: ran_def run_checks_def)
qed

lemma ran_limited:
  assumes "limited env key p w = (a, w1)" and "w_redis w = None"
  shows "ran env [(key, p, env_clock env (w_ticks w))] w w1"
    and "a = fst (check key p (env_clock env (w_ticks w)) (w_fallback w))"
    and "w_runes w1 = w_runes w" and "w_redis w1 = None"
  using assms by (auto simp: limited_def check_with_fallback_def ran_def run_checks_def split: prod.splits)

text \<open>A service that leaves the limiter and the clock alone and makes no \<open>check_rune\<close> call.\<close>

definition quiet :: "('r, 's, 'resp) service \<Rightarrow> bool" where
  "quiet s \<longleftrightarrow> (\<forall>req w. w_redis (snd (s req w)) = w_redis w \<and> w_fallback (snd (s req w)) = w_fallback w
     \<and> w_ticks (snd (s req w)) = w_ticks w \<and> w_runes (snd (s req w)) = w_runes w)"

definition admit_key :: "string \<Rightarrow> string" where
  "admit_key f = ''admit:'' @ f"

definition admit_free :: "(string \<times> rate_limit_policy \<times> nat) list \<Rightarrow> bool" where
  "admit_free ops \<longleftrightarrow> (\<forall>f. filter (\<lambda>op. fst op = admit_key f) ops = [])"

lemma ran_quiet: "quiet s \<Longrightarrow> w_redis w = None \<Longrightarrow> ran env [] w (snd (s req w))"
  by (simp add: quiet_def ran_def run_checks_def)

lemma method_key_not_admit:
  "rune_method_for_path path = Some meth \<Longrightarrow> meth @ '':'' @ f \<noteq> admit_key g"
  by (auto simp: rune_method_for_path_def admit_key_def split: if_splits)

lemma rate_limit_charges:
  assumes "quiet s" and "w_redis w = None"
  shows "\<exists>ops. ran env ops w (snd (rate_limit_call env s req w)) \<and> admit_free ops
    \<and> w_runes (snd (rate_limit_call env s req w)) = w_runes w"
proof -
  have same: ?thesis if "snd (rate_limit_call env s req w) = w \<or> snd (rate_limit_call env s req w) = snd (s req w)"
    using that assms by (intro exI [of _ "[]"])
      (auto simp: admit_free_def ran_quiet quiet_def ran_def run_checks_def)
  show ?thesis
  proof (cases "rune_method_for_path (req_path req)")
    case None
    then show ?thesis by (intro same) (simp add: rate_limit_call_def)
  next
    case (Some meth)
    note meth = this
    obtain p where p: "policy_for_method meth = Some p" using method_has_policy [OF meth] by blast
    show ?thesis
    proof (cases "req_identity req")
      case None
      then show ?thesis using meth p by (intro same) (simp add: rate_limit_call_def)
    next
      case (Some i)
      let ?key = "meth @ '':'' @ fingerprint_sha256 i"
      obtain a w1 where l: "limited env ?key p w = (a, w1)" by force
      note r = ran_limited [OF l assms(2)]
      have "ran env [] w1 (if a then snd (s req w1) else w1)"
        using ran_quiet [OF assms(1) r(4)] r(4) by (simp add: ran_def run_checks_def)
      from ran_trans [OF r(1) this] have
        "ran env [(?key, p, env_clock env (w_ticks w))] w (snd (rate_limit_call env s req w))"
        using Some meth p l by (simp add: rate_limit_call_def Let_def if_distrib [of snd] cong: if_cong)
      moreover have "admit_free [(?key, p, env_clock env (w_ticks w))]"
        using method_key_not_admit [OF meth] by (simp add: admit_free_def)
      moreover have "w_runes (snd (rate_limit_call env s req w)) = w_runes w"
        using Some meth p l r(3) assms(1) by (simp add: rate_limit_call_def Let_def quiet_def)
      ultimately show ?thesis by blast
    qed
  qed
qed

lemma validate_rune_ran: "w_redis w = None \<Longrightarrow> ran env [] w (snd (validate_rune env rune meth params w))"
  by (auto simp: validate_rune_def Let_def ran_def run_checks_def split: prod.split option.split)

lemma auth_charges:
  assumes "\<And>req w. w_redis w = None \<Longrightarrow> \<exists>ops. ran env ops w (snd (inner req w)) \<and> admit_free ops
      \<and> w_runes (snd (inner req w)) = w_runes w"
    and "w_redis w = None"
  shows "\<exists>ops. ran env ops w (snd (auth_call env mx inner req w)) \<and> admit_free ops
    \<and> length (w_runes (snd (auth_call env mx inner req w))) \<le> length (w_runes w) + 1"
proof (cases "\<exists>e. auth_call env mx inner req w = (Rejected e, w)")
  case True
  then show ?thesis using assms(2)
    by (intro exI [of _ "[]"]) (auto simp: ran_def run_checks_def admit_free_def)
next
  case False
  then obtain rune meth body where parts: "rune_of env req = Inr rune"
    "rune_method_for_path (req_path req) = Some meth" "read_body_limited (req_body req) mx = Inr body"
    by (auto simp: auth_call_def split: sum.splits option.splits)
  let ?params = "extract_params_for_path env (req_path req) body"
  obtain v w1 where v: "validate_rune env rune meth ?params w = (v, w1)" by force
  then have w1: "ran env [] w w1" "length (w_runes w1) = length (w_runes w) + 1"
    using validate_rune_ran [OF assms(2), of env rune meth ?params]
      validate_rune_runes [of env rune meth ?params w] by simp_all
  show ?thesis
  proof (cases v)
    case (Inl e)
    then show ?thesis using parts v w1
      by (intro exI [of _ "[]"]) (simp add: auth_call_def Let_def admit_free_def)
  next
    case (Inr u)
    have "w_redis w1 = None" using w1(1) by (simp add: ran_def)
    from assms(1) [OF this, of "req\<lparr>req_body := full_body body\<rparr>"] obtain ops where
      "ran env ops w1 (snd (inner (req\<lparr>req_body := full_body body\<rparr>) w1))" "admit_free ops"
      "w_runes (snd (inner (req\<lparr>req_body := full_body body\<rparr>) w1)) = w_runes w1" by blast
    with ran_trans [OF w1(1)] parts v w1(2) Inr show ?thesis
      by (intro exI [of _ ops]) (auto simp: auth_call_def Let_def)
  qed
qed

definition fingerprint_of :: "('r, 's) environment \<Rightarrow> http_request \<Rightarrow> string option" where
  "fingerprint_of env req = map_option fingerprint_sha256 (identity_from_extensions env req)"

text \<open>A request makes one charge to the admission key of its own certificate and none to another's,
  and calls \<open>check_rune\<close> only if that charge was granted.\<close>

lemma stack_charges:
  fixes env :: "('r, 's) environment" and service :: "('r, 's, 'resp) service" and req w l
  assumes "quiet service" and "w_redis w = None"
  defines "w' \<equiv> snd (server_stack env l service req w)"
  shows "\<exists>ops. ran env ops w w'
    \<and> (\<forall>f. filter (\<lambda>op. fst op = admit_key f) ops =
        (if fingerprint_of env req = Some f
         then [(admit_key f, admission_policy l, env_clock env (w_ticks w))] else []))
    \<and> (\<forall>f. fingerprint_of env req = Some f \<longrightarrow>
        length (w_runes w') \<le> length (w_runes w) + granted (answers check (admit_key f) ops (w_fallback w)))"
proof (cases "hydrate env req")
  case None
  then have "w' = w" "fingerprint_of env req = None"
    by (simp_all add: w'_def server_stack_def identity_call_hydrate hydrate_def fingerprint_of_def)
  then show ?thesis using assms(2) by (intro exI [of _ "[]"]) (simp add: ran_def run_checks_def)
next
  case (Some req')
  then obtain c i where some: "identity_from_extensions env req = Some (i\<lparr>claimed_client_id := c\<rparr>)"
    "req' = req\<lparr>req_identity := Some i\<rparr>" using hydrate_Some by blast
  let ?inner = "auth_call env (max_request_body_bytes l) (rate_limit_call env service)"
  let ?p = "admission_policy l" and ?f = "fingerprint_sha256 i" and ?t = "env_clock env (w_ticks w)"
  have f: "fingerprint_of env req = Some ?f" using some by (simp add: fingerprint_of_def)
  obtain a w1 where l: "limited env (admit_key ?f) ?p w = (a, w1)" by force
  note r = ran_limited [OF l assms(2)]
  have w': "w' = (if a then snd (?inner req' w1) else w1)"
    using Some some(2) l [unfolded admit_key_def]
    by (simp add: w'_def server_stack_def identity_call_hydrate admission_call_def Let_def)
  have "\<exists>ops. ran env ops w1 w' \<and> admit_free ops \<and> length (w_runes w') \<le> length (w_runes w) + of_bool a"
  proof (cases a)
    case True
    with auth_charges [OF rate_limit_charges [OF assms(1)] r(4), where mx = "max_request_body_bytes l" and req = req']
    show ?thesis using w' r(3) by auto
  next
    case False
    with w' r show ?thesis by (intro exI [of _ "[]"]) (simp add: ran_def run_checks_def admit_free_def)
  qed
  then obtain ops where ops: "ran env ops w1 w'" "admit_free ops"
    "length (w_runes w') \<le> length (w_runes w) + of_bool a" by blast
  have "answers check (admit_key ?f) ((admit_key ?f, ?p, ?t) # ops) (w_fallback w) =
      a # answers check (admit_key ?f) [] (w_fallback w1)"
  proof -
    have "w_fallback w1 = snd (check (admit_key ?f) ?p ?t (w_fallback w))"
      using r(1) by (simp add: ran_def run_checks_def)
    moreover have "answers check (admit_key ?f) ops m = []" for m
      using ops(2) by (subst limiter.answers_independent) (simp add: admit_free_def)
    ultimately show ?thesis using r(2) by (simp add: split_beta)
  qed
  then show ?thesis using ran_trans [OF r(1) ops(1)] ops(2,3) f
    by (intro exI [of _ "(admit_key ?f, ?p, ?t) # ops"])
      (auto simp: granted_def admit_free_def admit_key_def)
qed

section \<open>The bound\<close>

fun serve_all :: "('r, 's) environment \<Rightarrow> limits \<Rightarrow> ('r, 's, 'resp) service \<Rightarrow> http_request list
    \<Rightarrow> ('r, 's) world \<Rightarrow> ('r, 's) world" where
  "serve_all env l s [] w = w"
| "serve_all env l s (req # reqs) w = serve_all env l s reqs (snd (server_stack env l s req w))"

text \<open>The \<open>check_rune\<close> calls made while serving the requests of one certificate.\<close>

fun rune_calls :: "('r, 's) environment \<Rightarrow> limits \<Rightarrow> ('r, 's, 'resp) service \<Rightarrow> string
    \<Rightarrow> http_request list \<Rightarrow> ('r, 's) world \<Rightarrow> nat" where
  "rune_calls env l s f [] w = 0"
| "rune_calls env l s f (req # reqs) w =
     (let w' = snd (server_stack env l s req w) in
      (if fingerprint_of env req = Some f then length (w_runes w') - length (w_runes w) else 0)
        + rune_calls env l s f reqs w')"

lemma serve_all_charges:
  assumes "quiet service" and "w_redis w = None"
  shows "\<exists>ops. ran env ops w (serve_all env l service reqs w)
    \<and> (\<exists>ts. filter (\<lambda>op. fst op = admit_key f) ops = map (\<lambda>t. (admit_key f, admission_policy l, t)) ts)
    \<and> rune_calls env l service f reqs w \<le> granted (answers check (admit_key f) ops (w_fallback w))"
  using assms(2)
proof (induction reqs arbitrary: w)
  case Nil
  then show ?case by (intro exI [of _ "[]"]) (simp add: ran_def run_checks_def)
next
  case (Cons req reqs)
  let ?w = "snd (server_stack env l service req w)"
  from stack_charges [OF assms(1) Cons.prems, of env l req] obtain ops where
    ops: "ran env ops w ?w"
    "filter (\<lambda>op. fst op = admit_key f) ops = (if fingerprint_of env req = Some f
         then [(admit_key f, admission_policy l, env_clock env (w_ticks w))] else [])"
    "fingerprint_of env req = Some f \<Longrightarrow> length (w_runes ?w) \<le> length (w_runes w)
        + granted (answers check (admit_key f) ops (w_fallback w))" by blast
  have "w_redis ?w = None" using ops(1) by (simp add: ran_def)
  from Cons.IH [OF this] obtain ops' ts where
    ops': "ran env ops' ?w (serve_all env l service reqs ?w)"
    "filter (\<lambda>op. fst op = admit_key f) ops' = map (\<lambda>t. (admit_key f, admission_policy l, t)) ts"
    "rune_calls env l service f reqs ?w \<le> granted (answers check (admit_key f) ops' (w_fallback ?w))"
    by blast
  have "w_fallback ?w = run_checks ops (w_fallback w)" using ops(1) by (simp add: ran_def)
  then have "rune_calls env l service f (req # reqs) w \<le>
      granted (answers check (admit_key f) (ops @ ops') (w_fallback w))"
    using ops(3) ops'(3) by (auto simp: Let_def answers_append granted_append)
  moreover have "\<exists>ts. filter (\<lambda>op. fst op = admit_key f) (ops @ ops') =
      map (\<lambda>t. (admit_key f, admission_policy l, t)) ts"
    using ops(2) ops'(2) by (intro exI [of _ "(if fingerprint_of env req = Some f
      then [env_clock env (w_ticks w)] else []) @ ts"]) simp
  moreover have "ran env (ops @ ops') w (serve_all env l service (req # reqs) w)"
    using ran_trans [OF ops(1) ops'(1)] by simp
  ultimately show ?case by blast
qed

lemma ran_times:
  assumes "ran env ops w w'" and "mono (env_clock env)"
    and "filter (\<lambda>op. fst op = k) ops = map (\<lambda>t. (k, p, t)) ts"
  shows "sorted ts" and "\<forall>t \<in> set ts. env_clock env (w_ticks w) \<le> t \<and> t \<le> env_clock env (w_ticks w')"
proof -
  let ?time = "\<lambda>(_, _, t). t" and ?P = "\<lambda>op. fst op = k"
  have times: "map ?time ops = map (env_clock env) [w_ticks w ..< w_ticks w']"
    using assms(1) by (simp add: ran_def)
  have "sorted (map (env_clock env) [w_ticks w ..< w_ticks w'])"
    using assms(2) by (auto simp: sorted_iff_nth_mono mono_def)
  then have "sorted (map ?time (filter ?P ops))"
    unfolding times [symmetric] by (rule sorted_filter)
  moreover have ts: "map ?time (filter ?P ops) = ts" by (simp add: assms(3) o_def)
  ultimately show "sorted ts" by simp
  have "set ts \<subseteq> set (map ?time ops)" 
    unfolding ts [symmetric] set_map by (intro image_mono filter_is_subset)
  also have "\<dots> = env_clock env ` {w_ticks w ..< w_ticks w'}" unfolding times by simp
  finally show "\<forall>t \<in> set ts. env_clock env (w_ticks w) \<le> t \<and> t \<le> env_clock env (w_ticks w')"
    using assms(2) by (auto simp: mono_def)
qed

lemma budget_nonneg:
  assumes "u \<le> v"
  shows "0 \<le> real n * (1 + (real v - real u) / real d * (1 + 1 / 2 ^ 53) ^ 4)"
  by (intro mult_nonneg_nonneg add_nonneg_nonneg divide_nonneg_nonneg zero_le_power) (use assms in auto)

text \<open>C4: while Redis is unreachable, a certificate the fallback does not track yet can make the server
  call the node's \<open>check_rune\<close> at most as often as its admission budget allows for the time that
  passes: the limit, plus the limit per window, plus rounding, whatever runes it sends and
  whatever other certificates do at the same time.\<close>

theorem check_rune_calls_bounded:
  assumes "quiet service" and "mono (env_clock env)" and "w_redis w = None"
    and "policy_ok (admission_policy l)" and "hm_get (w_fallback w) (admit_key f) = None"
  shows "real (rune_calls env l service f reqs w) \<le> real (unat (preauth_limit l)) *
    (1 + (real (env_clock env (w_ticks (serve_all env l service reqs w))) - real (env_clock env (w_ticks w)))
       / real (from_secs (preauth_window_seconds l)) * (1 + 1 / 2 ^ 53) ^ 4)"
proof -
  let ?p = "admission_policy l" and ?u = "env_clock env (w_ticks w)"
    and ?T = "env_clock env (w_ticks (serve_all env l service reqs w))"
  obtain ops ts where ops: "ran env ops w (serve_all env l service reqs w)"
    "filter (\<lambda>op. fst op = admit_key f) ops = map (\<lambda>t. (admit_key f, ?p, t)) ts"
    "rune_calls env l service f reqs w \<le> granted (answers check (admit_key f) ops (w_fallback w))"
    using serve_all_charges [OF assms(1,3)] by blast
  note times = ran_times [OF ops(1) assms(2) ops(2)]
  have le: "?u \<le> ?T" using ops(1) assms(2) by (simp add: ran_def mono_def)
  have share: "real n * (1 + x / d * c) \<le> real n * (1 + y / d * c)"
    if "x \<le> y" "0 \<le> d" "0 \<le> c" for n x y c and d :: real
    using that by (intro mult_left_mono add_left_mono mult_right_mono divide_right_mono) auto
  have "real (granted (answers check (admit_key f) ops (w_fallback w))) \<le>
      real (unat (policy_limit ?p)) *
        (1 + (real ?T - real ?u) / real (from_secs (policy_window_seconds ?p)) * (1 + 1 / 2 ^ 53) ^ 4)"
  proof (cases ts)
    case Nil
    then have "answers check (admit_key f) ops (w_fallback w) = []"
      using ops(2) by (subst limiter.answers_independent) simp
    then have none: "granted (answers check (admit_key f) ops (w_fallback w)) = 0" by (simp add: granted_def)
    show ?thesis unfolding none semiring_1_class.of_nat_0 by (rule budget_nonneg [OF le])
  next
    case (Cons t ts')
    with times have "sorted (t # ts')" "list_all (\<lambda>u. u \<le> ?T) (t # ts')" "?u \<le> t"
      by (auto simp: list_all_iff)
    with bucket_bound [OF assms(4,5) ops(2) [unfolded Cons]] show ?thesis
      using share [of "real ?T - real t" "real ?T - real ?u"] by (meson of_nat_0_le_iff diff_left_mono of_nat_mono order_trans zero_le_power add_nonneg_nonneg zero_le_divide_1_iff zero_le_one zero_le_numeral)
  qed
  then show ?thesis using ops(3) by (simp add: admission_policy_def)
qed

lemma check_rune_calls_bounded_witness:
  "real (rune_calls demo_env default_limits probe ''f0''
     [demo_request ''/cln.NodeServices/Getinfo'' [], demo_request ''/cln.NodeServices/Getinfo'' []] demo_world) \<le> 120"
  using check_rune_calls_bounded [of probe demo_env demo_world default_limits "''f0''"
      "[demo_request ''/cln.NodeServices/Getinfo'' [], demo_request ''/cln.NodeServices/Getinfo'' []]"]
  by (simp del: rune_calls.simps add: quiet_def probe_def demo_env_def demo_world_def mono_def policy_ok_def
      admission_policy_def default_limits_def DEFAULT_PREAUTH_LIMIT_def
      DEFAULT_PREAUTH_WINDOW_SECONDS_def hmap_simps)

end
