(* ===== verification/Stream_Budget.thy ===== *)
theory Stream_Budget
  imports Rust_Text
begin

text \<open>
  The budget of active streams (\<open>grpc/stream_limits.rs\<close>): a global semaphore and one per client
  certificate, behind a mutex-protected map of shared pointers. \<open>acquire\<close> holds the mutex only
  to clone the client's pointer, so its three parts interleave with other requests, with
  released permits and with \<open>cleanup_idle\<close>. The semaphores of tokio are the parameter \<open>ops\<close>.
\<close>

section \<open>Semaphores\<close>

text \<open>\<open>Semaphore::new\<close>, \<open>try_acquire_owned\<close> (\<open>None\<close> when no permit is left), the drop of a permit
  and \<open>available_permits\<close>, with their documented behaviour for up to \<open>sem_max\<close> permits.\<close>

record 's semaphore_ops =
  sem_new :: "usize \<Rightarrow> 's"
  sem_try_acquire :: "'s \<Rightarrow> 's option"
  sem_release :: "'s \<Rightarrow> 's"
  sem_available :: "'s \<Rightarrow> nat"
  sem_max :: nat

definition semaphore_laws :: "'s semaphore_ops \<Rightarrow> bool" where
  "semaphore_laws ops \<longleftrightarrow>
     (\<forall>n. unat n \<le> sem_max ops \<longrightarrow> sem_available ops (sem_new ops n) = unat n)
   \<and> (\<forall>s. (sem_try_acquire ops s = None) = (sem_available ops s = 0))
   \<and> (\<forall>s s'. sem_try_acquire ops s = Some s' \<longrightarrow> sem_available ops s = Suc (sem_available ops s'))
   \<and> (\<forall>s. sem_available ops (sem_release ops s) = Suc (sem_available ops s))"

section \<open>State\<close>

text \<open>An \<open>Arc<Semaphore>\<close> is an address; \<open>strong\<close> is its \<open>strong_count\<close>.\<close>

record 's stream_limits =
  sl_global :: 's
  sl_per_client :: "nat hmap"
  sl_max_global :: usize
  sl_max_per_client :: usize
  sl_sems :: "nat \<Rightarrow> 's"
  sl_strong :: "nat \<Rightarrow> nat"
  sl_next :: nat

text \<open>\<open>StreamPermit\<close> owns a permit of the global semaphore and one of the client's, through a
  clone of its pointer.\<close>

record stream_permit =
  permit_client :: nat

datatype stream_error = Global_Limit_Reached | Client_Limit_Reached

definition stream_limits_new :: "'s semaphore_ops \<Rightarrow> usize \<Rightarrow> usize \<Rightarrow> 's stream_limits" where
  "stream_limits_new ops max_global max_per_client =
     \<lparr>sl_global = sem_new ops max_global, sl_per_client = hm_empty, sl_max_global = max_global,
      sl_max_per_client = max_per_client, sl_sems = (\<lambda>_. sem_new ops 0), sl_strong = (\<lambda>_. 0),
      sl_next = 0\<rparr>"

section \<open>Acquiring\<close>

definition add_strong :: "nat \<Rightarrow> 's stream_limits \<Rightarrow> 's stream_limits" where
  "add_strong a st = st\<lparr>sl_strong := (sl_strong st)(a := sl_strong st a + 1)\<rparr>"

definition drop_strong :: "nat \<Rightarrow> 's stream_limits \<Rightarrow> 's stream_limits" where
  "drop_strong a st = st\<lparr>sl_strong := (sl_strong st)(a := sl_strong st a - 1)\<rparr>"

text \<open>Under the mutex: \<open>entry(key).or_insert_with(...)\<close> and a clone of the pointer.\<close>

definition lookup_client ::
  "'s semaphore_ops \<Rightarrow> string \<Rightarrow> 's stream_limits \<Rightarrow> nat \<times> 's stream_limits" where
  "lookup_client ops client_key st =
     (case hm_get (sl_per_client st) client_key of
        Some a \<Rightarrow> (a, add_strong a st)
      | None \<Rightarrow>
          (let a = sl_next st in
           (a, add_strong a (st\<lparr>sl_per_client := hm_put client_key a (sl_per_client st),
                 sl_sems := (sl_sems st)(a := sem_new ops (sl_max_per_client st)),
                 sl_strong := (sl_strong st)(a := 1), sl_next := Suc a\<rparr>))))"

text \<open>The global permit, or an error that drops the cloned pointer.\<close>

definition acquire_global ::
  "'s semaphore_ops \<Rightarrow> nat \<Rightarrow> 's stream_limits \<Rightarrow> (stream_error + unit) \<times> 's stream_limits" where
  "acquire_global ops a st =
     (case sem_try_acquire ops (sl_global st) of
        None \<Rightarrow> (Inl Global_Limit_Reached, drop_strong a st)
      | Some g \<Rightarrow> (Inr (), st\<lparr>sl_global := g\<rparr>))"

text \<open>The client's permit, which takes the pointer over, or an error that drops the pointer and
  then the global permit.\<close>

definition acquire_client ::
  "'s semaphore_ops \<Rightarrow> nat \<Rightarrow> 's stream_limits \<Rightarrow> (stream_error + stream_permit) \<times> 's stream_limits"
where
  "acquire_client ops a st =
     (case sem_try_acquire ops (sl_sems st a) of
        None \<Rightarrow>
          (let st1 = drop_strong a st in
           (Inl Client_Limit_Reached, st1\<lparr>sl_global := sem_release ops (sl_global st1)\<rparr>))
      | Some s \<Rightarrow> (Inr \<lparr>permit_client = a\<rparr>, st\<lparr>sl_sems := (sl_sems st)(a := s)\<rparr>))"

definition acquire ::
  "'s semaphore_ops \<Rightarrow> string \<Rightarrow> 's stream_limits \<Rightarrow> (stream_error + stream_permit) \<times> 's stream_limits"
where
  "acquire ops client_key st =
     (case lookup_client ops client_key st of
        (a, st1) \<Rightarrow>
          (case acquire_global ops a st1 of
             (Inl e, st2) \<Rightarrow> (Inl e, st2)
           | (Inr _, st2) \<Rightarrow> acquire_client ops a st2))"

text \<open>Dropping a permit drops its fields in their order: the global slot, then the client's slot
  and its pointer.\<close>

definition release_global :: "'s semaphore_ops \<Rightarrow> 's stream_limits \<Rightarrow> 's stream_limits" where
  "release_global ops st = st\<lparr>sl_global := sem_release ops (sl_global st)\<rparr>"

definition release_client :: "'s semaphore_ops \<Rightarrow> stream_permit \<Rightarrow> 's stream_limits \<Rightarrow> 's stream_limits" where
  "release_client ops p st =
     (let a = permit_client p in
      drop_strong a (st\<lparr>sl_sems := (sl_sems st)(a := sem_release ops (sl_sems st a))\<rparr>))"

definition release_permit :: "'s semaphore_ops \<Rightarrow> stream_permit \<Rightarrow> 's stream_limits \<Rightarrow> 's stream_limits" where
  "release_permit ops p st = release_client ops p (release_global ops st)"

section \<open>Observers and cleanup\<close>

definition is_idle :: "'s semaphore_ops \<Rightarrow> 's stream_limits \<Rightarrow> nat \<Rightarrow> bool" where
  "is_idle ops st a \<longleftrightarrow> sl_strong st a = 1
     \<and> sem_available ops (sl_sems st a) = unat (sl_max_per_client st)"

definition active_streams :: "'s semaphore_ops \<Rightarrow> 's stream_limits \<Rightarrow> usize" where
  "active_streams ops st = sl_max_global st - of_nat (sem_available ops (sl_global st))"

definition active_streams_for :: "'s semaphore_ops \<Rightarrow> 's stream_limits \<Rightarrow> string \<Rightarrow> usize" where
  "active_streams_for ops st client_key =
     (case hm_get (sl_per_client st) client_key of
        None \<Rightarrow> 0
      | Some a \<Rightarrow> sl_max_per_client st - of_nat (sem_available ops (sl_sems st a)))"

definition tracked_clients :: "'s stream_limits \<Rightarrow> nat" where
  "tracked_clients st = hm_len (sl_per_client st)"

definition idle_clients :: "'s semaphore_ops \<Rightarrow> 's stream_limits \<Rightarrow> nat" where
  "idle_clients ops st = length (filter (\<lambda>(_, a). is_idle ops st a) (hm_entries (sl_per_client st)))"

text \<open>Removing an entry drops the pointer the map holds.\<close>

definition cleanup_idle :: "'s semaphore_ops \<Rightarrow> 's stream_limits \<Rightarrow> nat \<times> 's stream_limits" where
  "cleanup_idle ops st =
     (let before = hm_len (sl_per_client st);
          kept = hm_retain (\<lambda>_ a. \<not> is_idle ops st a) (sl_per_client st);
          gone = filter (\<lambda>a. is_idle ops st a) (map snd (hm_entries (sl_per_client st)));
          st1 = st\<lparr>sl_per_client := kept,
                   sl_strong := (\<lambda>a. if a \<in> set gone then sl_strong st a - 1 else sl_strong st a)\<rparr>
      in (before - hm_len kept, st1))"

section \<open>Interleavings\<close>

text \<open>The requests inside \<open>acquire\<close> after the lookup and after the global permit, the live permits,
  and the permits being dropped; each remembers the key it was requested for.\<close>

record 's budget_system =
  bs_limits :: "'s stream_limits"
  bs_looked :: "(string \<times> nat) list"
  bs_global :: "(string \<times> nat) list"
  bs_live :: "(string \<times> stream_permit) list"
  bs_closing :: "(string \<times> stream_permit) list"

inductive budget_step :: "'s semaphore_ops \<Rightarrow> 's budget_system \<Rightarrow> 's budget_system \<Rightarrow> bool"
  for ops :: "'s semaphore_ops" where
  step_lookup:
    "lookup_client ops k (bs_limits s) = (a, st') \<Longrightarrow>
     t = s\<lparr>bs_limits := st', bs_looked := (k, a) # bs_looked s\<rparr> \<Longrightarrow> budget_step ops s t"
| step_global_ok:
    "bs_looked s = xs @ (k, a) # ys \<Longrightarrow> acquire_global ops a (bs_limits s) = (Inr u, st') \<Longrightarrow>
     t = s\<lparr>bs_limits := st', bs_looked := xs @ ys, bs_global := (k, a) # bs_global s\<rparr> \<Longrightarrow>
     budget_step ops s t"
| step_global_err:
    "bs_looked s = xs @ (k, a) # ys \<Longrightarrow> acquire_global ops a (bs_limits s) = (Inl e, st') \<Longrightarrow>
     t = s\<lparr>bs_limits := st', bs_looked := xs @ ys\<rparr> \<Longrightarrow> budget_step ops s t"
| step_client_ok:
    "bs_global s = xs @ (k, a) # ys \<Longrightarrow> acquire_client ops a (bs_limits s) = (Inr p, st') \<Longrightarrow>
     t = s\<lparr>bs_limits := st', bs_global := xs @ ys, bs_live := (k, p) # bs_live s\<rparr> \<Longrightarrow>
     budget_step ops s t"
| step_client_err:
    "bs_global s = xs @ (k, a) # ys \<Longrightarrow> acquire_client ops a (bs_limits s) = (Inl e, st') \<Longrightarrow>
     t = s\<lparr>bs_limits := st', bs_global := xs @ ys\<rparr> \<Longrightarrow> budget_step ops s t"
| step_release:
    "bs_live s = xs @ (k, p) # ys \<Longrightarrow>
     t = s\<lparr>bs_limits := release_global ops (bs_limits s), bs_live := xs @ ys,
           bs_closing := (k, p) # bs_closing s\<rparr> \<Longrightarrow>
     budget_step ops s t"
| step_close:
    "bs_closing s = xs @ (k, p) # ys \<Longrightarrow>
     t = s\<lparr>bs_limits := release_client ops p (bs_limits s), bs_closing := xs @ ys\<rparr> \<Longrightarrow>
     budget_step ops s t"
| step_cleanup:
    "t = s\<lparr>bs_limits := snd (cleanup_idle ops (bs_limits s))\<rparr> \<Longrightarrow> budget_step ops s t"

definition budget_init :: "'s semaphore_ops \<Rightarrow> usize \<Rightarrow> usize \<Rightarrow> 's budget_system \<Rightarrow> bool" where
  "budget_init ops max_global max_per_client s \<longleftrightarrow>
     s = \<lparr>bs_limits = stream_limits_new ops max_global max_per_client, bs_looked = [],
          bs_global = [], bs_live = [], bs_closing = []\<rparr>"

end
