(* ===== verification/Budget_Properties.thy ===== *)
theory Budget_Properties
  imports Stream_Budget
begin

text \<open>
  Correctness of the stream budget under every interleaving: the live permits of a client never
  exceed its budget and those of all clients never exceed the global one, because two semaphores
  of one client never coexist, not even across a cleanup.
\<close>

section \<open>Semaphore laws\<close>

lemma sem_laws:
  assumes "semaphore_laws ops"
  shows "unat n \<le> sem_max ops \<Longrightarrow> sem_available ops (sem_new ops n) = unat n"
    and "sem_try_acquire ops s = None \<longleftrightarrow> sem_available ops s = 0"
    and "sem_try_acquire ops s = Some s' \<Longrightarrow> sem_available ops s = Suc (sem_available ops s')"
    and "sem_available ops (sem_release ops s) = Suc (sem_available ops s)"
  using assms by (auto simp: semaphore_laws_def)

text \<open>A counter satisfies them.\<close>

definition counter_ops :: "nat semaphore_ops" where
  "counter_ops = \<lparr>sem_new = unat, sem_try_acquire = (\<lambda>n. if n = 0 then None else Some (n - 1)),
     sem_release = Suc, sem_available = (\<lambda>n. n), sem_max = 2 ^ 61 - 1\<rparr>"

lemma counter_laws: "semaphore_laws counter_ops"
  by (auto simp: semaphore_laws_def counter_ops_def split: if_splits)

section \<open>The invariant\<close>

text \<open>Who holds which pointer, and who holds a slot of a client's semaphore.\<close>

definition owner :: "string \<times> stream_permit \<Rightarrow> string \<times> nat" where
  "owner kp = (fst kp, permit_client (snd kp))"

definition users :: "'s budget_system \<Rightarrow> (string \<times> nat) list" where
  "users s = map owner (bs_live s) @ map owner (bs_closing s)"

definition holders :: "'s budget_system \<Rightarrow> (string \<times> nat) list" where
  "holders s = bs_looked s @ bs_global s @ users s"

definition budget_inv :: "'s semaphore_ops \<Rightarrow> usize \<Rightarrow> usize \<Rightarrow> 's budget_system \<Rightarrow> bool" where
  "budget_inv ops mg mc s \<longleftrightarrow> (let st = bs_limits s in
     hm_wf (sl_per_client st) \<and> sl_max_global st = mg \<and> sl_max_per_client st = mc
     \<and> (\<forall>k a. hm_get (sl_per_client st) k = Some a \<longrightarrow> a < sl_next st)
     \<and> (\<forall>k k' a. hm_get (sl_per_client st) k = Some a \<longrightarrow> hm_get (sl_per_client st) k' = Some a
          \<longrightarrow> k = k')
     \<and> (\<forall>(k, a) \<in> set (holders s). hm_get (sl_per_client st) k = Some a)
     \<and> (\<forall>k a. hm_get (sl_per_client st) k = Some a \<longrightarrow>
          sl_strong st a = Suc (count_list (map snd (holders s)) a)
        \<and> sem_available ops (sl_sems st a) + count_list (map snd (users s)) a = unat mc)
     \<and> sem_available ops (sl_global st) + length (bs_global s) + length (bs_live s) = unat mg)"

lemma budget_invI:
  assumes "hm_wf (sl_per_client (bs_limits s))"
    and "sl_max_global (bs_limits s) = mg" "sl_max_per_client (bs_limits s) = mc"
    and "\<And>k a. hm_get (sl_per_client (bs_limits s)) k = Some a \<Longrightarrow> a < sl_next (bs_limits s)"
    and "\<And>k k' a. hm_get (sl_per_client (bs_limits s)) k = Some a \<Longrightarrow>
          hm_get (sl_per_client (bs_limits s)) k' = Some a \<Longrightarrow> k = k'"
    and "\<And>k a. (k, a) \<in> set (holders s) \<Longrightarrow> hm_get (sl_per_client (bs_limits s)) k = Some a"
    and "\<And>k a. hm_get (sl_per_client (bs_limits s)) k = Some a \<Longrightarrow>
          sl_strong (bs_limits s) a = Suc (count_list (map snd (holders s)) a)"
    and "\<And>k a. hm_get (sl_per_client (bs_limits s)) k = Some a \<Longrightarrow>
          sem_available ops (sl_sems (bs_limits s) a) + count_list (map snd (users s)) a = unat mc"
    and "sem_available ops (sl_global (bs_limits s)) + length (bs_global s) + length (bs_live s) = unat mg"
  shows "budget_inv ops mg mc s"
  using assms by (auto simp: budget_inv_def Let_def)

lemma budget_invD:
  assumes "budget_inv ops mg mc s"
  shows "hm_wf (sl_per_client (bs_limits s))"
    and "sl_max_global (bs_limits s) = mg" "sl_max_per_client (bs_limits s) = mc"
    and "hm_get (sl_per_client (bs_limits s)) k = Some a \<Longrightarrow> a < sl_next (bs_limits s)"
    and "hm_get (sl_per_client (bs_limits s)) k = Some a \<Longrightarrow>
          hm_get (sl_per_client (bs_limits s)) k' = Some a \<Longrightarrow> k = k'"
    and "(k, a) \<in> set (holders s) \<Longrightarrow> hm_get (sl_per_client (bs_limits s)) k = Some a"
    and "hm_get (sl_per_client (bs_limits s)) k = Some a \<Longrightarrow>
          sl_strong (bs_limits s) a = Suc (count_list (map snd (holders s)) a)"
    and "hm_get (sl_per_client (bs_limits s)) k = Some a \<Longrightarrow>
          sem_available ops (sl_sems (bs_limits s) a) + count_list (map snd (users s)) a = unat mc"
    and "sem_available ops (sl_global (bs_limits s)) + length (bs_global s) + length (bs_live s) = unat mg"
  using assms unfolding budget_inv_def Let_def by blast+

lemma count_fresh: "budget_inv ops mg mc s \<Longrightarrow> sl_next (bs_limits s) \<le> a \<Longrightarrow>
    count_list (map snd (holders s)) a = 0"
  using budget_invD(4,6) by (fastforce simp: count_list_0_iff)

lemma users_holders: "count_list (map snd (users s)) a \<le> count_list (map snd (holders s)) a"
  by (simp add: holders_def)

text \<open>Steps that leave the map, the limits and the addresses alone: it is enough to follow the
  counts.\<close>

lemma budget_inv_counts:
  assumes inv: "budget_inv ops mg mc s"
    and same: "sl_per_client (bs_limits t) = sl_per_client (bs_limits s)"
      "sl_max_global (bs_limits t) = sl_max_global (bs_limits s)"
      "sl_max_per_client (bs_limits t) = sl_max_per_client (bs_limits s)"
      "sl_next (bs_limits t) = sl_next (bs_limits s)"
    and sub: "\<And>k a. (k, a) \<in> set (holders t) \<Longrightarrow> hm_get (sl_per_client (bs_limits s)) k = Some a"
    and strong: "\<And>a. sl_strong (bs_limits t) a + count_list (map snd (holders s)) a =
        sl_strong (bs_limits s) a + count_list (map snd (holders t)) a"
    and slots: "\<And>a. sem_available ops (sl_sems (bs_limits t) a) + count_list (map snd (users t)) a =
        sem_available ops (sl_sems (bs_limits s) a) + count_list (map snd (users s)) a"
    and global: "sem_available ops (sl_global (bs_limits t)) + length (bs_global t) + length (bs_live t) =
        sem_available ops (sl_global (bs_limits s)) + length (bs_global s) + length (bs_live s)"
  shows "budget_inv ops mg mc t"
proof (rule budget_invI, goal_cases)
  case (7 k a)
  then have g: "hm_get (sl_per_client (bs_limits s)) k = Some a" by (simp add: same)
  from strong [of a] budget_invD(7) [OF inv g] show ?case by linarith
next
  case (8 k a)
  then have g: "hm_get (sl_per_client (bs_limits s)) k = Some a" by (simp add: same)
  from slots [of a] budget_invD(8) [OF inv g] show ?case by linarith
next
  case 9
  from global budget_invD(9) [OF inv] show ?case by linarith
next
  case (6 k a)
  then show ?case unfolding same by (rule sub)
next
  case (5 k k' a)
  then show ?case unfolding same by (rule budget_invD(5) [OF inv])
next
  case (4 k a)
  then show ?case unfolding same by (rule budget_invD(4) [OF inv])
next
  case 1
  show ?case unfolding same by (rule budget_invD(1) [OF inv])
next
  case 2
  show ?case unfolding same by (rule budget_invD(2) [OF inv])
next
  case 3
  show ?case unfolding same by (rule budget_invD(3) [OF inv])
qed

section \<open>Every step keeps it\<close>

lemma holder_strong:
  assumes inv: "budget_inv ops mg mc s" and "(k, a) \<in> set (holders s)"
  shows "0 < sl_strong (bs_limits s) a"
  using budget_invD(7) [OF inv budget_invD(6) [OF assms]] by simp

lemmas holder_defs = holders_def users_def owner_def

lemma budget_inv_lookup:
  assumes laws: "semaphore_laws ops" and mc: "unat mc \<le> sem_max ops" and inv: "budget_inv ops mg mc s"
    and look: "lookup_client ops k (bs_limits s) = (a, st')"
  shows "budget_inv ops mg mc (s\<lparr>bs_limits := st', bs_looked := (k, a) # bs_looked s\<rparr>)" (is "budget_inv _ _ _ ?t")
proof (cases "hm_get (sl_per_client (bs_limits s)) k")
  case (Some b)
  then have a: "a = b" "st' = add_strong b (bs_limits s)"
    using look by (auto simp: lookup_client_def)
  show ?thesis
    by (rule budget_inv_counts [OF inv])
      (use Some budget_invD(6) [OF inv] in \<open>auto simp: a add_strong_def holder_defs\<close>)
next
  case None
  let ?st = "bs_limits s"
  have a: "a = sl_next ?st" and st': "st' = add_strong a (?st\<lparr>sl_per_client := hm_put k a (sl_per_client ?st),
      sl_sems := (sl_sems ?st)(a := sem_new ops (sl_max_per_client ?st)),
      sl_strong := (sl_strong ?st)(a := 1), sl_next := Suc a\<rparr>)"
    using look None by (auto simp: lookup_client_def Let_def)
  have fresh: "count_list (map snd (holders s)) a = 0" using count_fresh [OF inv, of a] a by simp
  then have fresh_u: "count_list (map snd (users s)) a = 0" using users_holders [of s a] by simp
  have hold: "holders ?t = (k, a) # holders s" "users ?t = users s"
    by (simp_all add: holder_defs)
  have old: "b \<noteq> a" if "hm_get (sl_per_client ?st) k' = Some b" for k' b
    using budget_invD(4) [OF inv that] a by simp
  have lim: "bs_limits ?t = st'" by simp
  have get: "hm_get (sl_per_client st') k' =
      (if k' = k then Some a else hm_get (sl_per_client ?st) k')" for k'
    by (simp add: st' add_strong_def hmap_simps)
  show ?thesis
  proof (rule budget_invI, goal_cases)
    case 1
    then show ?case using budget_invD(1) [OF inv] by (simp add: st' add_strong_def)
  next
    case 2
    then show ?case using budget_invD(2) [OF inv] by (simp add: st' add_strong_def)
  next
    case 3
    then show ?case using budget_invD(3) [OF inv] by (simp add: st' add_strong_def)
  next
    case (4 k' b)
    then show ?case using budget_invD(4) [OF inv, of k' b] a unfolding lim get
      by (auto simp: st' add_strong_def split: if_splits)
  next
    case (5 k1 k2 b)
    then show ?case using budget_invD(5) [OF inv, of k1 b k2] old unfolding lim get
      by (auto split: if_splits)
  next
    case (6 k' b)
    then consider "k' = k" "b = a" | "(k', b) \<in> set (holders s)" unfolding hold by auto
    then show ?case
    proof cases
      case 2
      from budget_invD(6) [OF inv 2] None show ?thesis unfolding lim get by auto
    next
      case 1
      then show ?thesis unfolding lim get by simp
    qed
  next
    case (7 k' b)
    show ?case
    proof (cases "k' = k")
      case True
      with 7 have "b = a" unfolding lim by (simp add: get)
      then show ?thesis unfolding hold using fresh by (simp add: st' add_strong_def)
    next
      case False
      with 7 have g: "hm_get (sl_per_client ?st) k' = Some b" unfolding lim by (simp add: get)
      with budget_invD(7) [OF inv g] old [OF g] show ?thesis
        unfolding hold by (simp add: st' add_strong_def)
    qed
  next
    case (8 k' b)
    show ?case
    proof (cases "k' = k")
      case True
      with 8 have "b = a" unfolding lim by (simp add: get)
      then show ?thesis
        unfolding hold using fresh_u sem_laws(1) [OF laws mc] budget_invD(3) [OF inv]
        by (simp add: st' add_strong_def)
    next
      case False
      with 8 have g: "hm_get (sl_per_client ?st) k' = Some b" unfolding lim by (simp add: get)
      with budget_invD(8) [OF inv g] old [OF g] show ?thesis
        unfolding hold by (simp add: st' add_strong_def)
    qed
  next
    case 9
    then show ?case using budget_invD(9) [OF inv] by (simp add: st' add_strong_def)
  qed
qed

lemma budget_inv_global_ok:
  assumes laws: "semaphore_laws ops" and inv: "budget_inv ops mg mc s"
    and look: "bs_looked s = xs @ (k, a) # ys"
    and acq: "acquire_global ops a (bs_limits s) = (Inr u, st')"
  shows "budget_inv ops mg mc (s\<lparr>bs_limits := st', bs_looked := xs @ ys, bs_global := (k, a) # bs_global s\<rparr>)"
proof -
  obtain g where g: "sem_try_acquire ops (sl_global (bs_limits s)) = Some g"
    and st': "st' = bs_limits s\<lparr>sl_global := g\<rparr>"
    using acq by (auto simp: acquire_global_def split: option.splits)
  show ?thesis
    by (rule budget_inv_counts [OF inv])
      (use look sem_laws(3) [OF laws g] budget_invD(6) [OF inv] in \<open>auto simp: st' holder_defs\<close>)
qed

lemma budget_inv_drop:
  assumes inv: "budget_inv ops mg mc s" and look: "bs_looked s = xs @ (k, a) # ys"
    and acq: "acquire_global ops a (bs_limits s) = (Inl e, st')"
  shows "budget_inv ops mg mc (s\<lparr>bs_limits := st', bs_looked := xs @ ys\<rparr>)"
proof -
  have st': "st' = drop_strong a (bs_limits s)"
    using acq by (auto simp: acquire_global_def split: option.splits)
  have "(k, a) \<in> set (holders s)" by (simp add: holders_def look)
  note pos = holder_strong [OF inv this]
  show ?thesis
    by (rule budget_inv_counts [OF inv])
      (use look pos budget_invD(6) [OF inv] in \<open>auto simp: st' drop_strong_def holder_defs\<close>)
qed

lemma budget_inv_client_ok:
  assumes laws: "semaphore_laws ops" and inv: "budget_inv ops mg mc s"
    and glob: "bs_global s = xs @ (k, a) # ys"
    and acq: "acquire_client ops a (bs_limits s) = (Inr p, st')"
  shows "budget_inv ops mg mc (s\<lparr>bs_limits := st', bs_global := xs @ ys, bs_live := (k, p) # bs_live s\<rparr>)"
proof -
  obtain c where c: "sem_try_acquire ops (sl_sems (bs_limits s) a) = Some c"
    and st': "st' = bs_limits s\<lparr>sl_sems := (sl_sems (bs_limits s))(a := c)\<rparr>" and p: "permit_client p = a"
    using acq by (auto simp: acquire_client_def Let_def split: option.splits)
  show ?thesis
    by (rule budget_inv_counts [OF inv])
      (use glob sem_laws(3) [OF laws c] budget_invD(6) [OF inv] in \<open>auto simp: st' p holder_defs\<close>)
qed

lemma budget_inv_client_err:
  assumes laws: "semaphore_laws ops" and inv: "budget_inv ops mg mc s"
    and glob: "bs_global s = xs @ (k, a) # ys"
    and acq: "acquire_client ops a (bs_limits s) = (Inl e, st')"
  shows "budget_inv ops mg mc (s\<lparr>bs_limits := st', bs_global := xs @ ys\<rparr>)"
proof -
  have st': "st' = (drop_strong a (bs_limits s))\<lparr>sl_global := sem_release ops (sl_global (bs_limits s))\<rparr>"
    using acq by (auto simp: acquire_client_def Let_def drop_strong_def split: option.splits)
  have "(k, a) \<in> set (holders s)" by (simp add: holders_def glob)
  note pos = holder_strong [OF inv this]
  show ?thesis
    by (rule budget_inv_counts [OF inv])
      (use glob pos sem_laws(4) [OF laws] budget_invD(6) [OF inv] in
        \<open>auto simp: st' drop_strong_def holder_defs\<close>)
qed

lemma budget_inv_release:
  assumes laws: "semaphore_laws ops" and inv: "budget_inv ops mg mc s"
    and live: "bs_live s = xs @ (k, p) # ys"
  shows "budget_inv ops mg mc (s\<lparr>bs_limits := release_global ops (bs_limits s), bs_live := xs @ ys,
      bs_closing := (k, p) # bs_closing s\<rparr>)"
  by (rule budget_inv_counts [OF inv])
    (use live sem_laws(4) [OF laws] budget_invD(6) [OF inv] in
      \<open>auto simp: release_global_def holder_defs\<close>)

lemma budget_inv_close:
  assumes laws: "semaphore_laws ops" and inv: "budget_inv ops mg mc s"
    and clos: "bs_closing s = xs @ (k, p) # ys"
  shows "budget_inv ops mg mc (s\<lparr>bs_limits := release_client ops p (bs_limits s), bs_closing := xs @ ys\<rparr>)"
proof -
  have "(k, permit_client p) \<in> set (holders s)" by (simp add: holder_defs clos)
  note pos = holder_strong [OF inv this]
  show ?thesis
    by (rule budget_inv_counts [OF inv])
      (use clos pos sem_laws(4) [OF laws] budget_invD(6) [OF inv] in
        \<open>auto simp: release_client_def drop_strong_def Let_def holder_defs\<close>)
qed

text \<open>Cleanup never removes the semaphore of a client that holds or is acquiring a slot.\<close>

lemma budget_inv_cleanup:
  assumes inv: "budget_inv ops mg mc s"
  shows "budget_inv ops mg mc (s\<lparr>bs_limits := snd (cleanup_idle ops (bs_limits s))\<rparr>)" (is "budget_inv _ _ _ ?t")
proof -
  let ?st = "bs_limits s"
  let ?gone = "filter (\<lambda>a. is_idle ops ?st a) (map snd (hm_entries (sl_per_client ?st)))"
  define st1 where "st1 = snd (cleanup_idle ops ?st)"
  have st': "st1 = ?st\<lparr>sl_per_client := hm_retain (\<lambda>_ a. \<not> is_idle ops ?st a) (sl_per_client ?st),
      sl_strong := (\<lambda>a. if a \<in> set ?gone then sl_strong ?st a - 1 else sl_strong ?st a)\<rparr>"
    by (simp add: st1_def cleanup_idle_def Let_def)
  have lim: "bs_limits ?t = st1" by (simp add: st1_def)
  have hold: "holders ?t = holders s" "users ?t = users s" by (simp_all add: holder_defs)
  have get: "hm_get (sl_per_client st1) k = Some a \<longleftrightarrow>
      hm_get (sl_per_client ?st) k = Some a \<and> \<not> is_idle ops ?st a" for k a
    by (auto simp: st' hm_get_retain [OF budget_invD(1) [OF inv]] split: option.splits)
  have busy: "\<not> is_idle ops ?st a" if "(k, a) \<in> set (holders s)" for k a
  proof -
    have "a \<in> set (map snd (holders s))" using that by force
    then have "count_list (map snd (holders s)) a \<noteq> 0" by (simp only: count_list_0_iff not_not)
    then show ?thesis
      using budget_invD(7) [OF inv budget_invD(6) [OF inv that]] by (simp add: is_idle_def)
  qed
  show ?thesis
  proof (rule budget_invI, goal_cases)
    case (7 k a)
    then have g: "hm_get (sl_per_client ?st) k = Some a" "\<not> is_idle ops ?st a"
      unfolding lim by (simp_all add: get)
    then show ?case using budget_invD(7) [OF inv g(1)] unfolding hold lim st' by simp
  next
    case (8 k a)
    then have "hm_get (sl_per_client ?st) k = Some a" unfolding lim by (simp add: get)
    from budget_invD(8) [OF inv this] show ?case unfolding hold lim st' by simp
  next
    case (4 k a)
    then have "hm_get (sl_per_client ?st) k = Some a" unfolding lim by (simp add: get)
    from budget_invD(4) [OF inv this] show ?case unfolding lim st' by simp
  next
    case (5 k k' a)
    then show ?case using budget_invD(5) [OF inv] unfolding lim get by blast
  next
    case (6 k a)
    then show ?case using budget_invD(6) [OF inv] busy unfolding lim hold get by blast
  next
    case 9
    show ?case using budget_invD(9) [OF inv] unfolding lim by (simp add: st')
  qed (use budget_invD(1-3) [OF inv] in \<open>simp_all only: lim st'\<close>, simp_all)
qed

lemma budget_inv_init:
  assumes "semaphore_laws ops" and "unat mg \<le> sem_max ops" and "budget_init ops mg mc s"
  shows "budget_inv ops mg mc s"
  using assms(3) sem_laws(1) [OF assms(1,2)]
  by (auto simp: budget_init_def stream_limits_new_def budget_inv_def holder_defs hmap_simps)

text \<open>A system of requests over semaphores that keep their laws; other semaphores have no states.\<close>

definition budget_start :: "'s semaphore_ops \<Rightarrow> usize \<Rightarrow> usize \<Rightarrow> 's budget_system \<Rightarrow> bool" where
  "budget_start ops mg mc s \<longleftrightarrow> semaphore_laws ops \<and> unat mg \<le> sem_max ops \<and> unat mc \<le> sem_max ops
     \<and> budget_init ops mg mc s"

definition lawful_inv :: "'s semaphore_ops \<Rightarrow> usize \<Rightarrow> usize \<Rightarrow> 's budget_system \<Rightarrow> bool" where
  "lawful_inv ops mg mc s \<longleftrightarrow> semaphore_laws ops \<and> unat mg \<le> sem_max ops \<and> unat mc \<le> sem_max ops
     \<and> budget_inv ops mg mc s"

interpretation budget_sys: guarded_system "budget_start ops mg mc" "budget_step ops" "lawful_inv ops mg mc"
  for ops :: "'s semaphore_ops" and mg mc :: usize
proof unfold_locales
  fix s assume "budget_start ops mg mc s"
  then show "lawful_inv ops mg mc s"
    by (auto simp: budget_start_def lawful_inv_def intro: budget_inv_init)
next
  fix s t assume "lawful_inv ops mg mc s" and step: "budget_step ops s t"
  then have laws: "semaphore_laws ops" and mg: "unat mg \<le> sem_max ops" and mc: "unat mc \<le> sem_max ops"
    and inv: "budget_inv ops mg mc s" by (auto simp: lawful_inv_def)
  from step have "budget_inv ops mg mc t"
  proof cases
    case (step_lookup k a st')
    then show ?thesis using budget_inv_lookup [OF laws mc inv] by simp
  next
    case (step_global_ok xs k a ys u st')
    then show ?thesis using budget_inv_global_ok [OF laws inv] by simp
  next
    case (step_global_err xs k a ys e st')
    then show ?thesis using budget_inv_drop [OF inv] by simp
  next
    case (step_client_ok xs k a ys p st')
    then show ?thesis using budget_inv_client_ok [OF laws inv] by simp
  next
    case (step_client_err xs k a ys e st')
    then show ?thesis using budget_inv_client_err [OF laws inv] by simp
  next
    case (step_release xs k p ys)
    then show ?thesis using budget_inv_release [OF laws inv] by simp
  next
    case (step_close xs k p ys)
    then show ?thesis using budget_inv_close [OF laws inv] by simp
  next
    case step_cleanup
    then show ?thesis using budget_inv_cleanup [OF inv] by simp
  qed
  then show "lawful_inv ops mg mc t" using laws mg mc by (simp add: lawful_inv_def)
qed

section \<open>Properties\<close>

definition live_of :: "'s budget_system \<Rightarrow> string \<Rightarrow> nat" where
  "live_of s k = length (filter (\<lambda>x. fst x = k) (bs_live s))"

lemma filter_count_le:
  assumes "\<And>x. x \<in> set xs \<Longrightarrow> P x \<Longrightarrow> f x = a"
  shows "length (filter P xs) \<le> count_list (map f xs) a"
  using assms by (induction xs) (auto intro: le_SucI)

lemma count_list_map_filter: "count_list (map f xs) a = length (filter (\<lambda>x. f x = a) xs)"
  by (induction xs) auto

lemma active_streams_count:
  assumes "budget_inv ops mg mc s"
  shows "unat (active_streams ops (bs_limits s)) = length (bs_live s) + length (bs_global s)"
proof -
  note le = budget_invD(9) [OF assms]
  have "sem_available ops (sl_global (bs_limits s)) \<le> unat mg" using le by linarith
  from unat_sub_of_nat [OF this] le show ?thesis
    by (simp add: active_streams_def budget_invD(2) [OF assms])
qed

lemma users_of_key:
  assumes inv: "budget_inv ops mg mc s" and g: "hm_get (sl_per_client (bs_limits s)) k = Some a"
  shows "count_list (map snd (users s)) a = length (filter (\<lambda>u. fst u = k) (users s))"
proof -
  have "snd u = a \<longleftrightarrow> fst u = k" if "u \<in> set (users s)" for u
  proof -
    have "(fst u, snd u) \<in> set (holders s)" using that by (simp add: holders_def)
    from budget_invD(6) [OF inv this] g budget_invD(5) [OF inv] show ?thesis
      by (metis option.inject)
  qed
  then have "filter (\<lambda>u. snd u = a) (users s) = filter (\<lambda>u. fst u = k) (users s)"
    by (rule filter_cong [OF refl])
  then show ?thesis by (simp add: count_list_map_filter)
qed

lemma live_of_users:
  assumes "budget_inv ops mg mc s" and "hm_get (sl_per_client (bs_limits s)) k = Some a"
  shows "live_of s k \<le> count_list (map snd (users s)) a"
proof -
  have "(snd \<circ> owner) x = a" if "x \<in> set (bs_live s)" "fst x = k" for x
  proof -
    have "(k, permit_client (snd x)) \<in> set (holders s)"
      using that by (auto simp: holder_defs)
    from budget_invD(6) [OF assms(1) this] assms(2) show ?thesis by (simp add: owner_def)
  qed
  then have "live_of s k \<le> count_list (map (snd \<circ> owner) (bs_live s)) a"
    unfolding live_of_def by (intro filter_count_le) auto
  then show ?thesis by (simp add: users_def)
qed


text \<open>C6: under every interleaving of requests, releases and cleanups, no client holds more live
  streams than its budget and all clients together hold no more than the global budget; two
  requests or permits of one client always share one semaphore, which is the one in the map, so
  a cleanup between them cannot mint a second budget.\<close>

theorem stream_budget_holds:
  assumes "reach (budget_start ops mg mc) (budget_step ops) s"
  shows "live_of s k \<le> unat mc \<and> length (bs_live s) \<le> unat mg
    \<and> ((k, a) \<in> set (holders s) \<longrightarrow> hm_get (sl_per_client (bs_limits s)) k = Some a)"
proof -
  from budget_sys.reach_inv [OF assms] have inv: "budget_inv ops mg mc s" by (simp add: lawful_inv_def)
  have "live_of s k \<le> unat mc"
  proof (cases "hm_get (sl_per_client (bs_limits s)) k")
    case None
    have "x \<notin> set (bs_live s)" if "fst x = k" for x
    proof
      assume "x \<in> set (bs_live s)"
      then have "(k, permit_client (snd x)) \<in> set (holders s)" using that by (auto simp: holder_defs)
      from budget_invD(6) [OF inv this] None show False by simp
    qed
    then have "live_of s k = 0" by (auto simp: live_of_def filter_empty_conv)
    then show ?thesis by simp
  next
    case (Some b)
    from live_of_users [OF inv Some] budget_invD(8) [OF inv Some] show ?thesis by linarith
  qed
  moreover have "length (bs_live s) \<le> unat mg" using budget_invD(9) [OF inv] by linarith
  ultimately show ?thesis using budget_invD(6) [OF inv] by blast
qed

text \<open>The gauges are exact in every reachable state: \<open>active_streams\<close> counts the live streams
  and the requests that already hold the global slot, \<open>active_streams_for\<close> the slots of the
  client, and neither subtraction wraps.\<close>

theorem stream_gauges_exact:
  assumes "reach (budget_start ops mg mc) (budget_step ops) s"
  shows "unat (active_streams ops (bs_limits s)) = length (bs_live s) + length (bs_global s)
    \<and> unat (active_streams_for ops (bs_limits s) k) =
        length (filter (\<lambda>u. fst u = k) (users s))"
proof -
  from budget_sys.reach_inv [OF assms] have inv: "budget_inv ops mg mc s" by (simp add: lawful_inv_def)
  note g = active_streams_count [OF inv]
  have "unat (active_streams_for ops (bs_limits s) k) = length (filter (\<lambda>u. fst u = k) (users s))"
  proof (cases "hm_get (sl_per_client (bs_limits s)) k")
    case None
    have "u \<notin> set (users s)" if "fst u = k" for u
    proof
      assume "u \<in> set (users s)"
      then have "(k, snd u) \<in> set (holders s)" using that by (auto simp: holders_def)
      from budget_invD(6) [OF inv this] None show False by simp
    qed
    then have "filter (\<lambda>u. fst u = k) (users s) = []" by (auto simp: filter_empty_conv)
    then show ?thesis by (simp add: active_streams_for_def None)
  next
    case (Some a)
    note users_of_key [OF inv Some]
    moreover have "sem_available ops (sl_sems (bs_limits s) a) \<le> unat mc"
      using budget_invD(8) [OF inv Some] by linarith
    ultimately show ?thesis
      using unat_sub_of_nat [of "sem_available ops (sl_sems (bs_limits s) a)" mc] budget_invD(8) [OF inv Some]
      by (simp add: active_streams_for_def Some budget_invD(3) [OF inv])
  qed
  with g show ?thesis by simp
qed

text \<open>Once no request is under way and no stream is open, a cleanup empties the map: it removes
  every tracked client, and the gauges are back at zero.\<close>

theorem cleanup_restores_baseline:
  assumes "reach (budget_start ops mg mc) (budget_step ops) s" and "holders s = []"
  shows "cleanup_idle ops (bs_limits s) = (tracked_clients (bs_limits s), snd (cleanup_idle ops (bs_limits s)))
    \<and> tracked_clients (snd (cleanup_idle ops (bs_limits s))) = 0
    \<and> idle_clients ops (bs_limits s) = tracked_clients (bs_limits s)
    \<and> active_streams ops (bs_limits s) = 0"
proof -
  let ?st = "bs_limits s"
  from budget_sys.reach_inv [OF assms(1)] have inv: "budget_inv ops mg mc s" by (simp add: lawful_inv_def)
  have idle: "is_idle ops ?st a" if "(k, a) \<in> set (hm_entries (sl_per_client ?st))" for k a
  proof -
    have g: "hm_get (sl_per_client ?st) k = Some a"
      using that hm_entries_get [OF budget_invD(1) [OF inv]] by simp
    have "users s = []" using assms(2) by (simp add: holders_def)
    then show ?thesis
      using budget_invD(7,8) [OF inv g] assms(2) budget_invD(3) [OF inv] by (simp add: is_idle_def)
  qed
  then have "hm_retain (\<lambda>_ a. \<not> is_idle ops ?st a) (sl_per_client ?st) = []"
    by (auto simp: hm_retain_def hm_entries_def filter_empty_conv)
  moreover have "filter (\<lambda>(_, a). is_idle ops ?st a) (hm_entries (sl_per_client ?st)) = hm_entries (sl_per_client ?st)"
    using idle by (auto intro: filter_True)
  moreover have "active_streams ops ?st = 0"
  proof -
    have "length (bs_live s) + length (bs_global s) = 0" using assms(2) by (simp add: holders_def users_def)
    with active_streams_count [OF inv] have "unat (active_streams ops ?st) = 0" by simp
    then show ?thesis by (simp add: unat_eq_0)
  qed
  ultimately show ?thesis
    by (simp add: cleanup_idle_def Let_def tracked_clients_def idle_clients_def hm_len_def hm_entries_def)
qed

section \<open>One acquire on its own\<close>

lemma acquire_step_path:
  "(budget_step ops)\<^sup>*\<^sup>* s
     (case acquire ops k (bs_limits s) of
        (Inl e, st') \<Rightarrow> s\<lparr>bs_limits := st'\<rparr>
      | (Inr p, st') \<Rightarrow> s\<lparr>bs_limits := st', bs_live := (k, p) # bs_live s\<rparr>)"
proof -
  obtain a st1 where l: "lookup_client ops k (bs_limits s) = (a, st1)" by force
  obtain r st2 where g: "acquire_global ops a st1 = (r, st2)" by force
  let ?s1 = "s\<lparr>bs_limits := st1, bs_looked := (k, a) # bs_looked s\<rparr>"
  have 1: "budget_step ops s ?s1" by (rule step_lookup [OF l]) simp
  show ?thesis
  proof (cases r)
    case (Inl e)
    have "budget_step ops ?s1 (s\<lparr>bs_limits := st2\<rparr>)"
      by (rule step_global_err [where xs = "[]" and k = k and a = a and ys = "bs_looked s" and e = e])
        (use g Inl in simp_all)
    with 1 show ?thesis using l g Inl by (simp add: acquire_def)
  next
    case (Inr u)
    let ?s2 = "s\<lparr>bs_limits := st2, bs_global := (k, a) # bs_global s\<rparr>"
    have 2: "budget_step ops ?s1 ?s2"
      by (rule step_global_ok [where xs = "[]" and k = k and a = a and ys = "bs_looked s" and u = u])
        (use g Inr in simp_all)
    obtain q st3 where c: "acquire_client ops a st2 = (q, st3)" by force
    have 3: "budget_step ops ?s2
        (case q of Inl e \<Rightarrow> s\<lparr>bs_limits := st3\<rparr>
         | Inr p \<Rightarrow> s\<lparr>bs_limits := st3, bs_live := (k, p) # bs_live s\<rparr>)"
    proof (cases q)
      case (Inl e)
      show ?thesis
        by (rule step_client_err [where xs = "[]" and k = k and a = a and ys = "bs_global s" and e = e])
          (use c Inl in simp_all)
    next
      case (Inr p)
      show ?thesis
        by (rule step_client_ok [where xs = "[]" and k = k and a = a and ys = "bs_global s" and p = p])
          (use c Inr in simp_all)
    qed
    from 1 2 3 have "(budget_step ops)\<^sup>*\<^sup>* s
        (case q of Inl e \<Rightarrow> s\<lparr>bs_limits := st3\<rparr>
         | Inr p \<Rightarrow> s\<lparr>bs_limits := st3, bs_live := (k, p) # bs_live s\<rparr>)"
      by (meson converse_rtranclp_into_rtranclp r_into_rtranclp)
    then show ?thesis using l g Inr c by (cases q) (simp_all add: acquire_def)
  qed
qed

text \<open>A call of \<open>acquire\<close> that is not interrupted is one of the interleavings: the sequential
  function is a path of lookups and acquisitions, and a failed call leaves the permits alone.\<close>

theorem acquire_refines_steps:
  "(budget_step ops)\<^sup>*\<^sup>* s
     (case acquire ops k (bs_limits s) of
        (Inl e, st') \<Rightarrow> s\<lparr>bs_limits := st'\<rparr>
      | (Inr p, st') \<Rightarrow> s\<lparr>bs_limits := st', bs_live := (k, p) # bs_live s\<rparr>)"
  by (rule acquire_step_path)

text \<open>In a reachable state, an uninterrupted \<open>acquire\<close> fails with the global error exactly when
  the global slots are all taken, else with the client error exactly when the client's slots are
  all taken, and else returns a permit of the semaphore that the map holds for the client.\<close>

theorem acquire_result:
  assumes "reach (budget_start ops mg mc) (budget_step ops) s"
  shows "case acquire ops k (bs_limits s) of
     (Inl Global_Limit_Reached, st') \<Rightarrow> length (bs_live s) + length (bs_global s) = unat mg
   | (Inl Client_Limit_Reached, st') \<Rightarrow> length (bs_live s) + length (bs_global s) < unat mg
       \<and> length (filter (\<lambda>u. fst u = k) (users s)) = unat mc
   | (Inr p, st') \<Rightarrow> length (bs_live s) + length (bs_global s) < unat mg
       \<and> length (filter (\<lambda>u. fst u = k) (users s)) < unat mc
       \<and> hm_get (sl_per_client st') k = Some (permit_client p)"
proof -
  from budget_sys.reach_inv [OF assms] have laws: "semaphore_laws ops" and mc: "unat mc \<le> sem_max ops"
    and inv: "budget_inv ops mg mc s" by (simp_all add: lawful_inv_def)
  obtain a st1 where l: "lookup_client ops k (bs_limits s) = (a, st1)" by force
  define t where "t = s\<lparr>bs_limits := st1, bs_looked := (k, a) # bs_looked s\<rparr>"
  have it: "budget_inv ops mg mc t" unfolding t_def by (rule budget_inv_lookup [OF laws mc inv l])
  have t: "bs_limits t = st1" "users t = users s" "bs_live t = bs_live s" "bs_global t = bs_global s"
    by (simp_all add: t_def users_def)
  have "(k, a) \<in> set (holders t)" by (simp add: t_def holders_def)
  from budget_invD(6) [OF it this] have g: "hm_get (sl_per_client st1) k = Some a" by (simp add: t)
  have glob: "sem_available ops (sl_global st1) + length (bs_global s) + length (bs_live s) = unat mg"
    using budget_invD(9) [OF it] by (simp add: t)
  have cli: "sem_available ops (sl_sems st1 a) + length (filter (\<lambda>u. fst u = k) (users s)) = unat mc"
    using budget_invD(8) [OF it, of k a] users_of_key [OF it, of k a] g by (simp add: t)
  show ?thesis
  proof (cases "sem_try_acquire ops (sl_global st1)")
    case None
    then have "sem_available ops (sl_global st1) = 0" using sem_laws(2) [OF laws] by blast
    with None glob show ?thesis by (simp add: acquire_def l acquire_global_def)
  next
    case (Some b)
    then have pos: "length (bs_live s) + length (bs_global s) < unat mg"
      using glob sem_laws(3) [OF laws Some] by linarith
    show ?thesis
    proof (cases "sem_try_acquire ops (sl_sems st1 a)")
      case None
      then have "sem_available ops (sl_sems st1 a) = 0" using sem_laws(2) [OF laws] by blast
      with None Some pos cli show ?thesis
        by (simp add: acquire_def l acquire_global_def acquire_client_def Let_def)
    next
      case (Some c)
      with \<open>sem_try_acquire ops (sl_global st1) = Some b\<close> show ?thesis
        using pos cli g sem_laws(3) [OF laws Some]
        by (simp add: acquire_def l acquire_global_def acquire_client_def Let_def)
    qed
  qed
qed

section \<open>Witnesses\<close>

definition demo_budget :: "nat budget_system" where
  "demo_budget = \<lparr>bs_limits = stream_limits_new counter_ops 10 2, bs_looked = [], bs_global = [],
     bs_live = [], bs_closing = []\<rparr>"

definition demo_busy :: "nat budget_system" where
  "demo_busy = (case acquire counter_ops ''cert-a'' (bs_limits demo_budget) of
     (Inl e, st') \<Rightarrow> demo_budget\<lparr>bs_limits := st'\<rparr>
   | (Inr p, st') \<Rightarrow> demo_budget\<lparr>bs_limits := st', bs_live := (''cert-a'', p) # bs_live demo_budget\<rparr>)"

lemma demo_budget_reach: "reach (budget_start counter_ops 10 2) (budget_step counter_ops) demo_budget"
  by (rule reach_init) (simp add: budget_start_def budget_init_def demo_budget_def counter_laws
      counter_ops_def [THEN arg_cong [of _ _ sem_max]])

lemma demo_busy_reach: "reach (budget_start counter_ops 10 2) (budget_step counter_ops) demo_busy"
proof -
  have "(budget_step counter_ops)\<^sup>*\<^sup>* demo_budget demo_busy"
    unfolding demo_busy_def by (rule acquire_step_path)
  with demo_budget_reach show ?thesis by (rule reach_steps)
qed

lemma stream_budget_holds_witness: "live_of demo_busy ''cert-a'' \<le> unat (2 :: usize)"
  using stream_budget_holds [OF demo_busy_reach] by blast

lemma stream_gauges_exact_witness: "unat (active_streams counter_ops (bs_limits demo_busy)) = 1"
  using stream_gauges_exact [OF demo_busy_reach]
  by (simp add: demo_busy_def demo_budget_def acquire_def lookup_client_def stream_limits_new_def
      hmap_simps Let_def acquire_global_def acquire_client_def counter_ops_def add_strong_def)

lemma cleanup_restores_baseline_witness:
  "tracked_clients (snd (cleanup_idle counter_ops (bs_limits demo_budget))) = 0"
  using cleanup_restores_baseline [OF demo_budget_reach]
  by (simp add: demo_budget_def holder_defs)

lemma acquire_result_witness: "fst (acquire counter_ops ''cert-b'' (bs_limits demo_busy)) \<noteq> Inl Global_Limit_Reached"
  using acquire_result [OF demo_busy_reach, of "''cert-b''"]
  by (auto simp: demo_busy_def demo_budget_def acquire_def lookup_client_def stream_limits_new_def
      hmap_simps Let_def acquire_global_def acquire_client_def counter_ops_def add_strong_def)

end
