(* ===== verification/Node_Service.thy ===== *)
theory Node_Service
  imports Router_Eviction Budget_Properties Grpc_Layers
begin

text \<open>
  The service behind the layers (\<open>grpc/node_service.rs\<close>, \<open>domain/invoice/create.rs\<close>,
  \<open>domain/invoice/xpay.rs\<close>, \<open>domain/info/getinfo.rs\<close>): the unary calls that pass a request to the
  node, and the streaming calls, which take a stream slot, may call the node, subscribe to a
  topic of the router and spawn a task. The calls of the node's client, SHA-256 and the \<open>hex\<close>
  crate are parameters. The tasks run in their own step relation (\<open>Service_System\<close>).
\<close>

section \<open>Unary calls\<close>

text \<open>A call of the node's client: \<open>None\<close> is the error of the transport or of the node, whose text
  the server only logs.\<close>

type_synonym ('q, 'a, 'n) node_call = "'q \<Rightarrow> 'n \<Rightarrow> 'a option \<times> 'n"

definition create_invoice ::
  "(invoice_request, invoice_response, 'n) node_call \<Rightarrow> invoice_request \<Rightarrow> 'n
     \<Rightarrow> (status + invoice_response) \<times> 'n" where
  "create_invoice call req n =
     (let cln_request = \<lparr>ir_description = ir_description req, ir_label = ir_label req,
            ir_fallbacks = ir_fallbacks req, ir_preimage = ir_preimage req, ir_cltv = ir_cltv req,
            ir_expiry = ir_expiry req, ir_exposeprivatechannels = ir_exposeprivatechannels req,
            ir_deschashonly = ir_deschashonly req, ir_amount_msat = ir_amount_msat req\<rparr>
      in case call cln_request n of
           (None, n') \<Rightarrow> (Inl (internal_error ''Internal error''), n')
         | (Some cln_res, n') \<Rightarrow>
             (Inr \<lparr>ip_bolt11 = ip_bolt11 cln_res, ip_payment_hash = ip_payment_hash cln_res,
                ip_payment_secret = ip_payment_secret cln_res, ip_expires_at = ip_expires_at cln_res,
                ip_warning_capacity = ip_warning_capacity cln_res,
                ip_warning_offline = ip_warning_offline cln_res,
                ip_warning_deadends = ip_warning_deadends cln_res,
                ip_warning_private_unused = ip_warning_private_unused cln_res,
                ip_warning_mpp = ip_warning_mpp cln_res,
                ip_created_index = ip_created_index cln_res\<rparr>, n'))"

definition xpay ::
  "(xpay_request, xpay_response, 'n) node_call \<Rightarrow> xpay_request \<Rightarrow> 'n \<Rightarrow> (status + xpay_response) \<times> 'n"
where
  "xpay call req n =
     (case call req n of
        (None, n') \<Rightarrow> (Inl (internal_error ''Internal error''), n')
      | (Some cln_res, n') \<Rightarrow>
          (Inr \<lparr>xp_payment_preimage = xp_payment_preimage cln_res, xp_failed_parts = xp_failed_parts cln_res,
             xp_successful_parts = xp_successful_parts cln_res, xp_amount_msat = xp_amount_msat cln_res,
             xp_amount_sent_msat = xp_amount_sent_msat cln_res\<rparr>, n'))"

definition get_info ::
  "(unit, ('addr, 'bind, 'feat) getinfo_response, 'n) node_call \<Rightarrow> unit \<Rightarrow> 'n
     \<Rightarrow> (status + ('addr, 'bind, 'feat) getinfo_response) \<times> 'n" where
  "get_info call req n =
     (case call req n of
        (None, n') \<Rightarrow> (Inl (internal_error ''Internal error''), n')
      | (Some cln_res, n') \<Rightarrow>
          (Inr \<lparr>gi_id = gi_id cln_res, gi_alias = gi_alias cln_res, gi_color = gi_color cln_res,
             gi_num_peers = gi_num_peers cln_res,
             gi_num_pending_channels = gi_num_pending_channels cln_res,
             gi_num_active_channels = gi_num_active_channels cln_res,
             gi_num_inactive_channels = gi_num_inactive_channels cln_res,
             gi_version = gi_version cln_res, gi_lightning_dir = gi_lightning_dir cln_res,
             gi_our_features = gi_our_features cln_res, gi_blockheight = gi_blockheight cln_res,
             gi_network = gi_network cln_res, gi_fees_collected_msat = gi_fees_collected_msat cln_res,
             gi_address = gi_address cln_res, gi_binding = gi_binding cln_res,
             gi_warning_bitcoind_sync = gi_warning_bitcoind_sync cln_res,
             gi_warning_lightningd_sync = gi_warning_lightningd_sync cln_res\<rparr>, n'))"

section \<open>The state of the service\<close>

text \<open>What a spawned task does with the events of its subscription.\<close>

datatype stream_plan =
    Forward
  | Await_Invoice string proto_event
  | Await_Payment string

text \<open>A task owns its permit; \<open>st_key\<close> is the fingerprint the permit was acquired for.\<close>

record stream_task =
  st_key :: string
  st_permit :: stream_permit
  st_topic :: string
  st_sub :: string
  st_channel :: nat
  st_plan :: stream_plan

record ('s, 'n) api_service =
  api_router :: event_router
  api_streams :: "'s stream_limits"
  api_counter :: u64
  api_channels :: nat
  api_node :: 'n
  api_tasks :: "stream_task list"

definition next_subscriber_id :: "('s, 'n) api_service \<Rightarrow> string \<times> ('s, 'n) api_service" where
  "next_subscriber_id st = (''sub-'' @ fmt_word (api_counter st), st\<lparr>api_counter := api_counter st + 1\<rparr>)"

definition subscribe_status :: "subscribe_error \<Rightarrow> status" where
  "subscribe_status err = resource_exhausted (case err of
     GlobalLimit \<Rightarrow> ''Too many active subscribers (global limit reached)''
   | TypeLimit \<Rightarrow> ''Too many active subscribers for this event type'')"

definition stream_status :: "stream_error \<Rightarrow> status" where
  "stream_status err = resource_exhausted (case err of
     Global_Limit_Reached \<Rightarrow> ''Too many active streams (global limit reached)''
   | Client_Limit_Reached \<Rightarrow> ''Too many active streams for this client'')"

section \<open>Opening a stream\<close>

definition acquire_stream ::
  "'s semaphore_ops \<Rightarrow> client_identity option \<Rightarrow> ('s, 'n) api_service
     \<Rightarrow> (status + string \<times> stream_permit) \<times> ('s, 'n) api_service" where
  "acquire_stream ops ident st =
     (case ident of
        None \<Rightarrow> (Inl (unauthenticated ''Client certificate required''), st)
      | Some i \<Rightarrow>
          (case acquire ops (fingerprint_sha256 i) (api_streams st) of
             (Inl e, sl) \<Rightarrow> (Inl (stream_status e), st\<lparr>api_streams := sl\<rparr>)
           | (Inr p, sl) \<Rightarrow> (Inr (fingerprint_sha256 i, p), st\<lparr>api_streams := sl\<rparr>)))"

text \<open>An early return drops the permit.\<close>

definition drop_permit ::
  "'s semaphore_ops \<Rightarrow> string \<times> stream_permit \<Rightarrow> ('s, 'n) api_service \<Rightarrow> ('s, 'n) api_service" where
  "drop_permit ops kp st = st\<lparr>api_streams := release_permit ops (snd kp) (api_streams st)\<rparr>"

text \<open>The second half of every streaming call: new channels, a fresh subscriber id, \<open>subscribe\<close>, and
  the task that takes the permit. The reply stands for the response stream of the task.\<close>

definition attach ::
  "'s semaphore_ops \<Rightarrow> string \<times> stream_permit \<Rightarrow> string \<Rightarrow> stream_plan \<Rightarrow> ('s, 'n) api_service
     \<Rightarrow> (status + string) \<times> ('s, 'n) api_service" where
  "attach ops kp topic plan st =
     (let h = api_channels st;
          (i, st1) = next_subscriber_id (st\<lparr>api_channels := Suc h\<rparr>);
          (res, r) = subscribe (api_router st1) topic i h;
          st2 = st1\<lparr>api_router := r\<rparr>
      in case res of
           Inl e \<Rightarrow> (Inl (subscribe_status e), drop_permit ops kp st2)
         | Inr _ \<Rightarrow> (Inr i, st2\<lparr>api_tasks := \<lparr>st_key = fst kp, st_permit = snd kp, st_topic = topic,
             st_sub = i, st_channel = h, st_plan = plan\<rparr> # api_tasks st2\<rparr>))"

definition open_watch ::
  "'s semaphore_ops \<Rightarrow> string \<Rightarrow> client_identity option \<Rightarrow> ('s, 'n) api_service
     \<Rightarrow> (status + string) \<times> ('s, 'n) api_service" where
  "open_watch ops topic ident st =
     (case acquire_stream ops ident st of
        (Inl e, st1) \<Rightarrow> (Inl e, st1)
      | (Inr kp, st1) \<Rightarrow> attach ops kp topic Forward st1)"

definition xpay_stream :: "'s semaphore_ops \<Rightarrow> client_identity option \<Rightarrow> ('s, 'n) api_service
    \<Rightarrow> (status + string) \<times> ('s, 'n) api_service" where
  "xpay_stream ops = open_watch ops ''payment''"

definition invoice_watch :: "'s semaphore_ops \<Rightarrow> client_identity option \<Rightarrow> ('s, 'n) api_service
    \<Rightarrow> (status + string) \<times> ('s, 'n) api_service" where
  "invoice_watch ops = open_watch ops ''invoice''"

definition watch_channels :: "'s semaphore_ops \<Rightarrow> client_identity option \<Rightarrow> ('s, 'n) api_service
    \<Rightarrow> (status + string) \<times> ('s, 'n) api_service" where
  "watch_channels ops = open_watch ops ''channel''"

definition watch_peers :: "'s semaphore_ops \<Rightarrow> client_identity option \<Rightarrow> ('s, 'n) api_service
    \<Rightarrow> (status + string) \<times> ('s, 'n) api_service" where
  "watch_peers ops = open_watch ops ''peer''"

definition watch_system :: "'s semaphore_ops \<Rightarrow> client_identity option \<Rightarrow> ('s, 'n) api_service
    \<Rightarrow> (status + string) \<times> ('s, 'n) api_service" where
  "watch_system ops = open_watch ops ''system''"

text \<open>The event sent first on an invoice stream, built from the request and the node's answer at
  the time \<open>now\<close>; the second form is the code's fallback for a failed conversion.\<close>

definition created_of :: "i64 \<Rightarrow> invoice_request \<Rightarrow> string \<Rightarrow> event" where
  "created_of now req bolt11 = Invoice (Created (''cln-inv-stream-'' @ ir_label req) now (ir_label req)
     (case Option.bind (ir_amount_msat req) id of Some (Amount m) \<Rightarrow> Some m | _ \<Rightarrow> None)
     (ir_description req) bolt11 (ir_expiry req))"

definition proto_created_of :: "i64 \<Rightarrow> invoice_request \<Rightarrow> string \<Rightarrow> proto_event" where
  "proto_created_of now req bolt11 =
     (case invoice_to_proto_event (created_of now req bolt11) of
        Some p \<Rightarrow> p
      | None \<Rightarrow> InvoiceCreated (''cln-inv-stream-'' @ ir_label req) now (ir_label req)
          (case Option.bind (ir_amount_msat req) id of Some (Amount m) \<Rightarrow> Some m | _ \<Rightarrow> None)
          (ir_description req) bolt11 '''' (ir_expiry req))"

definition invoice_stream ::
  "'s semaphore_ops \<Rightarrow> (invoice_request, invoice_response, 'n) node_call \<Rightarrow> i64
     \<Rightarrow> client_identity option \<Rightarrow> invoice_request \<Rightarrow> ('s, 'n) api_service
     \<Rightarrow> (status + string) \<times> ('s, 'n) api_service" where
  "invoice_stream ops call now ident req st =
     (case acquire_stream ops ident st of
        (Inl e, st1) \<Rightarrow> (Inl e, st1)
      | (Inr kp, st1) \<Rightarrow>
          (case create_invoice call req (api_node st1) of
             (Inl e, n) \<Rightarrow> (Inl e, drop_permit ops kp (st1\<lparr>api_node := n\<rparr>))
           | (Inr cln_res, n) \<Rightarrow>
               attach ops kp ''invoice''
                 (Await_Invoice (ir_label req) (proto_created_of now req (ip_bolt11 cln_res)))
                 (st1\<lparr>api_node := n\<rparr>)))"

record crypto =
  sha256 :: "bytes \<Rightarrow> bytes"
  hex_encode :: "bytes \<Rightarrow> string"
  hex_decode :: "bytes \<Rightarrow> bytes option"

definition xpay_stream_watch ::
  "'s semaphore_ops \<Rightarrow> crypto \<Rightarrow> (xpay_request, xpay_response, 'n) node_call
     \<Rightarrow> client_identity option \<Rightarrow> xpay_request \<Rightarrow> ('s, 'n) api_service
     \<Rightarrow> (status + string) \<times> ('s, 'n) api_service" where
  "xpay_stream_watch ops c call ident req st =
     (case acquire_stream ops ident st of
        (Inl e, st1) \<Rightarrow> (Inl e, st1)
      | (Inr kp, st1) \<Rightarrow>
          (case xpay call req (api_node st1) of
             (Inl e, n) \<Rightarrow> (Inl e, drop_permit ops kp (st1\<lparr>api_node := n\<rparr>))
           | (Inr cln_res, n) \<Rightarrow>
               (case hex_decode c (xp_payment_preimage cln_res) of
                  None \<Rightarrow> (Inl (internal_error ''Internal error''), drop_permit ops kp (st1\<lparr>api_node := n\<rparr>))
                | Some preimage_bytes \<Rightarrow>
                    attach ops kp ''payment'' (Await_Payment (hex_encode c (sha256 c preimage_bytes)))
                      (st1\<lparr>api_node := n\<rparr>))))"

section \<open>The tasks\<close>

text \<open>
  A task is fed the events that \<open>next_event_or_cancel\<close> returns before its first \<open>None\<close> (the client
  has gone or the router dropped the subscription), each with the success of a send made for
  it. The result is what the client is sent.
\<close>

fun forward_run :: "(event \<Rightarrow> proto_event option) \<Rightarrow> (event \<times> bool) list \<Rightarrow> proto_event list" where
  "forward_run conv [] = []"
| "forward_run conv ((e, ok) # es) =
     (case conv e of
        None \<Rightarrow> forward_run conv es
      | Some p \<Rightarrow> if ok then p # forward_run conv es else [])"

definition paid_for :: "string \<Rightarrow> event \<Rightarrow> bool" where
  "paid_for label e = (case e of Invoice (Paid _ _ l _ _) \<Rightarrow> l = label | _ \<Rightarrow> False)"

definition payment_ended :: "string \<Rightarrow> event \<Rightarrow> bool" where
  "payment_ended hash e = (case e of
     Payment (Succeeded _ _ h _ _ _ _ _) \<Rightarrow> h = hash | Payment (Failed _ _ h _ _ _) \<Rightarrow> h = hash | _ \<Rightarrow> False)"

fun await_run :: "(event \<Rightarrow> bool) \<Rightarrow> (event \<Rightarrow> proto_event option) \<Rightarrow> (event \<times> bool) list \<Rightarrow> proto_event list" where
  "await_run match_event conv [] = []"
| "await_run match_event conv ((e, ok) # es) =
     (if match_event e then (case conv e of Some p \<Rightarrow> if ok then [p] else [] | None \<Rightarrow> [])
      else await_run match_event conv es)"

text \<open>\<open>first_ok\<close> is the success of the send that precedes the loop of an invoice stream.\<close>

definition task_run :: "stream_task \<Rightarrow> bool \<Rightarrow> (event \<times> bool) list \<Rightarrow> proto_event list" where
  "task_run t first_ok es =
     (case st_plan t of
        Forward \<Rightarrow> forward_run (converter (st_topic t)) es
      | Await_Invoice label created \<Rightarrow>
          if first_ok then created # await_run (paid_for label) invoice_to_proto_event es else []
      | Await_Payment hash \<Rightarrow> await_run (payment_ended hash) payment_to_proto_event es)"

text \<open>However a task ends, it unsubscribes and then drops its permit.\<close>

definition finish_task :: "'s semaphore_ops \<Rightarrow> stream_task \<Rightarrow> ('s, 'n) api_service \<Rightarrow> ('s, 'n) api_service" where
  "finish_task ops t st =
     drop_permit ops (st_key t, st_permit t)
       (st\<lparr>api_router := unsubscribe (api_router st) (st_topic t) (st_sub t),
           api_tasks := remove1 t (api_tasks st)\<rparr>)"

end
