(* ===== verification/Service_System.thy ===== *)
theory Service_System
  imports Node_Service "HOL-Library.Multiset"
begin

text \<open>
  The service under concurrency: requests between their stream slot and their subscription, tasks
  that run and end, the dispatches of the router and the cleanup of the stream budget interleave.
  The invariant ties the stream slots and the subscriptions to the tasks that own them.
\<close>

section \<open>Interleavings\<close>

text \<open>\<open>ss_pending\<close>: the requests that hold a slot while they wait for the node or for the router.
  \<open>ss_opened\<close> counts the subscriber ids handed out; it is not part of the program.\<close>

record ('s, 'n) service_system =
  ss_api :: "('s, 'n) api_service"
  ss_pending :: "(string \<times> stream_permit) list"
  ss_opened :: nat

text \<open>The router moves by its own operations; a dispatch is its three parts, with whatever snapshot
  it started from.\<close>

inductive dispatch_part :: "event_router \<Rightarrow> event_router \<Rightarrow> bool" where
  part_begin: "dispatch_part r (bump_dispatched r)"
| part_deliver: "account sub res (r, rm) = (r', rm') \<Longrightarrow> dispatch_part r r'"
| part_finish: "dispatch_part r (remove_failed r topic rm)"

inductive service_step ::
  "'s semaphore_ops \<Rightarrow> ('s, 'n) service_system \<Rightarrow> ('s, 'n) service_system \<Rightarrow> bool"
  for ops :: "'s semaphore_ops" where
  step_slot:
    "acquire ops key (api_streams (ss_api s)) = (Inr p, sl) \<Longrightarrow>
     t = s\<lparr>ss_api := (ss_api s)\<lparr>api_streams := sl\<rparr>, ss_pending := (key, p) # ss_pending s\<rparr> \<Longrightarrow>
     service_step ops s t"
| step_no_slot:
    "acquire ops key (api_streams (ss_api s)) = (Inl e, sl) \<Longrightarrow>
     t = s\<lparr>ss_api := (ss_api s)\<lparr>api_streams := sl\<rparr>\<rparr> \<Longrightarrow> service_step ops s t"
| step_node:
    "t = s\<lparr>ss_api := (ss_api s)\<lparr>api_node := n\<rparr>\<rparr> \<Longrightarrow> service_step ops s t"
| step_attach:
    "ss_pending s = xs @ kp # ys \<Longrightarrow> attach ops kp topic plan (ss_api s) = (res, api) \<Longrightarrow>
     t = s\<lparr>ss_api := api, ss_pending := xs @ ys, ss_opened := Suc (ss_opened s)\<rparr> \<Longrightarrow>
     service_step ops s t"
| step_give_up:
    "ss_pending s = xs @ kp # ys \<Longrightarrow>
     t = s\<lparr>ss_api := drop_permit ops kp (ss_api s), ss_pending := xs @ ys\<rparr> \<Longrightarrow>
     service_step ops s t"
| step_task_end:
    "task \<in> set (api_tasks (ss_api s)) \<Longrightarrow>
     t = s\<lparr>ss_api := finish_task ops task (ss_api s)\<rparr> \<Longrightarrow> service_step ops s t"
| step_dispatch:
    "dispatch_part (api_router (ss_api s)) r \<Longrightarrow>
     t = s\<lparr>ss_api := (ss_api s)\<lparr>api_router := r\<rparr>\<rparr> \<Longrightarrow> service_step ops s t"
| step_cleanup_clients:
    "t = s\<lparr>ss_api := (ss_api s)\<lparr>api_streams := snd (cleanup_idle ops (api_streams (ss_api s)))\<rparr>\<rparr> \<Longrightarrow>
     service_step ops s t"

definition service_init ::
  "'s semaphore_ops \<Rightarrow> usize \<Rightarrow> usize \<Rightarrow> router_limits \<Rightarrow> ('s, 'n) service_system \<Rightarrow> bool" where
  "service_init ops mg mc rl s \<longleftrightarrow> semaphore_laws ops \<and> unat mg \<le> sem_max ops \<and> unat mc \<le> sem_max ops
     \<and> api_router (ss_api s) = with_limits rl \<and> api_streams (ss_api s) = stream_limits_new ops mg mc
     \<and> api_counter (ss_api s) = 1 \<and> api_tasks (ss_api s) = [] \<and> ss_pending s = [] \<and> ss_opened s = 0"

section \<open>The invariant\<close>

text \<open>The stream budget as its own system sees it: the pending requests and the tasks hold the live
  permits, and no request is inside \<open>acquire\<close>.\<close>

definition task_permit :: "stream_task \<Rightarrow> string \<times> stream_permit" where
  "task_permit t = (st_key t, st_permit t)"

definition budget_view :: "('s, 'n) api_service \<Rightarrow> (string \<times> stream_permit) list \<Rightarrow> 's budget_system" where
  "budget_view st pend = \<lparr>bs_limits = api_streams st, bs_looked = [], bs_global = [],
     bs_live = pend @ map task_permit (api_tasks st), bs_closing = []\<rparr>"

definition sub_name :: "nat \<Rightarrow> string" where
  "sub_name n = ''sub-'' @ fmt_word (of_nat n + 1 :: u64)"

text \<open>Every subscription belongs to a task, and as long as the id counter has not wrapped every task
  has an id of its own.\<close>

definition owned :: "('s, 'n) api_service \<Rightarrow> bool" where
  "owned st \<longleftrightarrow> (\<forall>topic. \<forall>s \<in> set (topic_list (api_router st) topic).
     \<exists>t \<in> set (api_tasks st). st_topic t = topic \<and> st_sub t = sub_id s \<and> st_channel t = sub_sender s)"

definition ids_ok :: "nat \<Rightarrow> ('s, 'n) api_service \<Rightarrow> bool" where
  "ids_ok n st \<longleftrightarrow> api_counter st = of_nat n + 1 \<and> distinct (map st_sub (api_tasks st))
     \<and> (\<forall>t \<in> set (api_tasks st). \<exists>k < n. st_sub t = sub_name k)"

definition service_inv ::
  "'s semaphore_ops \<Rightarrow> usize \<Rightarrow> usize \<Rightarrow> ('s, 'n) service_system \<Rightarrow> bool" where
  "service_inv ops mg mc s \<longleftrightarrow> lawful_inv ops mg mc (budget_view (ss_api s) (ss_pending s))
     \<and> router_inv (api_router (ss_api s)) \<and> owned (ss_api s)
     \<and> (ss_opened s < 2 ^ 64 \<longrightarrow> ids_ok (ss_opened s) (ss_api s))"

lemma sub_name_inj:
  assumes "m < 2 ^ 64" and "n < 2 ^ 64" and "sub_name m = sub_name n"
  shows "m = n"
proof -
  from assms(3) have "(of_nat m + 1 :: u64) = of_nat n + 1"
    unfolding sub_name_def by (blast dest: fmt_word_inj same_append_eq [THEN iffD1])
  then have "(of_nat m :: u64) = of_nat n" by simp
  then have "unat (of_nat m :: u64) = unat (of_nat n :: u64)" by (rule arg_cong)
  then show ?thesis using assms(1,2) by simp
qed

section \<open>The stream budget\<close>

lemma budget_inv_perm:
  assumes "budget_inv ops mg mc s" and "mset (bs_live t) = mset (bs_live s)"
    and "bs_limits t = bs_limits s" "bs_looked t = bs_looked s" "bs_global t = bs_global s"
      "bs_closing t = bs_closing s"
  shows "budget_inv ops mg mc t"
proof -
  have m: "mset (map snd (map owner (bs_live t))) = mset (map snd (map owner (bs_live s)))"
    using assms(2) by (metis mset_map)
  have "mset (map snd (users t)) = mset (map snd (users s))"
    "mset (map snd (holders t)) = mset (map snd (holders s))"
    using m assms(3-) by (simp_all add: users_def holders_def)
  then have "count_list (map snd (users t)) a = count_list (map snd (users s)) a"
    "count_list (map snd (holders t)) a = count_list (map snd (holders s)) a" for a
    by (metis count_mset)+
  moreover have "set (holders t) = set (holders s)"
    using assms(4-) mset_eq_setD [OF assms(2)] by (simp add: holders_def users_def)
  moreover have "length (bs_live t) = length (bs_live s)" using assms(2) by (metis size_mset)
  ultimately show ?thesis using assms(1,3-) by (simp add: budget_inv_def)
qed

lemma lawful_perm:
  assumes "lawful_inv ops mg mc (budget_view st pend)" and "api_streams st' = api_streams st"
    and "mset (pend' @ map task_permit (api_tasks st')) = mset (pend @ map task_permit (api_tasks st))"
  shows "lawful_inv ops mg mc (budget_view st' pend')"
  using assms by (auto simp: lawful_inv_def budget_view_def intro: budget_inv_perm)

lemma release_path:
  assumes "bs_live s = xs @ (k, p) # ys" and "bs_closing s = []"
  shows "(budget_step ops)\<^sup>*\<^sup>* s (s\<lparr>bs_limits := release_permit ops p (bs_limits s), bs_live := xs @ ys\<rparr>)"
proof -
  let ?s1 = "s\<lparr>bs_limits := release_global ops (bs_limits s), bs_live := xs @ ys, bs_closing := [(k, p)]\<rparr>"
  have "budget_step ops s ?s1" by (rule step_release [OF assms(1)]) (simp add: assms(2))
  moreover have "budget_step ops ?s1 (?s1\<lparr>bs_limits := release_client ops p (bs_limits ?s1), bs_closing := []\<rparr>)"
    by (rule step_close [where xs = "[]" and ys = "[]" and k = k and p = p]) simp_all
  moreover have "?s1\<lparr>bs_limits := release_client ops p (bs_limits ?s1), bs_closing := []\<rparr> =
      s\<lparr>bs_limits := release_permit ops p (bs_limits s), bs_live := xs @ ys\<rparr>"
    using assms(2) by (cases s) (simp add: release_permit_def)
  ultimately show ?thesis by (metis converse_rtranclp_into_rtranclp rtranclp.rtrancl_refl)
qed

lemma lawful_acquire:
  assumes inv: "lawful_inv ops mg mc (budget_view st pend)"
  shows "case acquire ops key (api_streams st) of
     (Inl e, sl) \<Rightarrow> lawful_inv ops mg mc (budget_view (st\<lparr>api_streams := sl\<rparr>) pend)
   | (Inr p, sl) \<Rightarrow> lawful_inv ops mg mc (budget_view (st\<lparr>api_streams := sl\<rparr>) ((key, p) # pend))"
  using budget_sys.steps_inv [OF inv acquire_step_path [of ops "budget_view st pend" key]]
  by (auto simp: budget_view_def split: prod.split sum.split)

lemma lawful_release:
  assumes inv: "lawful_inv ops mg mc (budget_view st pend)"
    and live: "mset (pend @ map task_permit (api_tasks st)) =
      add_mset kp (mset (pend' @ map task_permit (api_tasks st')))"
    and "api_streams st' = api_streams st"
  shows "lawful_inv ops mg mc (budget_view (drop_permit ops kp st') pend')"
proof -
  let ?s = "(budget_view st pend)\<lparr>bs_live := kp # pend' @ map task_permit (api_tasks st')\<rparr>"
  have "lawful_inv ops mg mc ?s"
    using inv live by (auto simp: lawful_inv_def budget_view_def intro: budget_inv_perm)
  from budget_sys.steps_inv [OF this release_path [of ?s "[]" "fst kp" "snd kp"]] assms(3)
  show ?thesis by (simp add: budget_view_def drop_permit_def)
qed

lemma lawful_cleanup:
  assumes "lawful_inv ops mg mc (budget_view st pend)"
  shows "lawful_inv ops mg mc (budget_view (st\<lparr>api_streams := snd (cleanup_idle ops (api_streams st))\<rparr>) pend)"
proof -
  have "budget_step ops (budget_view st pend)
      (budget_view (st\<lparr>api_streams := snd (cleanup_idle ops (api_streams st))\<rparr>) pend)"
    by (rule step_cleanup) (simp add: budget_view_def)
  with budget_sys.inv_step [OF assms] show ?thesis .
qed

section \<open>Subscriptions and ids\<close>

lemma owned_mono:
  assumes "owned st" and "\<And>topic. set (topic_list (api_router st') topic) \<subseteq> set (topic_list (api_router st) topic)"
    and "set (api_tasks st) \<subseteq> set (api_tasks st')"
  shows "owned st'"
  using assms unfolding owned_def by (meson subsetD)

lemma dispatch_part_router:
  assumes "dispatch_part r r'"
  shows "router_inv r \<Longrightarrow> router_inv r'" and "set (topic_list r' topic) \<subseteq> set (topic_list r topic)"
  using assms
  by (auto elim!: dispatch_part.cases simp: topic_list_remove_failed topic_list_shape [OF account_shape]
      topic_list_shape [OF bump_shape(1)] split: if_splits
      intro: router_inv_remove_failed same_shape_inv [OF _ bump_shape(1)] same_shape_inv [OF _ account_shape])

lemma subscribe_cases:
  obtains e where "subscribe r topic i h = (Inl e, r)" | r' where "subscribe r topic i h = (Inr (), r')"
proof -
  have "(\<exists>e. subscribe r topic i h = (Inl e, r)) \<or> (\<exists>r'. subscribe r topic i h = (Inr (), r'))"
    by (simp add: subscribe_def Let_def)
  with that show thesis by blast
qed

lemma attach_cases:
  assumes "attach ops kp topic plan st = (res, st')"
  obtains e where "res = Inl (subscribe_status e)"
      "subscribe (api_router st) topic (''sub-'' @ fmt_word (api_counter st)) (api_channels st) = (Inl e, api_router st)"
      "st' = drop_permit ops kp (st\<lparr>api_channels := Suc (api_channels st), api_counter := api_counter st + 1\<rparr>)"
  | r where "res = Inr (''sub-'' @ fmt_word (api_counter st))"
      "subscribe (api_router st) topic (''sub-'' @ fmt_word (api_counter st)) (api_channels st) = (Inr (), r)"
      "st' = st\<lparr>api_router := r, api_counter := api_counter st + 1, api_channels := Suc (api_channels st),
         api_tasks := \<lparr>st_key = fst kp, st_permit = snd kp, st_topic = topic,
           st_sub = ''sub-'' @ fmt_word (api_counter st), st_channel = api_channels st, st_plan = plan\<rparr>
           # api_tasks st\<rparr>"
proof (cases rule: subscribe_cases [of "api_router st" topic "''sub-'' @ fmt_word (api_counter st)" "api_channels st"])
  case (1 e)
  then show ?thesis using assms
    by (intro that(1) [of e]) (auto simp: attach_def next_subscriber_id_def Let_def)
next
  case (2 r)
  then show ?thesis using assms
    by (intro that(2) [of r]) (auto simp: attach_def next_subscriber_id_def Let_def)
qed

lemma router_inv_attach:
  assumes "router_inv (api_router st)" and "attach ops kp topic plan st = (res, st')"
  shows "router_inv (api_router st')"
  using assms(2)
proof (cases rule: attach_cases)
  case (2 r)
  with router_inv_subscribe [OF assms(1), of topic "''sub-'' @ fmt_word (api_counter st)" "api_channels st"]
  show ?thesis by simp
qed (use assms(1) in \<open>simp add: drop_permit_def\<close>)

lemma owned_attach:
  assumes "owned st" and "attach ops kp topic plan st = (res, st')"
  shows "owned st'"
  using assms(2)
proof (cases rule: attach_cases)
  case (1 e)
  then show ?thesis by (intro owned_mono [OF assms(1)]) (simp_all add: drop_permit_def)
next
  case (2 r)
  then show ?thesis using assms(1) by (auto simp: owned_def topic_list_subscribe [OF 2(2)] split: if_splits)
qed

lemma ids_ok_attach:
  assumes "ids_ok n st" and "attach ops kp topic plan st = (res, st')" and "Suc n < 2 ^ 64"
  shows "ids_ok (Suc n) st'"
proof -
  have cnt: "api_counter st = of_nat n + 1" and dist: "distinct (map st_sub (api_tasks st))"
    and old: "\<And>t. t \<in> set (api_tasks st) \<Longrightarrow> \<exists>k < n. st_sub t = sub_name k"
    using assms(1) by (auto simp: ids_ok_def)
  have fresh: "sub_name n \<noteq> st_sub t" if "t \<in> set (api_tasks st)" for t
  proof
    assume "sub_name n = st_sub t"
    moreover obtain k where "k < n" "st_sub t = sub_name k" using old \<open>t \<in> set (api_tasks st)\<close> by blast
    ultimately show False using sub_name_inj [of n k] assms(3) by simp
  qed
  have still: "\<exists>k < Suc n. st_sub t = sub_name k" if "t \<in> set (api_tasks st)" for t
    using old [OF that] less_SucI by blast
  have new: "''sub-'' @ fmt_word (api_counter st) = sub_name n" by (simp add: sub_name_def cnt)
  have count: "api_counter st + 1 = of_nat (Suc n) + 1" by (simp add: cnt)
  from assms(2) show ?thesis
  proof (cases rule: attach_cases)
    case (1 e)
    then show ?thesis using count dist still by (simp add: ids_ok_def drop_permit_def)
  next
    case (2 r)
    then show ?thesis using count dist still fresh unfolding new
      by (auto simp: ids_ok_def)
  qed
qed

lemma owned_finish:
  assumes "owned st"
  shows "owned (finish_task ops t st)"
  unfolding owned_def
proof (intro allI ballI)
  fix topic s assume s: "s \<in> set (topic_list (api_router (finish_task ops t st)) topic)"
  then have "s \<in> set (topic_list (api_router st) topic)" "topic = st_topic t \<Longrightarrow> sub_id s \<noteq> st_sub t"
    by (auto simp: finish_task_def drop_permit_def topic_list_unsubscribe split: if_splits)
  moreover from this(1) assms obtain u where
    "u \<in> set (api_tasks st)" "st_topic u = topic" "st_sub u = sub_id s" "st_channel u = sub_sender s"
    unfolding owned_def by blast
  moreover from calculation have "u \<noteq> t" by auto
  ultimately show "\<exists>u \<in> set (api_tasks (finish_task ops t st)). st_topic u = topic \<and> st_sub u = sub_id s
      \<and> st_channel u = sub_sender s"
    by (intro bexI [of _ u]) (auto simp: finish_task_def drop_permit_def)
qed

lemma distinct_map_remove1: "distinct (map f xs) \<Longrightarrow> distinct (map f (remove1 x xs))"
  by (induction xs) (auto dest: set_remove1_subset [THEN subsetD])

lemma ids_ok_finish:
  assumes "ids_ok n st"
  shows "ids_ok n (finish_task ops t st)"
proof -
  have "distinct (map st_sub (remove1 t (api_tasks st)))"
    using assms by (simp add: ids_ok_def distinct_map_remove1)
  then show ?thesis using assms set_remove1_subset [of t "api_tasks st"]
    by (auto simp: ids_ok_def finish_task_def drop_permit_def)
qed

section \<open>Every step keeps the invariant\<close>

lemma lawful_attach:
  assumes "lawful_inv ops mg mc (budget_view st (xs @ kp # ys))" and "attach ops kp topic plan st = (res, st')"
  shows "lawful_inv ops mg mc (budget_view st' (xs @ ys))"
  using assms(2)
proof (cases rule: attach_cases)
  case (1 e)
  show ?thesis unfolding 1(3) by (rule lawful_release [OF assms(1)]) simp_all
next
  case (2 r)
  show ?thesis unfolding 2(3) by (rule lawful_perm [OF assms(1)]) (simp_all add: task_permit_def)
qed

lemma lawful_finish:
  assumes "lawful_inv ops mg mc (budget_view st pend)" and "t \<in> set (api_tasks st)"
  shows "lawful_inv ops mg mc (budget_view (finish_task ops t st) pend)"
proof -
  have "mset (api_tasks st) = add_mset t (mset (remove1 t (api_tasks st)))" using assms(2) by simp
  then have "image_mset task_permit (mset (api_tasks st)) =
      add_mset (task_permit t) (image_mset task_permit (mset (remove1 t (api_tasks st))))"
    by (metis image_mset_add_mset)
  then show ?thesis unfolding finish_task_def task_permit_def [symmetric]
    by (intro lawful_release [OF assms(1)]) simp_all
qed

lemma topic_list_with_limits: "topic_list (with_limits rl) topic = []"
  by (simp add: topic_list_def with_limits_def hmap_simps)

interpretation service_sys: guarded_system "service_init ops mg mc rl" "service_step ops"
    "service_inv ops mg mc"
  for ops :: "'s semaphore_ops" and mg mc :: usize and rl :: router_limits
proof unfold_locales
  fix s :: "('s, 'n) service_system" assume init: "service_init ops mg mc rl s"
  then have "budget_view (ss_api s) (ss_pending s) =
      \<lparr>bs_limits = stream_limits_new ops mg mc, bs_looked = [], bs_global = [], bs_live = [], bs_closing = []\<rparr>"
    by (simp add: service_init_def budget_view_def)
  then have "budget_start ops mg mc (budget_view (ss_api s) (ss_pending s))"
    using init by (simp add: service_init_def budget_start_def budget_init_def)
  then show "service_inv ops mg mc s"
    using init budget_sys.inv_init [of ops mg mc] topic_list_with_limits [of rl]
    by (simp add: service_inv_def service_init_def router_inv_with_limits owned_def ids_ok_def)
next
  fix s t :: "('s, 'n) service_system" assume inv: "service_inv ops mg mc s" and step: "service_step ops s t"
  let ?st = "ss_api s"
  have b: "lawful_inv ops mg mc (budget_view ?st (ss_pending s))" and r: "router_inv (api_router ?st)"
    and o: "owned ?st" and i: "ss_opened s < 2 ^ 64 \<Longrightarrow> ids_ok (ss_opened s) ?st"
    using inv by (auto simp: service_inv_def)
  have same: "service_inv ops mg mc (s\<lparr>ss_api := st', ss_pending := pend\<rparr>)"
    if "lawful_inv ops mg mc (budget_view st' pend)" "api_router st' = api_router ?st"
      "api_tasks st' = api_tasks ?st" "api_counter st' = api_counter ?st" for st' pend
    using that r o i by (simp add: service_inv_def owned_def ids_ok_def)
  from step show "service_inv ops mg mc t"
  proof (cases rule: service_step.cases)
    case (step_slot key p sl)
    with lawful_acquire [OF b, of key] show ?thesis by (auto intro: same)
  next
    case (step_no_slot key e sl)
    with lawful_acquire [OF b, of key] show ?thesis
      using same [of "?st\<lparr>api_streams := sl\<rparr>" "ss_pending s"] by auto
  next
    case (step_node n)
    have "budget_view (?st\<lparr>api_node := n\<rparr>) (ss_pending s) = budget_view ?st (ss_pending s)"
      by (simp add: budget_view_def)
    then show ?thesis using same [of "?st\<lparr>api_node := n\<rparr>" "ss_pending s"] b step_node by simp
  next
    case (step_attach xs kp ys topic plan res api)
    then show ?thesis
      using lawful_attach [OF b [unfolded step_attach(1)] step_attach(2)] router_inv_attach [OF r step_attach(2)]
        owned_attach [OF o step_attach(2)] ids_ok_attach [OF i step_attach(2)]
      by (simp add: service_inv_def)
  next
    case (step_give_up xs kp ys)
    have "lawful_inv ops mg mc (budget_view (drop_permit ops kp ?st) (xs @ ys))"
      by (rule lawful_release [OF b]) (simp_all add: step_give_up(1))
    then show ?thesis unfolding step_give_up(2) by (rule same) (simp_all add: drop_permit_def)
  next
    case (step_task_end task)
    then show ?thesis
      using lawful_finish [OF b step_task_end(1)] owned_finish [OF o, of ops task] ids_ok_finish [OF i, of ops task]
        router_inv_unsubscribe [OF r, of "st_topic task" "st_sub task"]
      by (simp add: service_inv_def finish_task_def drop_permit_def)
  next
    case (step_dispatch r')
    have "budget_view (?st\<lparr>api_router := r'\<rparr>) (ss_pending s) = budget_view ?st (ss_pending s)"
      by (simp add: budget_view_def)
    moreover have "owned (?st\<lparr>api_router := r'\<rparr>)"
      using dispatch_part_router(2) [OF step_dispatch(1)] by (intro owned_mono [OF o]) simp_all
    ultimately show ?thesis using step_dispatch b i dispatch_part_router(1) [OF step_dispatch(1) r]
      by (simp add: service_inv_def ids_ok_def)
  next
    case step_cleanup_clients
    then show ?thesis using same [OF lawful_cleanup [OF b]] by simp
  qed
qed

end
