(* ===== verification/Service_Properties.thy ===== *)
theory Service_Properties
  imports Service_System
begin

text \<open>
  What the service promises: slots and subscriptions follow the tasks, a rejected stream leaves no
  trace, the order of slot, node call and subscription, what each stream sends, and that the
  unary calls copy requests and answers unchanged.
\<close>

section \<open>Slots and subscriptions\<close>

lemma service_reach:
  assumes "reach (service_init ops mg mc rl) (service_step ops) s"
  shows "budget_inv ops mg mc (budget_view (ss_api s) (ss_pending s))" and "router_inv (api_router (ss_api s))"
    and "owned (ss_api s)" and "ss_opened s < 2 ^ 64 \<Longrightarrow> ids_ok (ss_opened s) (ss_api s)"
  using service_sys.reach_inv [OF assms] by (auto simp: service_inv_def lawful_inv_def)

lemma service_gauge:
  assumes "reach (service_init ops mg mc rl) (service_step ops) s"
  shows "unat (active_streams ops (api_streams (ss_api s))) = length (ss_pending s) + length (api_tasks (ss_api s))"
  using active_streams_count [OF service_reach(1) [OF assms]] by (simp add: budget_view_def)

lemma total_subscribers_zero:
  assumes "hm_wf (subscribers r)" and "\<And>topic. topic_list r topic = []"
  shows "total_subscribers r = 0"
proof -
  have "l = []" if "(k, l) \<in> set (hm_entries (subscribers r))" for k l
    using assms(2) [of k] hm_entries_get [OF assms(1)] that by (simp add: topic_list_def)
  then show ?thesis by (auto simp: total_subscribers_def)
qed

text \<open>C7: under every interleaving of requests, tasks, dispatches and cleanups the stream gauge is the
  number of pending requests and tasks, every subscription belongs to a task on its topic with
  its channel, and when the last task has ended the router holds no subscription.\<close>

theorem streams_never_leak:
  assumes "reach (service_init ops mg mc rl) (service_step ops) s"
  shows "unat (active_streams ops (api_streams (ss_api s))) = length (ss_pending s) + length (api_tasks (ss_api s))
    \<and> (x \<in> set (topic_list (api_router (ss_api s)) topic) \<longrightarrow>
        (\<exists>t \<in> set (api_tasks (ss_api s)). st_topic t = topic \<and> st_sub t = sub_id x \<and> st_channel t = sub_sender x))
    \<and> (api_tasks (ss_api s) = [] \<longrightarrow> total_subscribers (api_router (ss_api s)) = 0)"
proof (intro conjI impI)
  note inv = service_reach [OF assms]
  show "\<exists>t \<in> set (api_tasks (ss_api s)). st_topic t = topic \<and> st_sub t = sub_id x \<and> st_channel t = sub_sender x"
    if "x \<in> set (topic_list (api_router (ss_api s)) topic)"
    using that inv(3) by (auto simp: owned_def)
  show "total_subscribers (api_router (ss_api s)) = 0" if none: "api_tasks (ss_api s) = []"
  proof (rule total_subscribers_zero [OF router_invD(1) [OF inv(2)]])
    fix topic'
    have "set (topic_list (api_router (ss_api s)) topic') = {}"
      using inv(3) none by (fastforce simp: owned_def)
    then show "topic_list (api_router (ss_api s)) topic' = []" by simp
  qed
qed (rule service_gauge [OF assms])

text \<open>Ending one task removes its own subscription and frees its slot, and leaves the
  subscriptions of every other task alone, as long as the id counter has not wrapped.\<close>

theorem ending_a_task_is_local:
  assumes "reach (service_init ops mg mc rl) (service_step ops) s" and "ss_opened s < 2 ^ 64"
    and "t \<in> set (api_tasks (ss_api s))"
  defines "st' \<equiv> finish_task ops t (ss_api s)"
  shows "sub_id ` set (topic_list (api_router st') (st_topic t)) \<inter> {st_sub t} = {}
    \<and> unat (active_streams ops (api_streams st')) + 1 = unat (active_streams ops (api_streams (ss_api s)))
    \<and> (\<forall>u \<in> set (api_tasks (ss_api s)). u \<noteq> t \<longrightarrow>
        filter (\<lambda>x. sub_id x = st_sub u) (topic_list (api_router st') topic) =
        filter (\<lambda>x. sub_id x = st_sub u) (topic_list (api_router (ss_api s)) topic))"
proof (intro conjI ballI impI)
  have lists: "topic_list (api_router st') topic = (if topic = st_topic t
      then filter (\<lambda>x. sub_id x \<noteq> st_sub t) (topic_list (api_router (ss_api s)) topic)
      else topic_list (api_router (ss_api s)) topic)" for topic
    by (simp add: st'_def finish_task_def drop_permit_def topic_list_unsubscribe)
  show "sub_id ` set (topic_list (api_router st') (st_topic t)) \<inter> {st_sub t} = {}"
    by (auto simp: lists)
  have "service_step ops s (s\<lparr>ss_api := st'\<rparr>)"
    unfolding st'_def by (rule step_task_end [OF assms(3)]) simp
  with assms(1) have "reach (service_init ops mg mc rl) (service_step ops) (s\<lparr>ss_api := st'\<rparr>)"
    by (rule reach_step)
  from service_gauge [OF this] service_gauge [OF assms(1)] length_pos_if_in_set [OF assms(3)]
  show "unat (active_streams ops (api_streams st')) + 1 = unat (active_streams ops (api_streams (ss_api s)))"
    by (simp add: st'_def finish_task_def drop_permit_def length_remove1 assms(3))
  fix u assume u: "u \<in> set (api_tasks (ss_api s))" "u \<noteq> t"
  have "inj_on st_sub (set (api_tasks (ss_api s)))"
    using service_reach(4) [OF assms(1,2)] by (simp add: ids_ok_def distinct_map)
  with u assms(3) have "st_sub u \<noteq> st_sub t" by (auto dest: inj_onD)
  then show "filter (\<lambda>x. sub_id x = st_sub u) (topic_list (api_router st') topic) =
      filter (\<lambda>x. sub_id x = st_sub u) (topic_list (api_router (ss_api s)) topic)"
    by (auto simp: lists intro!: filter_cong)
qed

section \<open>The handlers are paths of the system\<close>




text \<open>Every streaming call has the shape of this function of the state after its slot.\<close>

definition slot_handler :: "'s semaphore_ops \<Rightarrow> client_identity option
    \<Rightarrow> (('s, 'n) api_service \<Rightarrow> (status + string) \<times> ('s, 'n) api_service) \<Rightarrow> bool" where
  "slot_handler ops ident f \<longleftrightarrow> (\<exists>g.
     (\<forall>st. f st = (case acquire_stream ops ident st of
        (Inl e, st1) \<Rightarrow> (Inl e, st1)
      | (Inr kp, st1) \<Rightarrow> g kp st1))
   \<and> (\<forall>kp st. \<exists>plan e n. g kp st = (case plan of
        None \<Rightarrow> (Inl e, drop_permit ops kp (st\<lparr>api_node := n\<rparr>))
      | Some (topic, p) \<Rightarrow> attach ops kp topic p (st\<lparr>api_node := n\<rparr>))))"

lemma slot_handlerI:
  assumes "\<And>st. f st = (case acquire_stream ops ident st of
      (Inl e, st1) \<Rightarrow> (Inl e, st1)
    | (Inr kp, st1) \<Rightarrow> g kp st1)"
    and "\<And>kp st. \<exists>plan e n. g kp st = (case plan of None \<Rightarrow> (Inl e, drop_permit ops kp (st\<lparr>api_node := n\<rparr>))
       | Some (topic, p) \<Rightarrow> attach ops kp topic p (st\<lparr>api_node := n\<rparr>))"
  shows "slot_handler ops ident f"
  using assms unfolding slot_handler_def by (intro exI [of _ g]) blast


lemma open_watch_slot: "slot_handler ops ident (open_watch ops topic ident)"
proof (rule slot_handlerI)
  show "open_watch ops topic ident st = (case acquire_stream ops ident st of
      (Inl e, st1) \<Rightarrow> (Inl e, st1) | (Inr kp, st1) \<Rightarrow> attach ops kp topic Forward st1)" for st
    by (simp add: open_watch_def)
  show "\<exists>plan e n. attach ops kp topic Forward st = (case plan of
      None \<Rightarrow> (Inl e, drop_permit ops kp (st\<lparr>api_node := n\<rparr>))
    | Some (topic, p) \<Rightarrow> attach ops kp topic p (st\<lparr>api_node := n\<rparr>))" for kp and st :: "('a, 'b) api_service"
    by (intro exI [of _ "Some (topic, Forward)"] exI [of _ undefined] exI [of _ "api_node st"]) simp
qed

lemma invoice_stream_slot: "slot_handler ops ident (invoice_stream ops call now ident req)"
proof (rule slot_handlerI)
  let ?g = "\<lambda>kp st1. case create_invoice call req (api_node st1) of
       (Inl e, n) \<Rightarrow> (Inl e, drop_permit ops kp (st1\<lparr>api_node := n\<rparr>))
     | (Inr cln_res, n) \<Rightarrow> attach ops kp ''invoice''
         (Await_Invoice (ir_label req) (proto_created_of now req (ip_bolt11 cln_res))) (st1\<lparr>api_node := n\<rparr>)"
  show "invoice_stream ops call now ident req st = (case acquire_stream ops ident st of
      (Inl e, st1) \<Rightarrow> (Inl e, st1) | (Inr kp, st1) \<Rightarrow> ?g kp st1)" for st
    by (simp add: invoice_stream_def)
  fix kp and st :: "('a, 'b) api_service"
  obtain r n where c: "create_invoice call req (api_node st) = (r, n)" by force
  show "\<exists>plan e n. ?g kp st = (case plan of
      None \<Rightarrow> (Inl e, drop_permit ops kp (st\<lparr>api_node := n\<rparr>))
    | Some (topic, p) \<Rightarrow> attach ops kp topic p (st\<lparr>api_node := n\<rparr>))"
  proof (cases r)
    case (Inl e)
    then show ?thesis by (intro exI [of _ None] exI [of _ e] exI [of _ n]) (simp add: c)
  next
    case (Inr res)
    then show ?thesis
      by (intro exI [of _ "Some (''invoice'', Await_Invoice (ir_label req) (proto_created_of now req (ip_bolt11 res)))"]
          exI [of _ undefined] exI [of _ n]) (simp add: c)
  qed
qed

lemma xpay_stream_watch_slot: "slot_handler ops ident (xpay_stream_watch ops c call ident req)"
proof (rule slot_handlerI)
  let ?g = "\<lambda>kp st1. case xpay call req (api_node st1) of
       (Inl e, n) \<Rightarrow> (Inl e, drop_permit ops kp (st1\<lparr>api_node := n\<rparr>))
     | (Inr cln_res, n) \<Rightarrow>
         (case hex_decode c (xp_payment_preimage cln_res) of
            None \<Rightarrow> (Inl (internal_error ''Internal error''), drop_permit ops kp (st1\<lparr>api_node := n\<rparr>))
          | Some b \<Rightarrow> attach ops kp ''payment'' (Await_Payment (hex_encode c (sha256 c b))) (st1\<lparr>api_node := n\<rparr>))"
  show "xpay_stream_watch ops c call ident req st = (case acquire_stream ops ident st of
      (Inl e, st1) \<Rightarrow> (Inl e, st1) | (Inr kp, st1) \<Rightarrow> ?g kp st1)" for st
    by (simp add: xpay_stream_watch_def)
  fix kp and st :: "('a, 'b) api_service"
  obtain r n where x: "xpay call req (api_node st) = (r, n)" by force
  show "\<exists>plan e n. ?g kp st = (case plan of
      None \<Rightarrow> (Inl e, drop_permit ops kp (st\<lparr>api_node := n\<rparr>))
    | Some (topic, p) \<Rightarrow> attach ops kp topic p (st\<lparr>api_node := n\<rparr>))"
  proof (cases "\<exists>res b. r = Inr res \<and> hex_decode c (xp_payment_preimage res) = Some b")
    case True
    then obtain res b where "r = Inr res" "hex_decode c (xp_payment_preimage res) = Some b" by blast
    then show ?thesis
      by (intro exI [of _ "Some (''payment'', Await_Payment (hex_encode c (sha256 c b)))"]
          exI [of _ undefined] exI [of _ n]) (simp add: x)
  next
    case False
    then obtain e where "?g kp st = (Inl e, drop_permit ops kp (st\<lparr>api_node := n\<rparr>))"
      by (cases r) (auto simp: x split: option.split)
    then show ?thesis by (intro exI [of _ None] exI [of _ e] exI [of _ n]) simp
  qed
qed


section \<open>Rejected streams\<close>

lemma same_gauge:
  assumes "lawful_inv ops mg mc (budget_view st pend)" and "lawful_inv ops mg mc (budget_view st' pend)"
    and "api_tasks st' = api_tasks st"
  shows "active_streams ops (api_streams st') = active_streams ops (api_streams st)"
  using assms active_streams_count [of ops mg mc "budget_view st pend"]
    active_streams_count [of ops mg mc "budget_view st' pend"]
  by (simp add: lawful_inv_def budget_view_def word_unat_eq_iff)

lemma slot_handler_reject:
  assumes h: "slot_handler ops ident f" and inv: "lawful_inv ops mg mc (budget_view st pend)"
    and rej: "f st = (Inl e, st')"
  shows "api_router st' = api_router st \<and> api_tasks st' = api_tasks st
    \<and> active_streams ops (api_streams st') = active_streams ops (api_streams st)"
proof -
  from h obtain g where shape:
    "\<And>st. f st = (case acquire_stream ops ident st of (Inl e, st1) \<Rightarrow> (Inl e, st1) | (Inr kp, st1) \<Rightarrow> g kp st1)"
    "\<And>kp st. \<exists>plan e n. g kp st = (case plan of None \<Rightarrow> (Inl e, drop_permit ops kp (st\<lparr>api_node := n\<rparr>))
       | Some (topic, p) \<Rightarrow> attach ops kp topic p (st\<lparr>api_node := n\<rparr>))"
    unfolding slot_handler_def by blast
  have "api_router st' = api_router st \<and> api_tasks st' = api_tasks st \<and> lawful_inv ops mg mc (budget_view st' pend)"
  proof (cases ident)
    case None
    then show ?thesis using rej inv shape(1) by (simp add: acquire_stream_def)
  next
    case (Some i)
    obtain r sl where acq: "acquire ops (fingerprint_sha256 i) (api_streams st) = (r, sl)" by force
    note after = lawful_acquire [OF inv, of "fingerprint_sha256 i"]
    show ?thesis
    proof (cases r)
      case (Inl e')
      then show ?thesis using rej after shape(1) Some acq by (auto simp: acquire_stream_def)
    next
      case (Inr p)
      let ?kp = "(fingerprint_sha256 i, p)" and ?st = "st\<lparr>api_streams := sl\<rparr>"
      have g: "g ?kp ?st = (Inl e, st')" using rej shape(1) Some acq Inr by (simp add: acquire_stream_def)
      have b: "lawful_inv ops mg mc (budget_view (?st\<lparr>api_node := n\<rparr>) ([] @ ?kp # pend))" for n
        using after acq Inr by (simp add: budget_view_def)
      from shape(2) [of ?kp ?st] obtain plan e' n where
        plan: "g ?kp ?st = (case plan of None \<Rightarrow> (Inl e', drop_permit ops ?kp (?st\<lparr>api_node := n\<rparr>))
         | Some (topic, p) \<Rightarrow> attach ops ?kp topic p (?st\<lparr>api_node := n\<rparr>))" by blast
      show ?thesis
      proof (cases plan)
        case None
        then have st': "st' = drop_permit ops ?kp (?st\<lparr>api_node := n\<rparr>)" using plan g by simp
        show ?thesis unfolding st'
          by (intro conjI lawful_release [OF b]) (simp_all add: drop_permit_def)
      next
        case (Some tp)
        then have at: "attach ops ?kp (fst tp) (snd tp) (?st\<lparr>api_node := n\<rparr>) = (Inl e, st')"
          using plan g by (simp add: split_beta)
        from at have "api_router st' = api_router st \<and> api_tasks st' = api_tasks st"
          by (cases rule: attach_cases) (simp_all add: drop_permit_def)
        with lawful_attach [OF b at] show ?thesis by simp
      qed
    qed
  qed
  with same_gauge [OF inv] show ?thesis by blast
qed

text \<open>C30: a streaming call that answers with an error, for whatever reason, leaves the router's
  subscriptions, the tasks and the stream gauge as it found them.\<close>

theorem rejected_stream_leaves_no_trace:
  assumes "reach (service_init ops mg mc rl) (service_step ops) s"
    and "open_watch ops topic ident (ss_api s) = (Inl e, st')
       \<or> invoice_stream ops call_invoice now ident invoice_req (ss_api s) = (Inl e, st')
       \<or> xpay_stream_watch ops c call_xpay ident xpay_req (ss_api s) = (Inl e, st')"
  shows "api_router st' = api_router (ss_api s) \<and> api_tasks st' = api_tasks (ss_api s)
    \<and> active_streams ops (api_streams st') = active_streams ops (api_streams (ss_api s))"
proof -
  have inv: "lawful_inv ops mg mc (budget_view (ss_api s) (ss_pending s))"
    using service_sys.reach_inv [OF assms(1)] by (simp add: service_inv_def)
  from assms(2) show ?thesis
    using slot_handler_reject [OF open_watch_slot inv] slot_handler_reject [OF invoice_stream_slot inv]
      slot_handler_reject [OF xpay_stream_watch_slot inv] by blast
qed

text \<open>A stream over the limit is refused before anything else happens: neither an invoice is
  created nor a payment made, and no subscription is opened.\<close>

theorem over_limit_never_reaches_node:
  assumes "acquire_stream ops ident st = (Inl e, st')"
  shows "invoice_stream ops call_invoice now ident invoice_req st = (Inl e, st')
    \<and> xpay_stream_watch ops c call_xpay ident xpay_req st = (Inl e, st')
    \<and> open_watch ops topic ident st = (Inl e, st')
    \<and> api_node st' = api_node st \<and> api_router st' = api_router st \<and> api_tasks st' = api_tasks st"
  using assms
  by (auto simp: invoice_stream_def xpay_stream_watch_def open_watch_def acquire_stream_def
      split: option.splits prod.splits sum.splits)

section \<open>A payment whose stream fails\<close>

definition is_hex_byte :: "u8 \<Rightarrow> bool" where
  "is_hex_byte b \<longleftrightarrow> 48 \<le> b \<and> b \<le> 57 \<or> 65 \<le> b \<and> b \<le> 70 \<or> 97 \<le> b \<and> b \<le> 102"

text \<open>C33: \<open>xpay_stream_watch\<close> hex-decodes the preimage of the node's answer, which is the raw 32 bytes;
  \<open>hex::decode\<close> only accepts hexadecimal digits, so as soon as one byte is not the code of such a
  digit the caller gets "Internal error" although the payment has been made.\<close>

theorem xpay_stream_watch_raw_preimage:
  assumes "\<forall>b. hex_decode c b \<noteq> None \<longrightarrow> list_all is_hex_byte b"
    and "acquire_stream ops ident st = (Inr kp, st1)" and "call xpay_req (api_node st1) = (Some res, n)"
    and "\<not> list_all is_hex_byte (xp_payment_preimage res)"
  shows "xpay_stream_watch ops c call ident xpay_req st =
    (Inl (internal_error ''Internal error''), drop_permit ops kp (st1\<lparr>api_node := n\<rparr>))"
proof -
  have "hex_decode c (xp_payment_preimage res) = None" using assms(1,4) by blast
  then show ?thesis using assms(2,3) by (simp add: xpay_stream_watch_def xpay_def)
qed

section \<open>What the streams send\<close>

lemma forward_run_takeWhile:
  "forward_run conv es = List.map_filter (\<lambda>(e, _). conv e) (takeWhile (\<lambda>(e, ok). conv e = None \<or> ok) es)"
  by (induction conv es rule: forward_run.induct) (auto simp: map_filter_simps split: option.split)

text \<open>A watch stream sends exactly the conversions of the events it receives, in their order,
  skipping those without one, until the first send that fails.\<close>

theorem watch_stream_output:
  "st_plan t = Forward \<Longrightarrow> task_run t first_ok es =
     List.map_filter (\<lambda>(e, _). converter (st_topic t) e)
       (takeWhile (\<lambda>(e, ok). converter (st_topic t) e = None \<or> ok) es)"
  by (simp add: task_run_def forward_run_takeWhile)

lemma await_run_find:
  "await_run m conv es = (case List.find (\<lambda>(e, _). m e) es of
     Some (e, True) \<Rightarrow> (case conv e of Some p \<Rightarrow> [p] | None \<Rightarrow> []) | _ \<Rightarrow> [])"
  by (induction m conv es rule: await_run.induct) (auto split: option.split bool.split)

lemma paid_for_iff: "paid_for label e \<longleftrightarrow> (\<exists>i ts a h. e = Invoice (Paid i ts label a h))"
  by (auto simp: paid_for_def split: event.splits invoice_event.splits)

lemma payment_ended_iff: "payment_ended hash e \<longleftrightarrow>
    (\<exists>i ts pre a sent node c. e = Payment (Succeeded i ts hash pre a sent node c))
  \<or> (\<exists>i ts a node r. e = Payment (Failed i ts hash a node r))"
  by (auto simp: payment_ended_def split: event.splits payment_event.splits)

lemma find_SomeD: "List.find P xs = Some x \<Longrightarrow> P x \<and> x \<in> set xs"
  by (induction xs) (auto split: if_splits)

text \<open>C34: an invoice stream sends the created event first and then at most one more event, the first
  payment received for its own label; a payment stream sends at most one event, the first success
  or failure received for its own hash.\<close>

theorem await_stream_output:
  assumes "st_plan t = Await_Invoice label created" and "st_plan u = Await_Payment hash"
  shows "task_run t first_ok es = (if first_ok then created # (case List.find (\<lambda>(e, _). paid_for label e) es of
       Some (Invoice (Paid i ts l amount h), True) \<Rightarrow>
         [InvoicePaid i ts label amount h (rec_text (enrich (Invoice (Paid i ts l amount h))))]
     | _ \<Rightarrow> []) else [])
    \<and> task_run u first_ok es = (case List.find (\<lambda>(e, _). payment_ended hash e) es of
       Some (Payment (Succeeded i ts h pre amount sent node c), True) \<Rightarrow>
         [PaymentSucceeded i ts hash amount sent node (rec_text (enrich (Payment (Succeeded i ts h pre amount sent node c))))]
     | Some (Payment (Failed i ts h amount node reason), True) \<Rightarrow>
         [PaymentFailed i ts hash reason amount (rec_text (enrich (Payment (Failed i ts h amount node reason))))]
     | _ \<Rightarrow> [])"
proof (rule conjI)
  show "task_run t first_ok es = (if first_ok then created # (case List.find (\<lambda>(e, _). paid_for label e) es of
       Some (Invoice (Paid i ts l amount h), True) \<Rightarrow>
         [InvoicePaid i ts label amount h (rec_text (enrich (Invoice (Paid i ts l amount h))))]
     | _ \<Rightarrow> []) else [])"
  proof (cases "List.find (\<lambda>(e, _). paid_for label e) es")
    case None
    then show ?thesis by (simp add: task_run_def assms(1) await_run_find)
  next
    case (Some x)
    from find_SomeD [OF this] obtain i ts a h ok where "x = (Invoice (Paid i ts label a h), ok)"
      by (auto simp: paid_for_iff)
    with Some show ?thesis by (cases ok) (simp_all add: task_run_def assms(1) await_run_find Let_def)
  qed
  show "task_run u first_ok es = (case List.find (\<lambda>(e, _). payment_ended hash e) es of
       Some (Payment (Succeeded i ts h pre amount sent node c), True) \<Rightarrow>
         [PaymentSucceeded i ts hash amount sent node (rec_text (enrich (Payment (Succeeded i ts h pre amount sent node c))))]
     | Some (Payment (Failed i ts h amount node reason), True) \<Rightarrow>
         [PaymentFailed i ts hash reason amount (rec_text (enrich (Payment (Failed i ts h amount node reason))))]
     | _ \<Rightarrow> [])"
  proof (cases "List.find (\<lambda>(e, _). payment_ended hash e) es")
    case None
    then show ?thesis by (simp add: task_run_def assms(2) await_run_find)
  next
    case (Some x)
    from find_SomeD [OF this] have "\<exists>ok. (\<exists>i ts pre a sent node c. x = (Payment (Succeeded i ts hash pre a sent node c), ok))
        \<or> (\<exists>i ts a node r. x = (Payment (Failed i ts hash a node r), ok))"
      by (auto simp: payment_ended_iff)
    then obtain ok where "(\<exists>i ts pre a sent node c. x = (Payment (Succeeded i ts hash pre a sent node c), ok))
        \<or> (\<exists>i ts a node r. x = (Payment (Failed i ts hash a node r), ok))" by blast
    with Some show ?thesis by (cases ok) (auto simp: task_run_def assms(2) await_run_find Let_def)
  qed
qed

section \<open>The unary calls\<close>

lemma copies:
  "\<lparr>ir_description = ir_description r, ir_label = ir_label r, ir_fallbacks = ir_fallbacks r,
     ir_preimage = ir_preimage r, ir_cltv = ir_cltv r, ir_expiry = ir_expiry r,
     ir_exposeprivatechannels = ir_exposeprivatechannels r, ir_deschashonly = ir_deschashonly r,
     ir_amount_msat = ir_amount_msat r\<rparr> = r"
  by (cases r) simp

text \<open>The unary calls hand the request to the node and its answer to the client with every field
  unchanged, and answer every failure with the same text, whatever the node reported.\<close>

theorem unary_passthrough:
  "create_invoice call_invoice invoice_req n = map_prod (\<lambda>r. case r of
      None \<Rightarrow> Inl (internal_error ''Internal error'') | Some a \<Rightarrow> Inr a) id (call_invoice invoice_req n)
   \<and> xpay call_xpay xpay_req n = map_prod (\<lambda>r. case r of
      None \<Rightarrow> Inl (internal_error ''Internal error'') | Some a \<Rightarrow> Inr a) id (call_xpay xpay_req n)
   \<and> get_info call_info info_req n = map_prod (\<lambda>r. case r of
      None \<Rightarrow> Inl (internal_error ''Internal error'') | Some a \<Rightarrow> Inr a) id (call_info info_req n)"
proof (intro conjI)
  show "create_invoice call_invoice invoice_req n = map_prod (\<lambda>r. case r of
      None \<Rightarrow> Inl (internal_error ''Internal error'') | Some a \<Rightarrow> Inr a) id (call_invoice invoice_req n)"
    by (auto simp: create_invoice_def copies split: prod.split option.split)
qed (auto simp: xpay_def get_info_def split: prod.split option.split)

section \<open>Witnesses\<close>

definition demo_api :: "(nat, unit) api_service" where
  "demo_api = \<lparr>api_router = with_limits default_router_limits, api_streams = stream_limits_new counter_ops 10 2,
     api_counter = 1, api_channels = 0, api_node = (), api_tasks = []\<rparr>"

definition demo_idle :: "(nat, unit) service_system" where
  "demo_idle = \<lparr>ss_api = demo_api, ss_pending = [], ss_opened = 0\<rparr>"

definition demo_id :: client_identity where
  "demo_id = \<lparr>fingerprint_sha256 = ''f0'', claimed_client_id = None\<rparr>"

text \<open>The system after one \<open>xpay_stream\<close> call.\<close>

definition demo_streaming :: "(nat, unit) service_system" where
  "demo_streaming = demo_idle\<lparr>ss_api := snd (xpay_stream counter_ops (Some demo_id) demo_api), ss_opened := 1\<rparr>"

lemma demo_idle_reach: "reach (service_init counter_ops 10 2 default_router_limits) (service_step counter_ops) demo_idle"
  by (rule reach_init) (simp add: service_init_def demo_idle_def demo_api_def counter_laws
      counter_ops_def [THEN arg_cong [of _ _ sem_max]])

lemma demo_slot: "\<exists>p sl. acquire counter_ops ''f0'' (api_streams demo_api) = (Inr p, sl)"
  by (simp add: demo_api_def acquire_def lookup_client_def stream_limits_new_def hmap_simps Let_def
      acquire_global_def acquire_client_def counter_ops_def add_strong_def)

lemma demo_streaming_reach:
  "reach (service_init counter_ops 10 2 default_router_limits) (service_step counter_ops) demo_streaming"
proof -
  obtain p sl where acq: "acquire counter_ops ''f0'' (api_streams demo_api) = (Inr p, sl)"
    using demo_slot by blast
  let ?s = "demo_idle\<lparr>ss_api := demo_api\<lparr>api_streams := sl\<rparr>, ss_pending := [(''f0'', p)]\<rparr>"
  have "service_step counter_ops demo_idle ?s"
    by (rule step_slot [where key = "''f0''"]) (use acq in \<open>auto simp: demo_idle_def\<close>)
  moreover have "service_step counter_ops ?s demo_streaming"
    by (rule step_attach [where xs = "[]" and ys = "[]" and kp = "(''f0'', p)" and topic = "''payment''"
          and plan = Forward and res = "fst (xpay_stream counter_ops (Some demo_id) demo_api)"
          and api = "snd (xpay_stream counter_ops (Some demo_id) demo_api)"])
      (simp_all add: demo_streaming_def demo_idle_def xpay_stream_def open_watch_def acquire_stream_def demo_id_def acq)
  ultimately show ?thesis using demo_idle_reach by (blast intro: reach_step)
qed

lemma demo_task: "\<exists>t. api_tasks (ss_api demo_streaming) = [t] \<and> st_topic t = ''payment'' \<and> st_key t = ''f0''
   \<and> st_plan t = Forward"
proof -
  obtain p sl where acq: "acquire counter_ops ''f0'' (api_streams demo_api) = (Inr p, sl)"
    using demo_slot by blast
  have "subscriber_count (with_limits default_router_limits) topic = 0" for topic
    by (simp add: subscriber_count_list topic_list_with_limits)
  then show ?thesis
    using acq by (simp add: demo_streaming_def xpay_stream_def open_watch_def acquire_stream_def demo_id_def
        attach_def next_subscriber_id_def Let_def subscribe_def demo_api_def
        with_limits_def [THEN arg_cong [of _ _ max_subscribers_per_type]]
        with_limits_def [THEN arg_cong [of _ _ max_subscribers_global]]
        with_limits_def [THEN arg_cong [of _ _ tracked_subscribers]] default_router_limits_def max_def)
qed

lemma streams_never_leak_witness: "unat (active_streams counter_ops (api_streams (ss_api demo_streaming))) = 1"
  using streams_never_leak [OF demo_streaming_reach] demo_task by (auto simp: demo_streaming_def demo_idle_def)

lemma ending_a_task_is_local_witness:
  "\<exists>t. t \<in> set (api_tasks (ss_api demo_streaming)) \<and>
     unat (active_streams counter_ops (api_streams (finish_task counter_ops t (ss_api demo_streaming)))) + 1 =
     unat (active_streams counter_ops (api_streams (ss_api demo_streaming)))"
proof -
  obtain t where "t \<in> set (api_tasks (ss_api demo_streaming))" using demo_task by auto
  with ending_a_task_is_local [OF demo_streaming_reach _ this] show ?thesis
    by (auto simp: demo_streaming_def demo_idle_def)
qed

lemma rejected_stream_leaves_no_trace_witness:
  "api_tasks (snd (open_watch counter_ops ''peer'' None demo_api)) = []
   \<and> active_streams counter_ops (api_streams (snd (open_watch counter_ops ''peer'' None demo_api))) =
     active_streams counter_ops (api_streams demo_api)"
proof -
  have "open_watch counter_ops ''peer'' None (ss_api demo_idle) =
      (Inl (unauthenticated ''Client certificate required''), demo_api)"
    by (simp add: open_watch_def acquire_stream_def demo_idle_def)
  from rejected_stream_leaves_no_trace [OF demo_idle_reach disjI1 [OF this]] this show ?thesis
    by (simp add: demo_idle_def) (simp add: demo_api_def)
qed

lemma over_limit_never_reaches_node_witness:
  "\<exists>e st'. acquire_stream counter_ops (Some demo_id)
      (demo_api\<lparr>api_streams := stream_limits_new counter_ops 0 2\<rparr>) = (Inl e, st')
    \<and> invoice_stream counter_ops (\<lambda>req n. (None, n)) 0 (Some demo_id) default_invoice_request
      (demo_api\<lparr>api_streams := stream_limits_new counter_ops 0 2\<rparr>) = (Inl e, st') \<and> api_node st' = ()"
proof -
  have "\<exists>e st'. acquire_stream counter_ops (Some demo_id)
      (demo_api\<lparr>api_streams := stream_limits_new counter_ops 0 2\<rparr>) = (Inl e, st')"
    by (simp add: acquire_stream_def demo_id_def acquire_def lookup_client_def stream_limits_new_def hmap_simps
        Let_def acquire_global_def counter_ops_def add_strong_def)
  then obtain e st' where "acquire_stream counter_ops (Some demo_id)
      (demo_api\<lparr>api_streams := stream_limits_new counter_ops 0 2\<rparr>) = (Inl e, st')" by blast
  from over_limit_never_reaches_node [OF this] this show ?thesis by auto
qed

text \<open>A decoder that accepts hexadecimal digits only, and a preimage that starts with the byte 0.\<close>

definition demo_crypto :: crypto where
  "demo_crypto = \<lparr>sha256 = (\<lambda>b. b), hex_encode = (\<lambda>_. ''00''),
     hex_decode = (\<lambda>b. if list_all is_hex_byte b \<and> even (length b) then Some (take (length b div 2) b) else None)\<rparr>"

definition demo_payment :: xpay_response where
  "demo_payment = \<lparr>xp_payment_preimage = [0, 171], xp_failed_parts = 0, xp_successful_parts = 1,
     xp_amount_msat = None, xp_amount_sent_msat = None\<rparr>"

lemma xpay_stream_watch_raw_preimage_witness:
  "fst (xpay_stream_watch counter_ops demo_crypto (\<lambda>req n. (Some demo_payment, n)) (Some demo_id)
     default_xpay_request demo_api) = Inl (internal_error ''Internal error'')"
proof -
  obtain p sl where acq: "acquire counter_ops ''f0'' (api_streams demo_api) = (Inr p, sl)"
    using demo_slot by blast
  then have "acquire_stream counter_ops (Some demo_id) demo_api = (Inr (''f0'', p), demo_api\<lparr>api_streams := sl\<rparr>)"
    by (simp add: acquire_stream_def demo_id_def)
  from xpay_stream_watch_raw_preimage [where c = demo_crypto and res = demo_payment, OF _ this] show ?thesis
    by (simp add: demo_crypto_def demo_payment_def is_hex_byte_def)
qed

lemma watch_stream_output_witness:
  "\<exists>t. task_run t True [(Payment (Failed ''e'' 0 ''h'' 1 ''n'' ''r''), True), (Peer (Disconnected ''d'' 0 ''n''), True)] =
     List.map_filter (\<lambda>(e, _). payment_to_proto_event e) [(Payment (Failed ''e'' 0 ''h'' 1 ''n'' ''r''), True),
       (Peer (Disconnected ''d'' 0 ''n''), True)]"
proof -
  obtain t :: stream_task where "st_plan t = Forward" "st_topic t = ''payment''" using demo_task by blast
  from watch_stream_output [OF this(1), of True "[(Payment (Failed ''e'' 0 ''h'' 1 ''n'' ''r''), True),
      (Peer (Disconnected ''d'' 0 ''n''), True)]"] this(2) show ?thesis
    by (intro exI [of _ t]) (simp add: converter_def)
qed

definition demo_await :: "stream_plan \<Rightarrow> stream_task" where
  "demo_await plan = \<lparr>st_key = ''f0'', st_permit = \<lparr>permit_client = 0\<rparr>, st_topic = ''invoice'', st_sub = ''sub-1'',
     st_channel = 0, st_plan = plan\<rparr>"

lemma await_stream_output_witness:
  "task_run (demo_await (Await_Payment ''h'')) True [(Payment (Failed ''e'' 0 ''x'' 1 ''n'' ''r''), True)] = []"
  using await_stream_output [of "demo_await (Await_Invoice ''l'' (PeerDisconnected '''' 0 '''' ''''))"
      "''l''" _ "demo_await (Await_Payment ''h'')" "''h''" True "[(Payment (Failed ''e'' 0 ''x'' 1 ''n'' ''r''), True)]"]
  by (simp add: demo_await_def payment_ended_def paid_for_def)

end
