(* ===== verification/Client_Cli.thy ===== *)
theory Client_Cli
  imports Proto_Events Cln_Api
begin

text \<open>
  The command line client (\<open>bin/gcob/commands/\<close>, \<open>bin/gcob/connection.rs\<close>): amounts, the
  printing of untrusted server text, the loops over the response streams, and the target name of
  the TLS connection. A printed line is a string; \<open>None\<close> is a panic. The time stamps of \<open>chrono\<close>
  are parameters; \<open>anyhow\<close> errors are their texts.
\<close>

section \<open>Untrusted text\<close>

text \<open>\<open>char::is_control\<close>: the code points U+0000 to U+001F and U+007F to U+009F.\<close>

fun is_control :: "string \<Rightarrow> bool" where
  "is_control [c] = (code c < 32 \<or> code c = 127)"
| "is_control [c, d] = (code c = 0xC2 \<and> 0x80 \<le> code d \<and> code d < 0xA0)"
| "is_control _ = False"

definition cli_sanitize :: "string \<Rightarrow> string" where
  "cli_sanitize input = concat (filter (\<lambda>c. \<not> is_control c) (chars input))"

fun back_off :: "string \<Rightarrow> nat \<Rightarrow> nat" where
  "back_off input 0 = 0"
| "back_off input (Suc e) = (if is_char_boundary input (Suc e) then Suc e else back_off input e)"

definition truncate_utf8 :: "string \<Rightarrow> nat \<Rightarrow> string option" where
  "truncate_utf8 input mx =
     (if length input \<le> mx then Some input
      else map_option (\<lambda>p. p @ ''...'') (slice_to input (back_off input mx)))"

section \<open>Amounts\<close>

text \<open>\<open>to_lowercase\<close> on the ASCII letters; the other letters keep their bytes here. No amount with
  such a letter parses, before or after lowering.\<close>

definition checked_mul :: "u64 \<Rightarrow> nat \<Rightarrow> u64 option" where
  "checked_mul a b = (if unat a * b < 2 ^ 64 then Some (a * of_nat b) else None)"

definition checked_add :: "u64 \<Rightarrow> u64 \<Rightarrow> u64 option" where
  "checked_add a b = (if unat a + unat b < 2 ^ 64 then Some (a + b) else None)"

definition context_of :: "string \<Rightarrow> 'a option \<Rightarrow> string + 'a" where
  "context_of msg r = (case r of None \<Rightarrow> Inl msg | Some a \<Rightarrow> Inr a)"

definition pad_to :: "nat \<Rightarrow> string \<Rightarrow> string" where
  "pad_to n s = s @ replicate (n - length s) (CHR ''0'')"

definition parse_btc_to_msat :: "string \<Rightarrow> string + u64" where
  "parse_btc_to_msat v =
     (if v = [] \<or> starts_with ''-'' v \<or> starts_with ''+'' v then Inl ''Invalid btc amount''
      else
        (let (whole, frac) = (case split_once (CHR ''.'') v of Some p \<Rightarrow> p | None \<Rightarrow> (v, ''''))
         in if 11 < length frac \<or> \<not> list_all is_digit whole \<or> \<not> list_all is_digit frac
            then Inl ''Invalid btc amount (max 11 decimals)''
            else and_then (if whole = [] then Inr 0 else context_of ''Invalid btc amount'' (parse_uint whole)) (\<lambda>w.
              and_then (context_of ''Amount too large'' (checked_mul w (10 ^ 11))) (\<lambda>whole_msat.
              and_then (if frac = [] then Inr 0
                        else context_of ''Invalid btc amount'' (parse_uint (pad_to 11 frac))) (\<lambda>frac_msat.
              context_of ''Amount too large'' (checked_add whole_msat frac_msat))))))"

text \<open>No letter outside ASCII has a lower case among those of the units, so \<open>to_lowercase\<close> can be that
  of ASCII.\<close>

definition parse_amount :: "string \<Rightarrow> string + u64" where
  "parse_amount s0 =
     (let s = to_ascii_lowercase (trim s0) in
      case strip_suffix ''msat'' s of
        Some v \<Rightarrow> context_of ''Invalid msat amount'' (parse_uint (trim v))
      | None \<Rightarrow>
          (case strip_suffix ''sat'' s of
             Some v \<Rightarrow> and_then (context_of ''Invalid sat amount'' (parse_uint (trim v))) (\<lambda>sats.
                 context_of ''Amount too large'' (checked_mul sats 1000))
           | None \<Rightarrow>
               (case strip_suffix ''btc'' s of
                  Some v \<Rightarrow> parse_btc_to_msat (trim v)
                | None \<Rightarrow> context_of ''Invalid amount (use Nmsat, Nsat, or Nbtc)'' (parse_uint s))))"

definition parse_msat :: "string \<Rightarrow> string + u64" where
  "parse_msat s0 =
     (let s = to_ascii_lowercase (trim s0) in
      case strip_suffix ''msat'' s of
        Some v \<Rightarrow> context_of ''Invalid msat amount'' (parse_uint (trim v))
      | None \<Rightarrow>
          (case strip_suffix ''sat'' s of
             Some v \<Rightarrow> and_then (context_of ''Invalid sat amount'' (parse_uint (trim v))) (\<lambda>sats.
                 context_of ''Amount too large'' (checked_mul sats 1000))
           | None \<Rightarrow> context_of ''Invalid amount (use Nmsat or Nsat)'' (parse_uint s)))"

section \<open>Printing events\<close>

type_synonym time_stamp = "i64 \<Rightarrow> string"

definition print_payment_event :: "time_stamp \<Rightarrow> proto_event \<Rightarrow> string list option" where
  "print_payment_event ts ev = (case ev of
     PaymentSucceeded _ t hash amount sent _ _ \<Rightarrow>
       Some [ts t @ '' PaymentSucceeded: '' @ fmt_word amount @ '' msat (sent: '' @ fmt_word sent @
         '' msat) hash='' @ cli_sanitize hash]
   | PaymentFailed _ t hash reason _ _ \<Rightarrow>
       Some [ts t @ '' PaymentFailed: reason='' @ cli_sanitize reason @ '' hash='' @ cli_sanitize hash]
   | _ \<Rightarrow> Some [])"

definition print_invoice_event :: "time_stamp \<Rightarrow> proto_event \<Rightarrow> string list option" where
  "print_invoice_event ts ev = (case ev of
     InvoiceCreated _ t label _ _ bolt11 _ _ \<Rightarrow>
       map_option (\<lambda>b. [ts t @ '' InvoiceCreated: label='' @ cli_sanitize label @ '' bolt11='' @ b])
         (truncate_utf8 bolt11 40)
   | InvoicePaid _ t label amount _ _ \<Rightarrow>
       Some [ts t @ '' InvoicePaid: label='' @ cli_sanitize label @ '' amount='' @ fmt_word amount @ ''msat'']
   | _ \<Rightarrow> Some [])"

definition print_channel_event :: "time_stamp \<Rightarrow> proto_event \<Rightarrow> string list option" where
  "print_channel_event ts ev = (case ev of
     ChannelOpened _ t node _ amount _ \<Rightarrow>
       map_option (\<lambda>n. [ts t @ '' ChannelOpened: node='' @ n @ '' amount='' @ fmt_word amount @ ''msat''])
         (truncate_utf8 node 16)
   | ChannelOpenFailed _ t _ reason _ \<Rightarrow>
       Some [ts t @ '' ChannelOpenFailed: reason='' @ cli_sanitize reason]
   | ChannelStateChanged _ t channel old new _ \<Rightarrow>
       Some [ts t @ '' ChannelStateChanged: '' @ cli_sanitize channel @ '' '' @ cli_sanitize old @
         '' -> '' @ cli_sanitize new]
   | _ \<Rightarrow> Some [])"

definition print_peer_event :: "time_stamp \<Rightarrow> proto_event \<Rightarrow> string list option" where
  "print_peer_event ts ev = (case ev of
     PeerConnected _ t node addr _ _ \<Rightarrow>
       map_option (\<lambda>n. [ts t @ '' PeerConnected: node='' @ n @ '' addr='' @ cli_sanitize addr])
         (truncate_utf8 node 16)
   | PeerDisconnected _ t node _ \<Rightarrow>
       map_option (\<lambda>n. [ts t @ '' PeerDisconnected: node='' @ n]) (truncate_utf8 node 16)
   | _ \<Rightarrow> Some [])"

definition print_system_event :: "time_stamp \<Rightarrow> proto_event \<Rightarrow> string list option" where
  "print_system_event ts ev = (case ev of
     SystemWarning _ t _ log _ \<Rightarrow> Some [ts t @ '' SystemWarning: '' @ cli_sanitize log]
   | SystemBlockAdded _ t height _ \<Rightarrow> Some [ts t @ '' BlockAdded: height='' @ fmt_word height]
   | _ \<Rightarrow> Some [])"

section \<open>The streams\<close>

text \<open>What \<open>stream.message().await\<close> yields before the end of the stream: a message, whose event may
  be absent, or an error.\<close>

datatype stream_item = Message "proto_event option" | Stream_Error string

text \<open>\<open>watch_payments\<close> and its four siblings differ in the printer.\<close>

fun watch_loop :: "(proto_event \<Rightarrow> string list option) \<Rightarrow> stream_item list \<Rightarrow> (string list \<times> (string + unit)) option" where
  "watch_loop pr [] = Some ([], Inr ())"
| "watch_loop pr (Stream_Error e # _) = Some ([], Inl e)"
| "watch_loop pr (Message None # items) = watch_loop pr items"
| "watch_loop pr (Message (Some ev) # items) =
     (case pr ev of
        None \<Rightarrow> None
      | Some ls \<Rightarrow> map_option (\<lambda>(out, r). (ls @ out, r)) (watch_loop pr items))"

definition opt_line :: "'a option \<Rightarrow> ('a \<Rightarrow> string) \<Rightarrow> string list" where
  "opt_line x f = (case x of None \<Rightarrow> [] | Some a \<Rightarrow> [f a])"

definition cli_invoice_request :: "string \<Rightarrow> u64 \<Rightarrow> string option \<Rightarrow> u64 option \<Rightarrow> invoice_request" where
  "cli_invoice_request label amount_msat description expiry =
     \<lparr>ir_description = (case description of None \<Rightarrow> '''' | Some d \<Rightarrow> d), ir_label = label,
      ir_fallbacks = [], ir_preimage = None, ir_cltv = None, ir_expiry = expiry,
      ir_exposeprivatechannels = [], ir_deschashonly = None,
      ir_amount_msat = Some (Some (Amount amount_msat))\<rparr>"

fun cli_invoice_loop :: "string \<Rightarrow> bool \<Rightarrow> stream_item list \<Rightarrow> string list \<times> (string + unit)" where
  "cli_invoice_loop now created [] = ([], if created then Inr () else
     Inl ''Stream ended without receiving InvoiceCreated'')"
| "cli_invoice_loop now created (Stream_Error e # _) = ([], Inl e)"
| "cli_invoice_loop now created (Message None # _) = ([], Inl ''Empty event'')"
| "cli_invoice_loop now created (Message (Some ev) # items) = (case ev of
     InvoiceCreated _ _ label amount description bolt11 _ expiry \<Rightarrow>
       (let (out, r) = cli_invoice_loop now True items in
        ([now @ '' Invoice created:'', ''  Bolt11: '' @ cli_sanitize bolt11,
          ''  Label: '' @ cli_sanitize label] @
         opt_line amount (\<lambda>a. ''  Amount: '' @ fmt_word a @ '' msat'') @
         [''  Description: '' @ cli_sanitize description] @
         opt_line expiry (\<lambda>e. ''  Expiry: '' @ fmt_word e @ '' seconds'') @
         ['''', now @ '' Watching for payment...''] @ out, r))
   | InvoicePaid _ _ label amount hash _ \<Rightarrow>
       ([now @ '' InvoicePaid: '' @ fmt_word amount @ '' msat received'',
         ''  Label: '' @ cli_sanitize label, ''  Payment hash: '' @ cli_sanitize hash],
        if created then Inr () else Inl ''Stream ended without receiving InvoiceCreated'')
   | _ \<Rightarrow> cli_invoice_loop now created items)"

definition cli_xpay_request :: "string \<Rightarrow> u64 option \<Rightarrow> xpay_request" where
  "cli_xpay_request invoice maxfee = default_xpay_request\<lparr>xr_invstring := invoice, xr_maxfee := maxfee\<rparr>"

fun cli_xpay_loop :: "string \<Rightarrow> stream_item list \<Rightarrow> string list \<times> (string + unit)" where
  "cli_xpay_loop now [] = ([], Inr ())"
| "cli_xpay_loop now (Stream_Error e # _) = ([], Inl e)"
| "cli_xpay_loop now (Message None # _) = ([], Inl ''Empty event'')"
| "cli_xpay_loop now (Message (Some ev) # items) = (case ev of
     PaymentSucceeded _ _ hash amount sent node rec \<Rightarrow>
       ([now @ '' PaymentSucceeded:'', ''  Amount: '' @ fmt_word amount @ '' msat'',
         ''  Amount sent: '' @ fmt_word sent @ '' msat'', ''  Payment hash: '' @ cli_sanitize hash,
         ''  Node: '' @ cli_sanitize node] @
        (if rec = '''' then [] else [''  Recommendation: '' @ cli_sanitize rec]), Inr ())
   | PaymentFailed _ _ hash reason _ rec \<Rightarrow>
       ([now @ '' PaymentFailed:'', ''  Payment hash: '' @ cli_sanitize hash,
         ''  Reason: '' @ cli_sanitize reason] @
        (if rec = '''' then [] else [''  Recommendation: '' @ cli_sanitize rec]), Inr ())
   | _ \<Rightarrow> cli_xpay_loop now items)"

definition info_lines :: "(bytes \<Rightarrow> string) \<Rightarrow> ('a, 'b, 'f) getinfo_response \<Rightarrow> string list" where
  "info_lines hex r = [''Node Information:'', ''  Alias: '' @ cli_sanitize (gi_alias r),
     ''  ID: '' @ hex (gi_id r), ''  Color: #'' @ hex (gi_color r),
     ''  Peers: '' @ fmt_word (gi_num_peers r), ''  Channels: '' @ fmt_word (gi_num_active_channels r),
     ''  Block height: '' @ fmt_word (gi_blockheight r), ''  Network: '' @ cli_sanitize (gi_network r),
     ''  Version: '' @ cli_sanitize (gi_version r),
     ''  Lightning dir: '' @ cli_sanitize (gi_lightning_dir r)]"

section \<open>The commands\<close>

text \<open>A command yields what it prints and its result; \<open>None\<close> is a panic. \<open>ascii\<close> is the parser of
  \<open>tonic\<close>'s ASCII metadata values, \<open>call\<close> the remote procedure: the error of the call, or what its
  stream yields.\<close>

definition insert_header :: "(string \<Rightarrow> bool) \<Rightarrow> string \<Rightarrow> string \<Rightarrow> string + unit" where
  "insert_header ascii key v =
     (if ascii v then Inr ()
      else Inl (''Invalid value for header '' @ [CHR 0x27] @ key @ [CHR 0x27] @ '': must be visible ASCII''))"

definition with_auth :: "(string \<Rightarrow> bool) \<Rightarrow> string \<Rightarrow> string \<Rightarrow> string + unit" where
  "with_auth ascii rune client_id =
     and_then (insert_header ascii ''x-rune'' rune) (\<lambda>_. insert_header ascii ''x-client-id'' client_id)"

datatype watch_target = Watch_Payment | Watch_Invoice | Watch_Channel | Watch_Peer | Watch_System

fun watch_name :: "watch_target \<Rightarrow> string" where
  "watch_name Watch_Payment = ''payment''"
| "watch_name Watch_Invoice = ''invoice''"
| "watch_name Watch_Channel = ''channel''"
| "watch_name Watch_Peer = ''peer''"
| "watch_name Watch_System = ''system''"

fun watch_method :: "watch_target \<Rightarrow> string" where
  "watch_method Watch_Payment = ''XpayStream''"
| "watch_method Watch_Invoice = ''InvoiceWatch''"
| "watch_method Watch_Channel = ''WatchChannels''"
| "watch_method Watch_Peer = ''WatchPeers''"
| "watch_method Watch_System = ''WatchSystem''"

fun watch_printer :: "watch_target \<Rightarrow> time_stamp \<Rightarrow> proto_event \<Rightarrow> string list option" where
  "watch_printer Watch_Payment = print_payment_event"
| "watch_printer Watch_Invoice = print_invoice_event"
| "watch_printer Watch_Channel = print_channel_event"
| "watch_printer Watch_Peer = print_peer_event"
| "watch_printer Watch_System = print_system_event"

definition watch_stream :: "(string \<Rightarrow> bool) \<Rightarrow> (watch_target \<Rightarrow> string + stream_item list) \<Rightarrow> time_stamp
    \<Rightarrow> string \<Rightarrow> string \<Rightarrow> watch_target \<Rightarrow> (string list \<times> (string + unit)) option" where
  "watch_stream ascii call ts rune client_id target =
     (case with_auth ascii rune client_id of
        Inl e \<Rightarrow> Some ([], Inl e)
      | Inr _ \<Rightarrow>
          (case call target of
             Inl _ \<Rightarrow> Some ([], Inl (''Failed to subscribe to '' @ watch_method target))
           | Inr items \<Rightarrow> watch_loop (watch_printer target ts) items))"

definition watch_command :: "(string \<Rightarrow> bool) \<Rightarrow> (watch_target \<Rightarrow> string + stream_item list) \<Rightarrow> time_stamp
    \<Rightarrow> string \<Rightarrow> string \<Rightarrow> string \<Rightarrow> watch_target \<Rightarrow> (string list \<times> (string + unit)) option" where
  "watch_command ascii call ts now rune client_id target =
     map_option (\<lambda>(out, r). ((now @ '' Watching '' @ watch_name target @ '' events... (Ctrl+C to stop)'') # out, r))
       (watch_stream ascii call ts rune client_id target)"

definition invoice_command :: "(string \<Rightarrow> bool) \<Rightarrow> (invoice_request \<Rightarrow> string + stream_item list) \<Rightarrow> string
    \<Rightarrow> string \<Rightarrow> string \<Rightarrow> string \<Rightarrow> string \<Rightarrow> string option \<Rightarrow> u64 option \<Rightarrow> string list \<times> (string + unit)" where
  "invoice_command ascii call now rune client_id label amount description expiry =
     (case parse_amount amount of
        Inl e \<Rightarrow> ([], Inl e)
      | Inr amount_msat \<Rightarrow>
          (let (out, r) = (case with_auth ascii rune client_id of
               Inl e \<Rightarrow> ([], Inl e)
             | Inr _ \<Rightarrow>
                 (case call (cli_invoice_request label amount_msat description expiry) of
                    Inl _ \<Rightarrow> ([], Inl ''Failed to call InvoiceStream'')
                  | Inr items \<Rightarrow> cli_invoice_loop now False items))
           in ((now @ '' Creating invoice...'') # out, r)))"

definition xpay_command :: "(string \<Rightarrow> bool) \<Rightarrow> (xpay_request \<Rightarrow> string + stream_item list) \<Rightarrow> string
    \<Rightarrow> string \<Rightarrow> string \<Rightarrow> string \<Rightarrow> string option \<Rightarrow> string list \<times> (string + unit)" where
  "xpay_command ascii call now rune client_id invoice maxfee =
     (case (case maxfee of None \<Rightarrow> Inr None
          | Some fee_str \<Rightarrow> and_then (parse_msat fee_str) (\<lambda>msat. Inr (Some msat))) of
        Inl e \<Rightarrow> ([], Inl e)
      | Inr maxfee_amount \<Rightarrow>
          (let (out, r) = (case with_auth ascii rune client_id of
               Inl e \<Rightarrow> ([], Inl e)
             | Inr _ \<Rightarrow>
                 (case call (cli_xpay_request invoice maxfee_amount) of
                    Inl _ \<Rightarrow> ([], Inl ''Failed to call XpayStreamWatch'')
                  | Inr items \<Rightarrow> cli_xpay_loop now items))
           in ((now @ '' Paying invoice...'') # out, r)))"

definition info_command :: "(string \<Rightarrow> bool) \<Rightarrow> (string + ('a, 'b, 'f) getinfo_response) \<Rightarrow> (bytes \<Rightarrow> string)
    \<Rightarrow> string \<Rightarrow> string \<Rightarrow> string list \<times> (string + unit)" where
  "info_command ascii called hex rune client_id =
     (case with_auth ascii rune client_id of
        Inl e \<Rightarrow> ([], Inl e)
      | Inr _ \<Rightarrow> (case called of Inl e \<Rightarrow> ([], Inl e) | Inr r \<Rightarrow> (info_lines hex r, Inr ())))"

text \<open>The connected commands of \<open>main\<close>: an empty rune counts as a missing one.\<close>

definition client_rune :: "string option \<Rightarrow> string + string" where
  "client_rune rune = (case rune of
     Some r \<Rightarrow> if r \<noteq> [] then Inr r else Inl ''Missing rune: pass --rune or set GCOD_RUNE''
   | None \<Rightarrow> Inl ''Missing rune: pass --rune or set GCOD_RUNE'')"

definition client_id_or_default :: "string option \<Rightarrow> string" where
  "client_id_or_default client_id = (case client_id of Some c \<Rightarrow> c | None \<Rightarrow> ''gcob-client'')"

section \<open>The connection\<close>

definition tls_domain_name :: "string \<Rightarrow> string" where
  "tls_domain_name host =
     (case Option.bind (strip_prefix ''['' host) (strip_suffix '']'') of None \<Rightarrow> host | Some h \<Rightarrow> h)"

definition resolve_path :: "string option \<Rightarrow> string option \<Rightarrow> string \<Rightarrow> string + string \<Rightarrow> string + string" where
  "resolve_path arg cert_dir default_name admin_certs =
     (case arg of
        Some p \<Rightarrow> Inr p
      | None \<Rightarrow>
          (case cert_dir of
             Some d \<Rightarrow> Inr (path_join d default_name)
           | None \<Rightarrow>
               (case admin_certs of
                  Inl e \<Rightarrow> Inl (''Cannot resolve the default ~/.certs directory: '' @ e)
                | Inr d \<Rightarrow> Inr (path_join d default_name))))"

end
