(* ===== verification/Client_Properties.thy ===== *)
theory Client_Properties
  imports Client_Cli
begin

text \<open>
  The client's amounts are exact or refused, its truncation never panics, its sanitiser removes
  every control character, and the lines it prints without the sanitiser.
\<close>

section \<open>Amounts\<close>

lemma context_of_Inr [result_simps]: "context_of msg r = Inr a \<longleftrightarrow> r = Some a"
  by (simp add: context_of_def split: option.split)

lemma checked_mul_Some [result_simps]: "checked_mul a b = Some c \<longleftrightarrow> unat a * b < 2 ^ 64 \<and> unat c = unat a * b"
proof -
  have "unat (a * of_nat b) = unat a * b" if "unat a * b < 2 ^ 64"
  proof (cases "b < 2 ^ 64")
    case True
    then show ?thesis using that by (simp add: unat_mult_lem [THEN iffD1])
  next
    case False
    then have "unat a = 0" using that by (cases "unat a") auto
    then show ?thesis by (simp add: unat_eq_zero)
  qed
  then show ?thesis by (auto simp: checked_mul_def word_unat_eq_iff)
qed

lemma checked_add_Some [result_simps]:
  "checked_add a b = Some c \<longleftrightarrow> unat a + unat b < 2 ^ 64 \<and> unat c = unat a + unat b"
proof -
  have "unat (a + b) = unat a + unat b" if "unat a + unat b < 2 ^ 64"
    using that by (simp add: unat_add_lem [THEN iffD1])
  then show ?thesis by (auto simp: checked_add_def word_unat_eq_iff)
qed

lemma dec_value_append: "dec_value a (xs @ ys) = dec_value (dec_value a xs) ys"
  by (simp add: dec_value_def)

lemma dec_value_zeros: "dec_value a (replicate n (CHR ''0'')) = a * 10 ^ n"
  by (induction n arbitrary: a) (simp_all add: dec_value_def dec_step_def)

lemma dec_value_pad: "dec_value 0 (pad_to n s) = dec_value 0 s * 10 ^ (n - length s)"
  by (simp add: pad_to_def dec_value_append dec_value_zeros)

lemma dec_value_bound: "list_all is_digit s \<Longrightarrow> dec_value a s < (a + 1) * 10 ^ length s"
proof (induction s arbitrary: a)
  case (Cons c s)
  have "code c - 48 \<le> 9" using Cons.prems by (auto simp: is_digit_def)
  then have "dec_step a c + 1 \<le> (a + 1) * 10" by (simp add: dec_step_def)
  then have "(dec_step a c + 1) * 10 ^ length s \<le> (a + 1) * 10 * 10 ^ length s" by (rule mult_le_mono1)
  moreover have "dec_value a (c # s) = dec_value (dec_step a c) s" by (simp add: dec_value_def)
  moreover have "dec_value (dec_step a c) s < (dec_step a c + 1) * 10 ^ length s"
    using Cons.IH [of "dec_step a c"] Cons.prems by simp
  moreover have "(a + 1) * 10 * 10 ^ length s = (a + 1) * 10 ^ length (c # s)" by (simp only: list.size power_Suc mult.assoc add_0_right One_nat_def add_Suc_right)
  ultimately show ?case by linarith
qed (simp add: dec_value_def)

lemma parse_uint_digits:
  assumes "s \<noteq> []" and "list_all is_digit s"
  shows "(parse_uint s :: u64 option) = Some w \<longleftrightarrow> dec_value 0 s < 2 ^ 64 \<and> unat w = dec_value 0 s"
  using assms by (auto simp: parse_uint_def parse_below_digits word_unat_eq_iff)

lemma pad_digits: "list_all is_digit s \<Longrightarrow> list_all is_digit (pad_to n s)"
  by (auto simp: pad_to_def list_all_iff is_digit_def)

text \<open>A bitcoin amount: digits, and at most eleven decimals after a point.\<close>

definition btc_form :: "string \<Rightarrow> string \<Rightarrow> string \<Rightarrow> bool" where
  "btc_form v whole frac \<longleftrightarrow> v \<noteq> [] \<and> list_all is_digit whole \<and> list_all is_digit frac \<and> length frac \<le> 11
     \<and> (v = whole \<and> frac = [] \<or> v = whole @ CHR ''.'' # frac)"

lemma digit_not_point: "list_all is_digit s \<Longrightarrow> CHR ''.'' \<notin> set s"
  by (auto simp: list_all_iff is_digit_def)

lemma split_once_form:
  assumes "btc_form v whole frac"
  shows "(case split_once (CHR ''.'') v of Some p \<Rightarrow> p | None \<Rightarrow> (v, '''')) = (whole, frac)"
proof -
  have "CHR ''.'' \<notin> set whole" using assms digit_not_point by (auto simp: btc_form_def)
  then have "takeWhile (\<lambda>x. x \<noteq> CHR ''.'') (whole @ CHR ''.'' # frac) = whole"
    "dropWhile (\<lambda>x. x \<noteq> CHR ''.'') (whole @ CHR ''.'' # frac) = CHR ''.'' # frac"
    by (rule_tac while_prefix; auto)+
  then show ?thesis using assms \<open>CHR ''.'' \<notin> set whole\<close> by (auto simp: btc_form_def split_once_def)
qed

lemma split_once_Some:
  assumes "split_once c v = Some (a, b)"
  shows "v = a @ c # b"
proof -
  have "c \<in> set v" and ab: "a = takeWhile (\<lambda>x. x \<noteq> c) v" "b = tl (dropWhile (\<lambda>x. x \<noteq> c) v)"
    using assms by (auto simp: split_once_def split: if_splits)
  then have ne: "dropWhile (\<lambda>x. x \<noteq> c) v \<noteq> []" by (auto simp: dropWhile_eq_Nil_conv)
  then have "hd (dropWhile (\<lambda>x. x \<noteq> c) v) = c" using hd_dropWhile by blast
  with ne have "dropWhile (\<lambda>x. x \<noteq> c) v = c # b" by (metis ab(2) list.collapse)
  then show ?thesis by (metis ab(1) takeWhile_dropWhile_id)
qed

lemma btc_form_of:
  assumes "parse_btc_to_msat v = Inr m"
  shows "\<exists>whole frac. btc_form v whole frac"
proof (cases "split_once (CHR ''.'') v")
  case None
  with assms have "btc_form v v ''''" by (auto simp: parse_btc_to_msat_def btc_form_def split: if_splits)
  then show ?thesis by blast
next
  case (Some p)
  then have "btc_form v (fst p) (snd p)"
    using assms split_once_Some [of _ v "fst p" "snd p"]
    by (auto simp: parse_btc_to_msat_def btc_form_def Let_def split_beta split: if_splits)
  then show ?thesis by blast
qed

lemma btc_form_no_sign: "btc_form v whole frac \<Longrightarrow> \<not> starts_with ''-'' v \<and> \<not> starts_with ''+'' v"
  by (cases whole) (auto simp: btc_form_def starts_with_def is_digit_def)

lemma whole_part:
  assumes "list_all is_digit whole"
  shows "(if whole = [] then Inr 0 else context_of msg (parse_uint whole)) = (Inr w :: string + u64) \<longleftrightarrow>
    dec_value 0 whole < 2 ^ 64 \<and> unat w = dec_value 0 whole"
  using assms parse_uint_digits [of whole w] by (auto simp: context_of_Inr dec_value_def unat_eq_zero)

lemma frac_part:
  assumes "list_all is_digit frac" and "length frac \<le> 11"
  shows "(if frac = [] then Inr 0 else context_of msg (parse_uint (pad_to 11 frac))) = (Inr w :: string + u64) \<longleftrightarrow>
    unat w = dec_value 0 frac * 10 ^ (11 - length frac)"
proof -
  have "dec_value 0 (pad_to 11 frac) < (0 + 1) * 10 ^ length (pad_to 11 frac)"
    by (rule dec_value_bound [OF pad_digits [OF assms(1)]])
  also have "length (pad_to 11 frac) = 11" using assms(2) by (simp add: pad_to_def)
  finally have "dec_value 0 (pad_to 11 frac) < 2 ^ 64" by simp
  then have "parse_uint (pad_to 11 frac) = Some w \<longleftrightarrow> unat w = dec_value 0 frac * 10 ^ (11 - length frac)"
    if "frac \<noteq> []"
  proof -
    have "pad_to 11 frac \<noteq> []" using that by (simp add: pad_to_def)
    from parse_uint_digits [OF this pad_digits [OF assms(1)], of w]
      \<open>dec_value 0 (pad_to 11 frac) < 2 ^ 64\<close> show ?thesis by (auto simp: dec_value_pad)
  qed
  then show ?thesis by (cases "frac = []") (auto simp: context_of_Inr dec_value_def unat_eq_zero)
qed

lemma btc_value:
  assumes form: "btc_form v whole frac"
  shows "parse_btc_to_msat v = Inr m \<longleftrightarrow>
    unat m = dec_value 0 whole * 10 ^ 11 + dec_value 0 frac * 10 ^ (11 - length frac)
    \<and> dec_value 0 whole * 10 ^ 11 + dec_value 0 frac * 10 ^ (11 - length frac) < 2 ^ 64"
proof -
  have d: "list_all is_digit whole" "list_all is_digit frac" "length frac \<le> 11" "v \<noteq> []"
    using form by (auto simp: btc_form_def)
  let ?w = "dec_value 0 whole" and ?f = "dec_value 0 frac * 10 ^ (11 - length frac)"
  have "parse_btc_to_msat v = Inr m \<longleftrightarrow> (\<exists>w. (if whole = [] then Inr 0
      else context_of ''Invalid btc amount'' (parse_uint whole)) = Inr w
    \<and> (\<exists>wm. checked_mul w (10 ^ 11) = Some wm
    \<and> (\<exists>fm. (if frac = [] then Inr 0 else context_of ''Invalid btc amount'' (parse_uint (pad_to 11 frac))) = Inr fm
    \<and> checked_add wm fm = Some m)))"
    unfolding parse_btc_to_msat_def Let_def split_once_form [OF form] prod.case
    using d btc_form_no_sign [OF form] by (simp add: and_then_Inr context_of_Inr)
  also have "\<dots> \<longleftrightarrow> unat m = ?w * 10 ^ 11 + ?f \<and> ?w * 10 ^ 11 + ?f < 2 ^ 64" (is "?l \<longleftrightarrow> ?r")
  proof
    assume ?l
    then show ?r unfolding whole_part [OF d(1)] frac_part [OF d(2,3)] checked_mul_Some checked_add_Some by auto
  next
    assume r: ?r
    then have lt: "?w * 10 ^ 11 < 2 ^ 64" "?f < 2 ^ 64" by linarith+
    then have "?w < 2 ^ 64" by simp
    then have u: "unat (of_nat ?w :: u64) = ?w" "unat (of_nat (?w * 10 ^ 11) :: u64) = ?w * 10 ^ 11"
      "unat (of_nat ?f :: u64) = ?f"
      using lt by (intro unat_of_nat_small; simp)+
    show ?l unfolding whole_part [OF d(1)] frac_part [OF d(2,3)] checked_mul_Some checked_add_Some
      apply (rule exI [of _ "of_nat ?w"], intro conjI)
        apply (simp only: \<open>?w < 2 ^ 64\<close>)
       apply (simp only: u)
      apply (rule exI [of _ "of_nat (?w * 10 ^ 11)"], intro conjI)
        apply (simp only: u lt)
       apply (simp only: u)
      apply (rule exI [of _ "of_nat ?f"])
      using r by (simp only: u simp_thms)
  qed
  finally show ?thesis .
qed

text \<open>C39: a bitcoin amount is accepted exactly when it consists of digits with at most eleven
  decimals and its value in millisatoshi fits 64 bits, and the result is that value, to the
  last digit.\<close>

theorem btc_amount_exact:
  "parse_btc_to_msat v = Inr m \<longleftrightarrow> (\<exists>whole frac. btc_form v whole frac
     \<and> unat m = dec_value 0 whole * 10 ^ 11 + dec_value 0 frac * 10 ^ (11 - length frac)
     \<and> dec_value 0 whole * 10 ^ 11 + dec_value 0 frac * 10 ^ (11 - length frac) < 2 ^ 64)"
  using btc_form_of btc_value by blast

lemma fmt_word_plain:
  "plain_char (hd (fmt_word w))" "fmt_word w \<noteq> []" "list_all is_digit (fmt_word w)" "to_ascii_lowercase (fmt_word w) = fmt_word w"
proof -
  show d: "list_all is_digit (fmt_word w)" by (simp add: fmt_word_def fmt_nat_digits)
  show ne: "fmt_word w \<noteq> []" by (simp add: fmt_word_def)
  from d ne show "plain_char (hd (fmt_word w))"
    by (cases "fmt_word w") (auto simp: plain_char_def is_digit_def)
  from d show "to_ascii_lowercase (fmt_word w) = fmt_word w"
    by (auto simp: to_ascii_lowercase_def list_all_iff lower_def is_digit_def is_upper_def intro!: map_idI)
qed

lemma last_digit: "is_digit (last (fmt_word w))"
  using fmt_word_plain(3) [of w] last_in_set [OF fmt_word_plain(2) [of w]] unfolding list_all_iff by blast

lemma last_fmt_word: "plain_char (last (fmt_word w))"
  using last_digit [of w] by (simp add: plain_char_def is_digit_def)

lemma trim_fmt_word [simp]: "trim (fmt_word w) = fmt_word w"
  by (rule trim_plain [OF fmt_word_plain(2,1) last_fmt_word])

lemma trim_unit: "u \<noteq> [] \<Longrightarrow> plain_char (last u) \<Longrightarrow> trim (fmt_word w @ u) = fmt_word w @ u"
  using fmt_word_plain(1,2) [of w] by (intro trim_plain) simp_all

lemma lower_unit: "to_ascii_lowercase (fmt_word w @ u) = fmt_word w @ to_ascii_lowercase u"
  using fmt_word_plain(4) [of w] by (simp add: to_ascii_lowercase_def)

lemma strip_unit [simp]: "strip_suffix u (v @ u) = Some v"
  by (simp add: strip_suffix_Some)

lemma no_unit:
  assumes "u \<noteq> []" and "\<not> is_digit (last u)"
  shows "strip_suffix u (fmt_word w) = None"
proof (rule ccontr)
  assume "strip_suffix u (fmt_word w) \<noteq> None"
  then obtain t where "fmt_word w = t @ u" by (auto simp: strip_suffix_Some)
  with assms last_digit [of w] show False by simp
qed

lemma no_longer_unit:
  assumes "\<not> is_digit m"
  shows "strip_suffix (m # u) (fmt_word w @ u) = None"
proof (rule ccontr)
  assume "strip_suffix (m # u) (fmt_word w @ u) \<noteq> None"
  then obtain t where "fmt_word w @ u = (t @ [m]) @ u" by (auto simp: strip_suffix_Some)
  then have "fmt_word w = t @ [m]" by (simp only: append_same_eq)
  with assms last_digit [of w] show False by simp
qed

lemma sat_not_msat: "strip_suffix ''msat'' (fmt_word w @ ''sat'') = None"
  by (rule no_longer_unit) (simp add: is_digit_def)

lemma bare_number: "strip_suffix ''msat'' (fmt_word w) = None" "strip_suffix ''sat'' (fmt_word w) = None"
  "strip_suffix ''btc'' (fmt_word w) = None"
  by (rule no_unit; simp add: is_digit_def)+

lemma lower_units: "to_ascii_lowercase ''msat'' = ''msat''" "to_ascii_lowercase ''MSat'' = ''msat''"
  "to_ascii_lowercase ''sat'' = ''sat''"
  by code_simp+

lemma normalised:
  "to_ascii_lowercase (trim (fmt_word w @ ''msat'')) = fmt_word w @ ''msat''"
  "to_ascii_lowercase (trim (fmt_word w @ ''MSat'')) = fmt_word w @ ''msat''"
  "to_ascii_lowercase (trim (fmt_word w @ ''sat'')) = fmt_word w @ ''sat''"
  "to_ascii_lowercase (trim (fmt_word w)) = fmt_word w"
  by (simp_all add: trim_unit lower_unit lower_units fmt_word_plain plain_char_def)

lemma parse_number [simp]: "context_of msg (parse_uint (fmt_word w)) = Inr (w :: u64)"
  by (simp add: context_of_def parse_fmt_word)

lemma sats: "context_of msg (checked_mul n 1000) = (if unat n * 1000 < 2 ^ 64 then Inr (n * 1000) else Inl msg)"
  by (simp add: context_of_def checked_mul_def)

text \<open>An amount with a unit, in any case of its letters, is read as the amount the unit says:
  millisatoshi as they are, satoshi a thousandfold unless that overflows 64 bits, a bare number as
  millisatoshi.\<close>

theorem amount_units:
  "parse_amount (fmt_word n @ ''msat'') = Inr n \<and> parse_amount (fmt_word n @ ''MSat'') = Inr n
   \<and> parse_amount (fmt_word n) = Inr n
   \<and> parse_amount (fmt_word n @ ''sat'') =
       (if unat n * 1000 < 2 ^ 64 then Inr (n * 1000) else Inl ''Amount too large'')
   \<and> parse_msat (fmt_word n @ ''sat'') = parse_amount (fmt_word n @ ''sat'')
   \<and> parse_msat (fmt_word n @ ''msat'') = Inr n"
  unfolding parse_amount_def parse_msat_def normalised Let_def sat_not_msat bare_number
  by (simp only: strip_unit option.case trim_fmt_word parse_number and_then_simps sats simp_thms)

section \<open>Untrusted text\<close>

lemma back_off_boundary:
  "is_char_boundary s (back_off s n) \<and> back_off s n \<le> n
    \<and> (\<forall>k. back_off s n < k \<and> k \<le> n \<longrightarrow> \<not> is_char_boundary s k)"
proof (induction s n rule: back_off.induct)
  case (2 s e)
  then show ?case by (auto simp: le_Suc_eq)
qed (auto simp: is_char_boundary_def)

text \<open>Truncation never panics, whatever the server sent: it keeps a text that is short enough and
  otherwise cuts it at the last boundary between code points within the limit.\<close>

theorem truncate_never_panics:
  "\<exists>n \<le> mx. truncate_utf8 s mx = Some (if length s \<le> mx then s else take n s @ ''...'')
    \<and> is_char_boundary s n \<and> (\<forall>k. n < k \<and> k \<le> mx \<longrightarrow> \<not> is_char_boundary s k)"
  using back_off_boundary [of s mx]
  by (intro exI [of _ "back_off s mx"]) (simp add: truncate_utf8_def slice_to_def)

lemma truncate_never_panics_witness: "\<exists>t. truncate_utf8 [CHR ''a'', CHR 0xC3, CHR 0xB1] 2 = Some t \<and> length t \<le> 5"
proof -
  obtain n where "n \<le> 2" "truncate_utf8 [CHR ''a'', CHR 0xC3, CHR 0xB1] 2 =
      Some (take n [CHR ''a'', CHR 0xC3, CHR 0xB1] @ ''...'')"
    using truncate_never_panics [of 2 "[CHR ''a'', CHR 0xC3, CHR 0xB1]"] by auto
  then show ?thesis by simp
qed

text \<open>A chunk of \<open>chars\<close>: its first byte, then continuation bytes.\<close>

definition chunk :: "string \<Rightarrow> bool" where
  "chunk p \<longleftrightarrow> p \<noteq> [] \<and> (\<forall>c \<in> set (tl p). is_cont c)"

lemma in_tl: "x \<in> set (tl xs) \<Longrightarrow> x \<in> set xs"
  by (cases xs) auto

lemma chars_concat:
  assumes "\<forall>p \<in> set ps. chunk p" and "\<forall>p \<in> set (tl ps). \<not> is_cont (hd p)"
  shows "chars (concat ps) = ps"
  using assms
proof (induction ps)
  case (Cons p ps)
  then obtain c cs where p: "p = c # cs" "\<forall>x \<in> set cs. is_cont x" by (cases p) (auto simp: chunk_def)
  have "concat ps = [] \<or> \<not> is_cont (hd (concat ps))"
    using Cons.prems by (cases ps) (auto simp: chunk_def hd_append)
  from while_prefix [OF p(2) this] have "chars (concat (p # ps)) = p # chars (concat ps)" by (simp add: p)
  moreover have "chars (concat ps) = ps"
    using Cons.prems by (intro Cons.IH) (auto dest: in_tl)
  ultimately show ?case by simp
qed simp

lemma chars_chunks: "(\<forall>p \<in> set (chars s). chunk p) \<and> (\<forall>p \<in> set (tl (chars s)). \<not> is_cont (hd p))"
proof (induction s rule: chars.induct)
  case (2 c cs)
  have "\<not> is_cont (hd p)" if p: "p \<in> set (chars (dropWhile is_cont cs))" for p
  proof (cases "dropWhile is_cont cs")
    case (Cons d ds)
    then have "\<not> is_cont d" using hd_dropWhile [of is_cont cs] by simp
    with p Cons "2.IH" show ?thesis by auto
  next
    case Nil
    then have "chars (dropWhile is_cont cs) = []" by (simp only: chars.simps)
    with p show ?thesis by simp
  qed
  with "2.IH" show ?case by (auto simp: chunk_def dest: set_takeWhileD)
qed simp

lemma tl_filter: "set (tl (filter P xs)) \<subseteq> set (tl xs)"
  by (cases xs) (auto dest: in_tl)

text \<open>What the sanitiser lets through is the text without its control characters, in order, so no
  escape sequence of the server reaches the terminal through it.\<close>

theorem sanitiser_removes_controls:
  "chars (cli_sanitize s) = filter (\<lambda>c. \<not> is_control c) (chars s)"
  unfolding cli_sanitize_def using chars_chunks [of s] tl_filter [of "\<lambda>c. \<not> is_control c" "chars s"]
  by (intro chars_concat) auto

text \<open>The watch command prints the invoice and the node ids without the sanitiser, so up to 40
  bytes of escape sequences chosen by the server reach the terminal.\<close>

theorem watch_prints_raw_text:
  "length bolt11 \<le> 40 \<Longrightarrow> length node \<le> 16 \<Longrightarrow>
   (\<exists>a. print_invoice_event ts (InvoiceCreated i t label amt d bolt11 rec expiry) = Some [a @ bolt11])
   \<and> (\<exists>a. print_peer_event ts (PeerDisconnected i t node rec) = Some [a @ node])
   \<and> (\<exists>a b. print_channel_event ts (ChannelOpened i t node c m rec) = Some [a @ node @ b])"
  by (intro conjI exI [of _ "ts t @ '' InvoiceCreated: label='' @ cli_sanitize label @ '' bolt11=''"]
      exI [of _ "ts t @ '' PeerDisconnected: node=''"] exI [of _ "ts t @ '' ChannelOpened: node=''"]
      exI [of _ "'' amount='' @ fmt_word m @ ''msat''"])
    (simp_all add: print_invoice_event_def print_peer_event_def print_channel_event_def truncate_utf8_def)

lemma watch_prints_raw_text_witness:
  "\<exists>line. print_invoice_event (\<lambda>_. '''') (InvoiceCreated ''i'' 0 ''l'' None '''' [CHR 0x1B, CHR ''c''] '''' None) = Some [line]
     \<and> CHR 0x1B \<in> set line"
  using watch_prints_raw_text [of "[CHR 0x1B, CHR ''c'']" "''''" "\<lambda>_. ''''" "''i''" 0 "''l''" None "''''" "''''" None "''''" 0]
  by auto

end
