(* ===== verification/File_System.thy ===== *)
theory File_System
  imports Gcob_Prelude "HOL-Library.Sublist"
begin

text \<open>
  The part of \<open>std::fs\<close> that the certificate code uses, on a tree of nodes addressed by the list of
  names from the root: metadata without following links, existence through links, directories,
  modes, owners, renames and removals. Every changing call first reads the next bit of a stream of
  faults, which stands for the errors of the operating system that do not follow from the tree
  (a full disk, a missing permission, a race).
\<close>

unbundle bit_operations_syntax

type_synonym path = "string list"

datatype file_kind = Dir | Regular bytes | Symlink path | Special

record fs_node =
  fn_kind :: file_kind
  fn_mode :: u32
  fn_uid :: u32
  fn_gid :: u32
  fn_acl :: "bytes option"  \<comment> \<open>the attribute \<open>system.posix_acl_access\<close>\<close>

text \<open>\<open>std::io::Error\<close>: the kinds the code tells apart, a fault, any other refusal of the system, and
  \<open>Error::other\<close> with its text.\<close>

datatype io_error = Not_Found | Loop_Error | Io_Fault | Io_Other | Io_Text string

record file_system =
  fs_nodes :: "path \<Rightarrow> fs_node option"
  fs_faults :: "nat \<Rightarrow> bool"
  fs_calls :: nat
  fs_cwd :: path
  fs_listing :: "path \<Rightarrow> string list"  \<comment> \<open>the order in which \<open>read_dir\<close> yields names\<close>
  fs_locked :: "path set"  \<comment> \<open>files locked with \<open>flock\<close>\<close>

definition is_dir :: "fs_node \<Rightarrow> bool" where
  "is_dir n \<longleftrightarrow> fn_kind n = Dir"

definition is_symlink :: "fs_node \<Rightarrow> bool" where
  "is_symlink n \<longleftrightarrow> (case fn_kind n of Symlink _ \<Rightarrow> True | _ \<Rightarrow> False)"

definition is_file :: "fs_node \<Rightarrow> bool" where
  "is_file n \<longleftrightarrow> (case fn_kind n of Regular _ \<Rightarrow> True | _ \<Rightarrow> False)"

text \<open>\<open>mode() & 0o777\<close>\<close>

definition perm_bits :: "fs_node \<Rightarrow> u32" where
  "perm_bits n = fn_mode n AND 0x1FF"

definition tick :: "file_system \<Rightarrow> bool \<times> file_system" where
  "tick fs = (fs_faults fs (fs_calls fs), fs\<lparr>fs_calls := Suc (fs_calls fs)\<rparr>)"

section \<open>Looking\<close>

text \<open>\<open>symlink_metadata\<close> of a path whose parents are no links.\<close>

definition symlink_metadata :: "file_system \<Rightarrow> path \<Rightarrow> io_error + fs_node" where
  "symlink_metadata fs p = (case fs_nodes fs p of None \<Rightarrow> Inl Not_Found | Some n \<Rightarrow> Inr n)"

text \<open>\<open>exists\<close> follows links, at most 40 of them as Linux does.\<close>

fun follow :: "nat \<Rightarrow> file_system \<Rightarrow> path \<Rightarrow> fs_node option" where
  "follow 0 fs p = None"
| "follow (Suc k) fs p = (case fs_nodes fs p of
     None \<Rightarrow> None
   | Some n \<Rightarrow> (case fn_kind n of Symlink t \<Rightarrow> follow k fs t | _ \<Rightarrow> Some n))"

definition path_exists :: "file_system \<Rightarrow> path \<Rightarrow> bool" where
  "path_exists fs p \<longleftrightarrow> follow 41 fs p \<noteq> None"

definition has_parent_dir :: "file_system \<Rightarrow> path \<Rightarrow> bool" where
  "has_parent_dir fs p \<longleftrightarrow> p \<noteq> [] \<and> (case fs_nodes fs (butlast p) of None \<Rightarrow> False | Some n \<Rightarrow> is_dir n)"

section \<open>Changing\<close>

definition set_node :: "path \<Rightarrow> fs_node option \<Rightarrow> file_system \<Rightarrow> file_system" where
  "set_node p n fs = fs\<lparr>fs_nodes := (fs_nodes fs)(p := n)\<rparr>"

text \<open>A renamed directory takes its subtree along. It is not renamed onto an existing entry here (the
  system would accept an empty directory). A rename onto itself does nothing.\<close>

definition move_tree :: "path \<Rightarrow> path \<Rightarrow> file_system \<Rightarrow> file_system" where
  "move_tree a b fs = fs\<lparr>fs_nodes := (\<lambda>p.
     if prefix b p then fs_nodes fs (a @ drop (length b) p)
     else if prefix a p then None else fs_nodes fs p)\<rparr>"

definition fs_rename :: "path \<Rightarrow> path \<Rightarrow> file_system \<Rightarrow> (io_error + unit) \<times> file_system" where
  "fs_rename a b fs =
     (let (bad, fs1) = tick fs in
      if bad then (Inl Io_Fault, fs1)
      else (case fs_nodes fs1 a of
          None \<Rightarrow> (Inl Not_Found, fs1)
        | Some n \<Rightarrow>
            if a = b then (Inr (), fs1)
            else if \<not> has_parent_dir fs1 b then (Inl Io_Other, fs1)
            else if is_dir n then
              (if prefix a b \<or> fs_nodes fs1 b \<noteq> None then (Inl Io_Other, fs1) else (Inr (), move_tree a b fs1))
            else (case fs_nodes fs1 b of
                Some m \<Rightarrow> if is_dir m then (Inl Io_Other, fs1)
                          else (Inr (), set_node a None (set_node b (Some n) fs1))
              | None \<Rightarrow> (Inr (), set_node a None (set_node b (Some n) fs1)))))"

definition remove_file :: "path \<Rightarrow> file_system \<Rightarrow> (io_error + unit) \<times> file_system" where
  "remove_file p fs =
     (let (bad, fs1) = tick fs in
      if bad then (Inl Io_Fault, fs1)
      else (case fs_nodes fs1 p of
          None \<Rightarrow> (Inl Not_Found, fs1)
        | Some n \<Rightarrow> if is_dir n then (Inl Io_Other, fs1) else (Inr (), set_node p None fs1)))"

text \<open>\<open>DirBuilder::new().mode(m).create(p)\<close>: the new directory belongs to the process and gets the
  mode less the process's umask.\<close>

record process =
  euid :: u32
  egid :: u32
  ruid :: u32
  umask :: u32

definition create_dir :: "process \<Rightarrow> u32 \<Rightarrow> path \<Rightarrow> file_system \<Rightarrow> (io_error + unit) \<times> file_system" where
  "create_dir pr mode p fs =
     (let (bad, fs1) = tick fs in
      if bad then (Inl Io_Fault, fs1)
      else if fs_nodes fs1 p \<noteq> None \<or> \<not> has_parent_dir fs1 p then (Inl Io_Other, fs1)
      else (Inr (), set_node p (Some \<lparr>fn_kind = Dir, fn_mode = mode AND NOT (umask pr),
              fn_uid = euid pr, fn_gid = egid pr, fn_acl = None\<rparr>) fs1))"

definition update_node :: "(fs_node \<Rightarrow> fs_node) \<Rightarrow> path \<Rightarrow> file_system \<Rightarrow> (io_error + unit) \<times> file_system" where
  "update_node f p fs =
     (let (bad, fs1) = tick fs in
      if bad then (Inl Io_Fault, fs1)
      else (case fs_nodes fs1 p of
          None \<Rightarrow> (Inl Not_Found, fs1)
        | Some n \<Rightarrow> (Inr (), set_node p (Some (f n)) fs1)))"

definition set_permissions :: "u32 \<Rightarrow> path \<Rightarrow> file_system \<Rightarrow> (io_error + unit) \<times> file_system" where
  "set_permissions mode = update_node (\<lambda>n. n\<lparr>fn_mode := mode\<rparr>)"

definition chown :: "u32 \<Rightarrow> u32 \<Rightarrow> path \<Rightarrow> file_system \<Rightarrow> (io_error + unit) \<times> file_system" where
  "chown uid gid = update_node (\<lambda>n. n\<lparr>fn_uid := uid, fn_gid := gid\<rparr>)"

end
