(* ===== verification/Atomic_Publish.thy ===== *)
theory Atomic_Publish
  imports File_System Rust_Text
begin

text \<open>
  The publication of staged files with backups and rollback (\<open>cli/atomic.rs\<close>), and that it is all or
  nothing when at most one call to the system fails.
\<close>

section \<open>The code\<close>

record planned_file =
  pl_staged :: path
  pl_target :: path
  pl_mode :: u32
  pl_owner :: "u32 \<times> u32"
  pl_fingerprint :: "string option"

definition backup_path :: "path \<Rightarrow> u64 \<Rightarrow> path" where
  "backup_path target stamp =
     (let name = (if target = [] then '''' else last target)
      in butlast target @ [name @ ''.bak.'' @ fmt_word stamp])"

definition rollback :: "path list \<Rightarrow> (path \<times> path) list \<Rightarrow> file_system \<Rightarrow> file_system" where
  "rollback published backups fs =
     fold (\<lambda>(target, backup) fs. snd (fs_rename backup target fs)) (rev backups)
       (fold (\<lambda>target fs. snd (remove_file target fs)) (rev published) fs)"

fun publish_loop :: "u64 \<Rightarrow> planned_file list \<Rightarrow> (path \<times> path) list \<Rightarrow> path list \<Rightarrow> file_system
    \<Rightarrow> (io_error + (path \<times> path) list) \<times> file_system" where
  "publish_loop stamp [] backups published fs = (Inr backups, fs)"
| "publish_loop stamp (file # plan) backups published fs =
     (let target = pl_target file; backup = backup_path target stamp;
          saved = (if path_exists fs target
                   then (case fs_rename target backup fs of
                       (Inl e, fs1) \<Rightarrow> (Inl e, fs1)
                     | (Inr _, fs1) \<Rightarrow> (Inr (backups @ [(target, backup)]), fs1))
                   else (Inr backups, fs))
      in case saved of
           (Inl e, fs1) \<Rightarrow> (Inl e, rollback published backups fs1)
         | (Inr backups1, fs1) \<Rightarrow>
             (case fs_rename (pl_staged file) target fs1 of
                (Inl e, fs2) \<Rightarrow> (Inl e, rollback published backups1 fs2)
              | (Inr _, fs2) \<Rightarrow> publish_loop stamp plan backups1 (published @ [target]) fs2))"

definition publish_files :: "u64 \<Rightarrow> planned_file list \<Rightarrow> file_system \<Rightarrow> (io_error + path list) \<times> file_system" where
  "publish_files stamp plan fs =
     (case publish_loop stamp plan [] [] fs of
        (Inl e, fs') \<Rightarrow> (Inl e, fs')
      | (Inr backups, fs') \<Rightarrow> (Inr (map snd backups), fs'))"

section \<open>Calls that succeed\<close>

type_synonym nodes = "path \<Rightarrow> fs_node option"

text \<open>A leaf is free or holds something that is neither a directory nor a link.\<close>

definition leaf :: "nodes \<Rightarrow> path \<Rightarrow> bool" where
  "leaf N p \<longleftrightarrow> (case N p of None \<Rightarrow> True | Some n \<Rightarrow> \<not> is_dir n \<and> \<not> is_symlink n)"

definition in_dir :: "nodes \<Rightarrow> path \<Rightarrow> bool" where
  "in_dir N p \<longleftrightarrow> p \<noteq> [] \<and> (\<exists>n. N (butlast p) = Some n \<and> is_dir n)"

lemma has_parent_in_dir: "has_parent_dir fs p \<longleftrightarrow> in_dir (fs_nodes fs) p"
  by (auto simp: has_parent_dir_def in_dir_def split: option.split)

definition calm :: "file_system \<Rightarrow> bool" where
  "calm fs \<longleftrightarrow> (\<forall>k \<ge> fs_calls fs. \<not> fs_faults fs k)"

lemma exists_leaf: "leaf (fs_nodes fs) p \<Longrightarrow> path_exists fs p \<longleftrightarrow> fs_nodes fs p \<noteq> None"
  by (auto simp: path_exists_def leaf_def is_symlink_def numeral_eq_Suc split: option.splits file_kind.splits)

lemma rename_leaf:
  assumes "fs_nodes fs a = Some n" and "leaf (fs_nodes fs) a" and "leaf (fs_nodes fs) b"
    and "in_dir (fs_nodes fs) b" and "a \<noteq> b"
  shows "fs_rename a b fs = (if fs_faults fs (fs_calls fs)
    then (Inl Io_Fault, fs\<lparr>fs_calls := Suc (fs_calls fs)\<rparr>)
    else (Inr (), fs\<lparr>fs_calls := Suc (fs_calls fs), fs_nodes := (fs_nodes fs)(b := Some n, a := None)\<rparr>))"
proof -
  have "has_parent_dir (fs\<lparr>fs_calls := c\<rparr>) b" for c using assms(4) by (simp add: has_parent_in_dir)
  moreover have "\<not> is_dir n" using assms(1,2) by (simp add: leaf_def)
  moreover have "\<not> is_dir m" if "fs_nodes fs b = Some m" for m using assms(3) that by (simp add: leaf_def)
  ultimately show ?thesis using assms(1,5)
    by (cases "fs_nodes fs b") (simp_all add: fs_rename_def tick_def Let_def set_node_def)
qed

lemma remove_leaf:
  assumes "leaf (fs_nodes fs) p" and "calm fs"
  shows "calm (snd (remove_file p fs))" and "fs_nodes (snd (remove_file p fs)) = (fs_nodes fs)(p := None)"
  using assms by (auto simp: remove_file_def tick_def Let_def set_node_def leaf_def calm_def fun_eq_iff
      split: option.splits)

lemma restore_leaf:
  assumes "leaf (fs_nodes fs) b" and "leaf (fs_nodes fs) t" and "in_dir (fs_nodes fs) t" and "t \<noteq> b" and "calm fs"
    and "fs_nodes fs b \<noteq> None"
  shows "calm (snd (fs_rename b t fs))"
    and "fs_nodes (snd (fs_rename b t fs)) = (fs_nodes fs)(t := fs_nodes fs b, b := None)"
  using assms rename_leaf [of fs b _ t] by (auto simp: calm_def)

section \<open>Rolling back\<close>

lemma remove_all:
  assumes "\<forall>p \<in> set ps. leaf (fs_nodes fs) p" and "calm fs"
  defines "fs' \<equiv> fold (\<lambda>target fs. snd (remove_file target fs)) ps fs"
  shows "calm fs'" and "fs_nodes fs' = (\<lambda>p. if p \<in> set ps then None else fs_nodes fs p)"
proof -
  have "calm fs' \<and> fs_nodes fs' = (\<lambda>p. if p \<in> set ps then None else fs_nodes fs p)"
    unfolding fs'_def using assms(1,2)
  proof (induction ps arbitrary: fs)
    case (Cons t ps)
    note r = remove_leaf [of fs t]
    have "\<forall>p \<in> set ps. leaf (fs_nodes (snd (remove_file t fs))) p"
      using Cons.prems r(2) by (auto simp: leaf_def)
    from Cons.IH [OF this] r Cons.prems show ?case by (auto simp: fun_eq_iff)
  qed simp
  then show "calm fs'" "fs_nodes fs' = (\<lambda>p. if p \<in> set ps then None else fs_nodes fs p)" by auto
qed

lemma in_dir_upd: "in_dir N p \<Longrightarrow> leaf N t \<Longrightarrow> in_dir (N(t := x)) p"
  by (auto simp: in_dir_def leaf_def)

text \<open>Restoring a list of backups with names of their own.\<close>

definition restorable :: "nodes \<Rightarrow> (path \<times> path) list \<Rightarrow> bool" where
  "restorable N bs \<longleftrightarrow> distinct (map fst bs @ map snd bs)
     \<and> (\<forall>(t, b) \<in> set bs. leaf N t \<and> leaf N b \<and> in_dir N t \<and> N b \<noteq> None)"

definition restored :: "nodes \<Rightarrow> (path \<times> path) list \<Rightarrow> nodes" where
  "restored N bs p = (case map_of bs p of Some b \<Rightarrow> N b | None \<Rightarrow> if p \<in> snd ` set bs then None else N p)"

lemma restore_all:
  assumes "restorable (fs_nodes fs) bs" and "calm fs"
  shows "fs_nodes (fold (\<lambda>(target, backup) fs. snd (fs_rename backup target fs)) bs fs) =
    restored (fs_nodes fs) bs"
  using assms
proof (induction bs arbitrary: fs)
  case (Cons tb bs)
  obtain t b where tb: "tb = (t, b)" by force
  let ?N = "fs_nodes fs" and ?fs = "snd (fs_rename b t fs)"
  have h: "leaf ?N t" "leaf ?N b" "in_dir ?N t" "?N b \<noteq> None" "t \<noteq> b"
    and d: "t \<notin> fst ` set bs" "t \<notin> snd ` set bs" "b \<notin> fst ` set bs" "b \<notin> snd ` set bs"
    and rest: "restorable ?N bs"
    using Cons.prems(1) by (auto simp: restorable_def tb)
  note r = restore_leaf [OF h(2,1,3,5) Cons.prems(2) h(4)]
  have l: "leaf ?N t \<and> leaf (?N(t := ?N b)) b" using h by (simp add: leaf_def)
  have "restorable (fs_nodes ?fs) bs" unfolding r(2) restorable_def
  proof (intro conjI ballI)
    show "distinct (map fst bs @ map snd bs)" using rest by (simp add: restorable_def)
    fix x assume x: "x \<in> set bs"
    obtain u c where uc: "x = (u, c)" by force
    with x rest have "leaf ?N u" "leaf ?N c" "in_dir ?N u" "?N c \<noteq> None" by (auto simp: restorable_def)
    moreover have "u \<noteq> t" "u \<noteq> b" "c \<noteq> t" "c \<noteq> b" using d x uc by force+
    ultimately show "case x of (u, c) \<Rightarrow> leaf (?N(t := ?N b, b := None)) u \<and> leaf (?N(t := ?N b, b := None)) c
        \<and> in_dir (?N(t := ?N b, b := None)) u \<and> (?N(t := ?N b, b := None)) c \<noteq> None"
      using in_dir_upd [OF in_dir_upd [OF _ conjunct1 [OF l]] conjunct2 [OF l]] by (simp add: uc leaf_def)
  qed
  have "fold (\<lambda>(target, backup) fs. snd (fs_rename backup target fs)) (tb # bs) fs =
      fold (\<lambda>(target, backup) fs. snd (fs_rename backup target fs)) bs ?fs" by (simp add: tb)
  then have "fs_nodes (fold (\<lambda>(target, backup) fs. snd (fs_rename backup target fs)) (tb # bs) fs) =
      restored (?N(t := ?N b, b := None)) bs"
    using Cons.IH [OF \<open>restorable (fs_nodes ?fs) bs\<close> r(1)] r(2) by (simp only:)
  also have "\<dots> = restored ?N (tb # bs)"
  proof
    fix p
    have "c \<noteq> t \<and> c \<noteq> b \<and> p \<noteq> t" if "map_of bs p = Some c" for c
    proof -
      from map_of_SomeD [OF that] have "p \<in> fst ` set bs" "c \<in> snd ` set bs" by (simp_all add: rev_image_eqI)
      with d show ?thesis by metis
    qed
    moreover have "map_of bs t = None" using d(1) by (simp add: map_of_eq_None_iff)
    ultimately show "restored (?N(t := ?N b, b := None)) bs p = restored ?N (tb # bs) p"
      using d h(5) by (auto simp: restored_def tb split: option.split)
  qed
  finally show ?case .
qed (simp add: restored_def fun_eq_iff)

lemma restored_rev: "distinct (map fst bs) \<Longrightarrow> restored N (rev bs) = restored N bs"
proof -
  assume d: "distinct (map fst bs)"
  then have "distinct (map fst (rev bs))" by (simp add: rev_map [symmetric])
  with d have "map_of (rev bs) = map_of bs" by (simp add: map_of_inject_set)
  then show ?thesis by (simp add: restored_def fun_eq_iff)
qed

lemma rollback_nodes:
  assumes "calm fs" and "\<forall>p \<in> set published. leaf (fs_nodes fs) p"
    and "restorable (\<lambda>p. if p \<in> set published then None else fs_nodes fs p) bs"
  shows "fs_nodes (rollback published bs fs) = restored (\<lambda>p. if p \<in> set published then None else fs_nodes fs p) bs"
proof -
  let ?fs = "fold (\<lambda>target fs. snd (remove_file target fs)) (rev published) fs"
  have 1: "calm ?fs" "fs_nodes ?fs = (\<lambda>p. if p \<in> set published then None else fs_nodes fs p)"
    using remove_all [of "rev published" fs] assms(1,2) by simp_all
  have "restorable (fs_nodes ?fs) (rev bs)"
    using assms(3) unfolding 1(2) by (auto simp: restorable_def rev_map [symmetric])
  from restore_all [OF this 1(1)] show ?thesis
    using assms(3) restored_rev [of bs] by (simp add: rollback_def 1(2) restorable_def)
qed

section \<open>All or nothing\<close>

abbreviation bak :: "u64 \<Rightarrow> planned_file \<Rightarrow> path" where
  "bak stamp f \<equiv> backup_path (pl_target f) stamp"

text \<open>A plan with names of their own: staged files and targets are leaves, the backup names are free,
  and an existing target is in a directory.\<close>

definition plan_ok :: "nodes \<Rightarrow> u64 \<Rightarrow> planned_file list \<Rightarrow> bool" where
  "plan_ok N stamp plan \<longleftrightarrow>
     distinct (map pl_staged plan @ map pl_target plan @ map (bak stamp) plan) \<and>
     (\<forall>f \<in> set plan. leaf N (pl_staged f) \<and> leaf N (pl_target f) \<and> N (bak stamp f) = None \<and>
        (N (pl_target f) \<noteq> None \<longrightarrow> in_dir N (pl_target f)))"

definition plan_ready :: "nodes \<Rightarrow> planned_file list \<Rightarrow> bool" where
  "plan_ready N plan \<longleftrightarrow> (\<forall>f \<in> set plan. N (pl_staged f) \<noteq> None \<and> in_dir N (pl_target f))"

text \<open>One thing at most goes wrong: the system fails once and the plan is complete, or never.\<close>

definition one_failure :: "planned_file list \<Rightarrow> file_system \<Rightarrow> bool" where
  "one_failure plan fs \<longleftrightarrow> (\<forall>k. \<not> fs_faults fs k) \<or>
     (plan_ready (fs_nodes fs) plan \<and> (\<exists>k. \<forall>j. fs_faults fs j \<longrightarrow> j = k))"

text \<open>Between the calls: the files of \<open>d\<close> are published, those of \<open>d'\<close> have their backup.\<close>

definition between :: "nodes \<Rightarrow> u64 \<Rightarrow> planned_file list \<Rightarrow> planned_file list \<Rightarrow> nodes \<Rightarrow> bool" where
  "between N stamp d d' M \<longleftrightarrow>
     (\<forall>f \<in> set d'. M (bak stamp f) = N (pl_target f)) \<and>
     (\<forall>f \<in> set d. M (pl_staged f) = None \<and> M (pl_target f) = N (pl_staged f)) \<and>
     (\<forall>f \<in> set d' - set d. M (pl_target f) = None) \<and>
     (\<forall>p. p \<notin> bak stamp ` set d' \<union> pl_staged ` set d \<union> pl_target ` set d' \<longrightarrow> M p = N p)"

definition backups_of :: "nodes \<Rightarrow> u64 \<Rightarrow> planned_file list \<Rightarrow> (path \<times> path) list" where
  "backups_of N stamp d = map (\<lambda>f. (pl_target f, bak stamp f)) (filter (\<lambda>f. N (pl_target f) \<noteq> None) d)"

lemma backup_in_dir: "in_dir N t \<Longrightarrow> in_dir N (backup_path t stamp)"
  by (simp add: in_dir_def backup_path_def Let_def)

lemma plan_ok_leaf:
  assumes "plan_ok N stamp plan" and "p \<in> pl_staged ` set plan \<union> pl_target ` set plan \<union> bak stamp ` set plan"
  shows "leaf N p"
  using assms by (auto simp: plan_ok_def leaf_def)

lemma between_dirs:
  assumes "plan_ok N stamp plan" and "set d \<subseteq> set plan" and "set d' \<subseteq> set plan" and "between N stamp d d' M"
    and "in_dir N t"
  shows "in_dir M t"
proof -
  obtain n where n: "N (butlast t) = Some n" "is_dir n" and t: "t \<noteq> []" using assms(5) by (auto simp: in_dir_def)
  then have "\<not> leaf N (butlast t)" by (simp add: leaf_def)
  with plan_ok_leaf [OF assms(1)] assms(2,3)
  have "butlast t \<notin> bak stamp ` set d' \<union> pl_staged ` set d \<union> pl_target ` set d'" by blast
  with assms(4) have "M (butlast t) = N (butlast t)" unfolding between_def by blast
  with n t show ?thesis by (simp add: in_dir_def)
qed

lemma plan_ok_names:
  assumes "plan_ok N stamp plan" and "f \<in> set plan" and "g \<in> set plan"
  shows "pl_staged f \<noteq> pl_target g" "pl_staged f \<noteq> bak stamp g" "pl_target f \<noteq> bak stamp g"
    and "pl_staged f = pl_staged g \<Longrightarrow> f = g" and "pl_target f = pl_target g \<Longrightarrow> f = g"
    and "bak stamp f = bak stamp g \<Longrightarrow> f = g"
proof -
  have d: "distinct (map pl_staged plan)" "distinct (map pl_target plan)" "distinct (map (bak stamp) plan)"
    and i: "pl_staged ` set plan \<inter> (pl_target ` set plan \<union> bak stamp ` set plan) = {}"
      "pl_target ` set plan \<inter> bak stamp ` set plan = {}"
    using assms(1) by (auto simp: plan_ok_def)
  from i assms(2,3) show "pl_staged f \<noteq> pl_target g" "pl_staged f \<noteq> bak stamp g" "pl_target f \<noteq> bak stamp g"
    by blast+
  show "pl_staged f = pl_staged g \<Longrightarrow> f = g" "pl_target f = pl_target g \<Longrightarrow> f = g"
    "bak stamp f = bak stamp g \<Longrightarrow> f = g"
    using d assms(2,3) by (auto simp: distinct_map dest: inj_onD)
qed

definition without :: "path list \<Rightarrow> nodes \<Rightarrow> nodes" where
  "without ps M = (\<lambda>p. if p \<in> set ps then None else M p)"

lemma backups_of_get:
  assumes "plan_ok N stamp plan" and "set d' \<subseteq> set plan" and "distinct d'"
  shows "distinct (map fst (backups_of N stamp d') @ map snd (backups_of N stamp d'))"
    and "map_of (backups_of N stamp d') p = Some q \<longleftrightarrow>
      (\<exists>f \<in> set d'. p = pl_target f \<and> q = bak stamp f \<and> N p \<noteq> None)"
proof -
  note nm = plan_ok_names [OF assms(1)]
  have sub: "f \<in> set d' \<Longrightarrow> f \<in> set plan" for f using assms(2) by auto
  show d: "distinct (map fst (backups_of N stamp d') @ map snd (backups_of N stamp d'))"
    using assms(3) nm(3,5,6) sub by (auto simp: backups_of_def distinct_map inj_on_def)
  then show "map_of (backups_of N stamp d') p = Some q \<longleftrightarrow>
      (\<exists>f \<in> set d'. p = pl_target f \<and> q = bak stamp f \<and> N p \<noteq> None)"
    by (auto simp: map_of_eq_Some_iff backups_of_def)
qed

text \<open>What is left when the rollback has removed the published files.\<close>

lemma between_without:
  assumes ok: "plan_ok N stamp plan" and d: "set d \<subseteq> set d'" "set d' \<subseteq> set plan"
    and b: "between N stamp d d' M"
  defines "R \<equiv> without (map pl_target d) M"
  shows "f \<in> set d' \<Longrightarrow> R (pl_target f) = None"
    and "f \<in> set d' \<Longrightarrow> R (bak stamp f) = N (pl_target f)"
    and "f \<in> set d \<Longrightarrow> R (pl_staged f) = None"
    and "p \<notin> bak stamp ` set d' \<union> pl_staged ` set d \<union> pl_target ` set d' \<Longrightarrow> R p = N p"
    and "in_dir N t \<Longrightarrow> in_dir R t"
proof -
  note nm = plan_ok_names [OF ok]
  show "R (pl_target f) = None" if "f \<in> set d'"
    using b that unfolding between_def R_def without_def by (cases "f \<in> set d") auto
  show "R (bak stamp f) = N (pl_target f)" if "f \<in> set d'"
  proof -
    have "pl_target g \<noteq> bak stamp f" if "g \<in> set d" for g
      using nm(3) [of g f] d that \<open>f \<in> set d'\<close> by blast
    then have "bak stamp f \<notin> set (map pl_target d)" unfolding set_map by (metis imageE)
    then show ?thesis using b that unfolding between_def R_def without_def by (simp only: if_False)
  qed
  show "R (pl_staged f) = None" if "f \<in> set d" using b that unfolding between_def R_def without_def by simp
  show "R p = N p" if "p \<notin> bak stamp ` set d' \<union> pl_staged ` set d \<union> pl_target ` set d'"
  proof -
    have "p \<notin> set (map pl_target d)" using d that by auto
    moreover have "M p = N p" using b that unfolding between_def by blast
    ultimately show ?thesis by (simp add: R_def without_def)
  qed
  assume t: "in_dir N t"
  then obtain n where "N (butlast t) = Some n" "is_dir n" by (auto simp: in_dir_def)
  then have "\<not> leaf N (butlast t)" by (simp add: leaf_def)
  with ok d have "butlast t \<notin> set (map pl_target d)" by (auto simp: plan_ok_def)
  with between_dirs [OF ok _ d(2) b t] d show "in_dir R t" by (auto simp: in_dir_def R_def without_def)
qed

lemma restorable_between:
  assumes ok: "plan_ok N stamp plan" and d: "set d \<subseteq> set d'" "set d' \<subseteq> set plan" "distinct d'"
    and b: "between N stamp d d' M"
  shows "restorable (without (map pl_target d) M) (backups_of N stamp d')"
  unfolding restorable_def
proof (intro conjI ballI)
  let ?R = "without (map pl_target d) M"
  note R = between_without [OF ok d(1,2) b]
  show "distinct (map fst (backups_of N stamp d') @ map snd (backups_of N stamp d'))"
    by (rule backups_of_get(1) [OF ok d(2,3)])
  fix x assume "x \<in> set (backups_of N stamp d')"
  then obtain f where f: "x = (pl_target f, bak stamp f)" "f \<in> set d'" "N (pl_target f) \<noteq> None"
    by (auto simp: backups_of_def)
  with ok d(2) have "in_dir N (pl_target f)" "leaf N (pl_target f)" by (auto simp: plan_ok_def)
  with R(1,2) [OF f(2)] R(5) f(1,3)
  show "case x of (t, b) \<Rightarrow> leaf ?R t \<and> leaf ?R b \<and> in_dir ?R t \<and> ?R b \<noteq> None"
    by (simp add: leaf_def)
qed

lemma restored_between:
  assumes ok: "plan_ok N stamp plan" and d: "set d \<subseteq> set d'" "set d' \<subseteq> set plan" "distinct d'"
    and b: "between N stamp d d' M"
  shows "restored (without (map pl_target d) M) (backups_of N stamp d') p =
    (if p \<in> pl_staged ` set d then None else N p)"
proof -
  note R = between_without [OF ok d(1,2) b] and nm = plan_ok_names [OF ok]
  note mo = backups_of_get(2) [OF ok d(2,3)]
  consider f where "f \<in> set d'" "p = pl_target f" | f where "f \<in> set d'" "p = bak stamp f"
    | f where "f \<in> set d" "p = pl_staged f"
    | "p \<notin> bak stamp ` set d' \<union> pl_staged ` set d \<union> pl_target ` set d'" by blast
  then show ?thesis
  proof cases
    case 1
    then have s: "p \<notin> pl_staged ` set d" using nm(1) d by (metis imageE subsetD)
    show ?thesis
    proof (cases "N p = None")
      case True
      then have "map_of (backups_of N stamp d') p = None" using mo [of p] by (cases "map_of (backups_of N stamp d') p") auto
      then show ?thesis using s True R(1) [OF 1(1)] 1(2) by (simp add: restored_def)
    next
      case False
      then have "map_of (backups_of N stamp d') p = Some (bak stamp f)" using mo 1 by blast
      then show ?thesis using s R(2) [OF 1(1)] 1(2) by (simp add: restored_def)
    qed
  next
    case 2
    have "N p = None" using ok d(2) 2 by (auto simp: plan_ok_def)
    moreover have "map_of (backups_of N stamp d') p = None"
      using mo [of p] calculation by (cases "map_of (backups_of N stamp d') p") auto
    moreover have "N (pl_target f) = None \<or> p \<in> snd ` set (backups_of N stamp d')"
      using 2 by (force simp: backups_of_def)
    ultimately show ?thesis using R(2) [OF 2(1)] 2(2) by (auto simp: restored_def)
  next
    case 3
    have "p \<notin> pl_target ` set d'" using 3 d nm(1) by (metis imageE subsetD)
    then have "map_of (backups_of N stamp d') p = None"
      using mo [of p] by (cases "map_of (backups_of N stamp d') p") auto
    then show ?thesis using R(3) [OF 3(1)] 3 by (auto simp: restored_def)
  next
    case 4
    have "map_of (backups_of N stamp d') p = None"
      using mo [of p] 4 by (cases "map_of (backups_of N stamp d') p") auto
    moreover have "p \<notin> snd ` set (backups_of N stamp d')" using 4 by (auto simp: backups_of_def)
    ultimately show ?thesis using R(4) [OF 4] 4 by (simp add: restored_def)
  qed
qed

lemma rollback_between:
  assumes ok: "plan_ok N stamp plan" and d: "set d \<subseteq> set d'" "set d' \<subseteq> set plan" "distinct d'"
    and b: "between N stamp d d' (fs_nodes fs)" and c: "calm fs"
  shows "fs_nodes (rollback (map pl_target d) (backups_of N stamp d') fs) =
    (\<lambda>p. if p \<in> pl_staged ` set d then None else N p)"
proof -
  have "\<forall>p \<in> set (map pl_target d). leaf (fs_nodes fs) p"
    using b d ok unfolding between_def plan_ok_def by (auto simp: leaf_def)
  then show ?thesis
    using rollback_nodes [OF c _ restorable_between [OF ok d b, unfolded without_def]]
      restored_between [OF ok d b] by (simp add: without_def fun_eq_iff)
qed

lemma rename_cases:
  assumes "leaf (fs_nodes fs) a" and "leaf (fs_nodes fs) b" and "a \<noteq> b"
  obtains (moved) fs1 where "fs_rename a b fs = (Inr (), fs1)"
      "fs_nodes fs1 = (fs_nodes fs)(b := fs_nodes fs a, a := None)" "fs_faults fs1 = fs_faults fs"
  | (failed) e fs1 where "fs_rename a b fs = (Inl e, fs1)" "fs_nodes fs1 = fs_nodes fs"
      "fs_faults fs1 = fs_faults fs" "fs_calls fs1 = Suc (fs_calls fs)"
      "fs_faults fs (fs_calls fs) \<or> fs_nodes fs a = None \<or> \<not> in_dir (fs_nodes fs) b"
proof (cases "fs_faults fs (fs_calls fs) \<or> fs_nodes fs a = None \<or> \<not> in_dir (fs_nodes fs) b")
  case True
  have p: "has_parent_dir (fs\<lparr>fs_calls := c\<rparr>) b = has_parent_dir fs b" for c by (simp add: has_parent_in_dir)
  have "\<exists>e. fs_rename a b fs = (Inl e, fs\<lparr>fs_calls := Suc (fs_calls fs)\<rparr>)"
    using True assms by (auto simp: fs_rename_def tick_def Let_def p has_parent_in_dir split: option.split)
  then obtain e where "fs_rename a b fs = (Inl e, fs\<lparr>fs_calls := Suc (fs_calls fs)\<rparr>)" by blast
  from failed [OF this] True show ?thesis by simp
next
  case False
  then obtain n where "fs_nodes fs a = Some n" by auto
  with False assms rename_leaf [of fs a n b] moved show ?thesis by simp
qed

lemma calm_after:
  assumes "one_failure plan fs0" and "f \<in> set plan" and "fs_faults fs1 = fs_faults fs0"
    and "fs_calls fs1 = Suc c"
    and "fs_faults fs0 c \<or> fs_nodes fs0 (pl_staged f) = None \<or> \<not> in_dir (fs_nodes fs0) (pl_target f)"
  shows "calm fs1"
  using assms unfolding one_failure_def plan_ready_def calm_def by (metis Suc_n_not_le_n)

text \<open>A file whose turn has not come is as it was.\<close>

lemma between_fresh:
  assumes ok: "plan_ok N stamp plan" and p: "plan = d @ f # rest" and b: "between N stamp d d M"
  shows "M (pl_staged f) = N (pl_staged f)" "M (pl_target f) = N (pl_target f)" "M (bak stamp f) = None"
    and "leaf M (pl_staged f)" "leaf M (pl_target f)" "in_dir N t \<Longrightarrow> in_dir M t"
proof -
  have f: "f \<in> set plan" "f \<notin> set d" "set d \<subseteq> set plan"
    using ok p by (auto simp: plan_ok_def)
  have n: "N (bak stamp f) = None" "leaf N (pl_staged f)" "leaf N (pl_target f)"
    using ok f(1) by (auto simp: plan_ok_def)
  have M: "M q = N q" if "q = pl_staged f \<or> q = pl_target f \<or> q = bak stamp f" for q
  proof -
    have "q \<noteq> bak stamp g \<and> q \<noteq> pl_staged g \<and> q \<noteq> pl_target g" if g: "g \<in> set d" for g
    proof -
      have "g \<in> set plan" "g \<noteq> f" using g f by auto
      with plan_ok_names [OF ok f(1)] plan_ok_names [OF ok _ f(1)]
        \<open>q = pl_staged f \<or> q = pl_target f \<or> q = bak stamp f\<close> show ?thesis by metis
    qed
    then have "q \<notin> bak stamp ` set d \<union> pl_staged ` set d \<union> pl_target ` set d" by blast
    then show ?thesis using b unfolding between_def by blast
  qed
  then show "M (pl_staged f) = N (pl_staged f)" "M (pl_target f) = N (pl_target f)" "M (bak stamp f) = None"
    and "leaf M (pl_staged f)" "leaf M (pl_target f)"
    using n by (simp_all add: leaf_def)
  show "in_dir N t \<Longrightarrow> in_dir M t" by (rule between_dirs [OF ok f(3) f(3) b])
qed

lemma between_saved:
  assumes ok: "plan_ok N stamp plan" and p: "plan = d @ f # rest" and b: "between N stamp d d M"
  shows "between N stamp d (d @ [f]) (M(bak stamp f := M (pl_target f), pl_target f := None))"
proof -
  note fr = between_fresh [OF ok p b] and nm = plan_ok_names [OF ok]
  have f: "f \<in> set plan" "f \<notin> set d" "\<And>g. g \<in> set d \<Longrightarrow> g \<in> set plan" using ok p by (auto simp: plan_ok_def)
  have x: "g \<in> set d \<Longrightarrow> pl_target g \<noteq> pl_target f \<and> bak stamp g \<noteq> bak stamp f \<and> bak stamp g \<noteq> pl_target f
      \<and> pl_staged g \<noteq> pl_target f \<and> pl_staged g \<noteq> bak stamp f \<and> pl_target g \<noteq> bak stamp f" for g
    using nm f by metis
  have "bak stamp f \<noteq> pl_target f" using nm(3) f(1) by metis
  with b x f(2) fr(2) show ?thesis unfolding between_def by auto
qed

lemma between_published:
  assumes ok: "plan_ok N stamp plan" and p: "plan = d @ f # rest" and b: "between N stamp d (d @ [f]) M"
    and s: "M (pl_staged f) = N (pl_staged f)"
  shows "between N stamp (d @ [f]) (d @ [f]) (M(pl_target f := M (pl_staged f), pl_staged f := None))"
proof -
  note nm = plan_ok_names [OF ok]
  have f: "f \<in> set plan" "f \<notin> set d" "\<And>g. g \<in> set d \<Longrightarrow> g \<in> set plan" using ok p by (auto simp: plan_ok_def)
  have x: "g \<in> set d \<Longrightarrow> pl_target g \<noteq> pl_target f \<and> pl_staged g \<noteq> pl_staged f \<and> bak stamp g \<noteq> pl_target f
      \<and> pl_staged g \<noteq> pl_target f \<and> pl_target g \<noteq> pl_staged f \<and> bak stamp g \<noteq> pl_staged f" for g
    using nm f by metis
  have "bak stamp f \<noteq> pl_target f" "bak stamp f \<noteq> pl_staged f" "pl_staged f \<noteq> pl_target f" using nm f(1) by metis+
  with b x f(2) s show ?thesis unfolding between_def by auto
qed

text \<open>What a step leaves: an error with the old contents, or the next state between the calls.\<close>

definition undone :: "nodes \<Rightarrow> planned_file list \<Rightarrow> nodes \<Rightarrow> bool" where
  "undone N plan M \<longleftrightarrow> (\<exists>d rest. plan = d @ rest \<and> M = (\<lambda>p. if p \<in> pl_staged ` set d then None else N p))"

definition save :: "u64 \<Rightarrow> planned_file \<Rightarrow> (path \<times> path) list \<Rightarrow> file_system
    \<Rightarrow> (io_error + (path \<times> path) list) \<times> file_system" where
  "save stamp f backups fs =
     (if path_exists fs (pl_target f)
      then (case fs_rename (pl_target f) (bak stamp f) fs of
          (Inl e, fs1) \<Rightarrow> (Inl e, fs1)
        | (Inr _, fs1) \<Rightarrow> (Inr (backups @ [(pl_target f, bak stamp f)]), fs1))
      else (Inr backups, fs))"

lemma save_step:
  assumes ok: "plan_ok N stamp plan" and p: "plan = d @ f # rest" and b: "between N stamp d d (fs_nodes fs)"
    and q: "one_failure plan fs0" "N = fs_nodes fs0" "fs_faults fs = fs_faults fs0"
  obtains (failed) e fs1 where "save stamp f (backups_of N stamp d) fs = (Inl e, fs1)"
      "fs_nodes fs1 = fs_nodes fs" "calm fs1"
  | (saved) fs1 where "save stamp f (backups_of N stamp d) fs = (Inr (backups_of N stamp (d @ [f])), fs1)"
      "between N stamp d (d @ [f]) (fs_nodes fs1)" "fs_faults fs1 = fs_faults fs0"
      "fs_nodes fs1 (pl_staged f) = N (pl_staged f)"
proof -
  note fr = between_fresh [OF ok p b] and sv = between_saved [OF ok p b] and nm = plan_ok_names [OF ok]
  have f: "f \<in> set plan" using p by simp
  have ne: "pl_target f \<noteq> bak stamp f" "pl_staged f \<noteq> bak stamp f" "pl_staged f \<noteq> pl_target f"
    using nm f by blast+
  show ?thesis
  proof (cases "N (pl_target f) = None")
    case True
    then have "(fs_nodes fs)(bak stamp f := fs_nodes fs (pl_target f), pl_target f := None) = fs_nodes fs"
      using fr(2,3) by (auto simp: fun_eq_iff)
    with True sv fr saved [of fs] q show ?thesis
      by (simp add: save_def exists_leaf backups_of_def)
  next
    case False
    then have dir: "in_dir N (pl_target f)" using ok f by (auto simp: plan_ok_def)
    have lb: "leaf (fs_nodes fs) (bak stamp f)" using fr(3) by (simp add: leaf_def)
    from False fr(2,5) have ex: "path_exists fs (pl_target f)" by (simp add: exists_leaf)
    show ?thesis
    proof (cases rule: rename_cases [OF fr(5) lb ne(1)])
      case (1 fs1)
      with False ex sv fr(1) q ne show ?thesis
        by (intro saved [of fs1]) (simp_all add: save_def backups_of_def)
    next
      case (2 e fs1)
      then have "fs_faults fs0 (fs_calls fs) \<or> fs_nodes fs0 (pl_staged f) = None \<or> \<not> in_dir (fs_nodes fs0) (pl_target f)"
        using False fr(2) backup_in_dir [OF fr(6) [OF dir], of stamp] q(3) by auto
      with 2 calm_after [OF q(1) f _ _ this, of fs1] q(3) ex show ?thesis
        by (intro failed [of e fs1]) (simp_all add: save_def)
    qed
  qed
qed

lemma publish_loop_save:
  "publish_loop stamp (f # plan) backups published fs = (case save stamp f backups fs of
     (Inl e, fs1) \<Rightarrow> (Inl e, rollback published backups fs1)
   | (Inr backups1, fs1) \<Rightarrow> (case fs_rename (pl_staged f) (pl_target f) fs1 of
        (Inl e, fs2) \<Rightarrow> (Inl e, rollback published backups1 fs2)
      | (Inr _, fs2) \<Rightarrow> publish_loop stamp plan backups1 (published @ [pl_target f]) fs2))"
  by (simp add: save_def Let_def)

lemma publish_loop_between:
  assumes ok: "plan_ok N stamp plan" and q: "one_failure plan fs0" "N = fs_nodes fs0"
    and p: "plan = d @ rest" and b: "between N stamp d d (fs_nodes fs)" and c: "fs_faults fs = fs_faults fs0"
    and r: "publish_loop stamp rest (backups_of N stamp d) (map pl_target d) fs = (r, fs')"
  shows "case r of Inl e \<Rightarrow> undone N plan (fs_nodes fs')
    | Inr bs \<Rightarrow> bs = backups_of N stamp plan \<and> between N stamp plan plan (fs_nodes fs')"
  using p b c r
proof (induction rest arbitrary: d fs)
  case (Cons f rest)
  have dd: "set d \<subseteq> set plan" "distinct d" "set (d @ [f]) \<subseteq> set plan" "distinct (d @ [f])" "f \<in> set plan"
    using ok Cons.prems(1) by (auto simp: plan_ok_def distinct_map)
  have un: "undone N plan (\<lambda>p. if p \<in> pl_staged ` set d then None else N p)"
    using Cons.prems(1) by (auto simp: undone_def)
  show ?case
  proof (cases rule: save_step [OF ok Cons.prems(1,2) q Cons.prems(3)])
    case (1 e fs1)
    then have "fs_nodes (rollback (map pl_target d) (backups_of N stamp d) fs1) =
        (\<lambda>p. if p \<in> pl_staged ` set d then None else N p)"
      using rollback_between [OF ok order_refl dd(1,2)] Cons.prems(2) by simp
    with 1 Cons.prems(4) un show ?thesis by (simp only: publish_loop_save) auto
  next
    case (2 fs1)
    have "f \<in> set (d @ [f]) - set d" using dd(4) by simp
    with 2(2) have t: "fs_nodes fs1 (pl_target f) = None" unfolding between_def by blast
    have "leaf N (pl_staged f)" using plan_ok_leaf [OF ok] dd(5) by blast
    with t 2(4) have l: "leaf (fs_nodes fs1) (pl_staged f)" "leaf (fs_nodes fs1) (pl_target f)"
      by (simp_all add: leaf_def)
    have ne: "pl_staged f \<noteq> pl_target f" using plan_ok_names(1) [OF ok dd(5) dd(5)] .
    show ?thesis
    proof (cases rule: rename_cases [OF l ne])
      case (1 fs2)
      with between_published [OF ok Cons.prems(1) 2(2,4)]
      have "between N stamp (d @ [f]) (d @ [f]) (fs_nodes fs2)" by simp
      then show ?thesis
      proof (rule Cons.IH [rotated])
        show "fs_faults fs2 = fs_faults fs0" using 1(3) 2(3) by simp
        have "publish_loop stamp rest (backups_of N stamp (d @ [f])) (map pl_target d @ [pl_target f]) fs2 = (r, fs')"
          using Cons.prems(4) 1(1) 2(1) by (simp only: publish_loop_save prod.case sum.case)
        then show "publish_loop stamp rest (backups_of N stamp (d @ [f])) (map pl_target (d @ [f])) fs2 = (r, fs')"
          by simp
      qed (simp add: Cons.prems(1))
    next
      case (2 e fs2)
      note s = \<open>between N stamp d (d @ [f]) (fs_nodes fs1)\<close> \<open>fs_faults fs1 = fs_faults fs0\<close>
        \<open>fs_nodes fs1 (pl_staged f) = N (pl_staged f)\<close>
        \<open>save stamp f (backups_of N stamp d) fs = (Inr (backups_of N stamp (d @ [f])), fs1)\<close>
      have "in_dir N (pl_target f) \<Longrightarrow> in_dir (fs_nodes fs1) (pl_target f)"
        using between_dirs [OF ok dd(1,3) s(1)] .
      with 2 s q(2) have "fs_faults fs0 (fs_calls fs1) \<or> fs_nodes fs0 (pl_staged f) = None \<or>
          \<not> in_dir (fs_nodes fs0) (pl_target f)" by auto
      with 2 s calm_after [OF q(1) dd(5) _ _ this, of fs2] have "calm fs2" by simp
      moreover have "between N stamp d (d @ [f]) (fs_nodes fs2)" using s(1) 2 by simp
      ultimately have "fs_nodes (rollback (map pl_target d) (backups_of N stamp (d @ [f])) fs2) =
          (\<lambda>p. if p \<in> pl_staged ` set d then None else N p)"
        using rollback_between [OF ok _ dd(3,4)] by auto
      moreover have "(r, fs') = (Inl e, rollback (map pl_target d) (backups_of N stamp (d @ [f])) fs2)"
        using 2(1) s(4) Cons.prems(4) by (simp only: publish_loop_save prod.case sum.case)
      ultimately show ?thesis using un by simp
    qed
  qed
qed auto

lemma publish_files_cases:
  assumes "plan_ok (fs_nodes fs) stamp plan" and "one_failure plan fs" and "publish_files stamp plan fs = (r, fs')"
  shows "case r of Inl e \<Rightarrow> undone (fs_nodes fs) plan (fs_nodes fs')
    | Inr bs \<Rightarrow> bs = map snd (backups_of (fs_nodes fs) stamp plan) \<and> between (fs_nodes fs) stamp plan plan (fs_nodes fs')"
proof -
  obtain x fs1 where x: "publish_loop stamp plan [] [] fs = (x, fs1)" by force
  have "between (fs_nodes fs) stamp [] [] (fs_nodes fs)" by (simp add: between_def)
  with publish_loop_between [OF assms(1,2) refl, of "[]" plan fs x fs1] x assms(3) show ?thesis
    by (auto simp: publish_files_def backups_of_def split: sum.splits)
qed

text \<open>A publication that succeeds has met no fault.\<close>

lemma follow_nodes: "fs_nodes fs' = fs_nodes fs \<Longrightarrow> follow k fs' p = follow k fs p"
  by (induction k arbitrary: p) (simp_all split: option.split file_kind.split)

lemma rename_calm:
  assumes "fs_rename a b fs = (Inr (), fs')"
  shows "fs_rename a b (fs\<lparr>fs_faults := F\<rparr>) = (if F (fs_calls fs)
    then (Inl Io_Fault, fs\<lparr>fs_faults := F, fs_calls := Suc (fs_calls fs)\<rparr>) else (Inr (), fs'\<lparr>fs_faults := F\<rparr>))"
  using assms
  by (auto simp: fs_rename_def tick_def Let_def has_parent_dir_def set_node_def move_tree_def
      cong: if_cong split: if_splits option.splits)

lemma publish_loop_calm:
  "publish_loop stamp plan bs ps fs = (Inr x, fs') \<Longrightarrow>
   publish_loop stamp plan bs ps (fs\<lparr>fs_faults := \<lambda>_. False\<rparr>) = (Inr x, fs'\<lparr>fs_faults := \<lambda>_. False\<rparr>)"
proof (induction plan arbitrary: bs ps fs)
  case (Cons f plan)
  let ?N = "\<lambda>fs. fs\<lparr>fs_faults := \<lambda>_. False\<rparr>"
  have e: "path_exists (?N fs) p = path_exists fs p" for p
    by (simp add: path_exists_def follow_nodes [of "?N fs" fs])
  note r = rename_calm [where F = "\<lambda>_. False", simplified]
  show ?case
  proof (cases "path_exists fs (pl_target f)")
    case True
    with Cons.prems obtain fs1 fs2 where 1: "fs_rename (pl_target f) (bak stamp f) fs = (Inr (), fs1)"
      and 2: "fs_rename (pl_staged f) (pl_target f) fs1 = (Inr (), fs2)"
      and 3: "publish_loop stamp plan (bs @ [(pl_target f, bak stamp f)]) (ps @ [pl_target f]) fs2 = (Inr x, fs')"
      by (auto simp: Let_def split: prod.splits sum.splits)
    from r [OF 1] r [OF 2] Cons.IH [OF 3] True e show ?thesis by (simp add: Let_def)
  next
    case False
    with Cons.prems obtain fs2 where 2: "fs_rename (pl_staged f) (pl_target f) fs = (Inr (), fs2)"
      and 3: "publish_loop stamp plan bs (ps @ [pl_target f]) fs2 = (Inr x, fs')"
      by (auto simp: Let_def split: prod.splits sum.splits)
    from r [OF 2] Cons.IH [OF 3] False e show ?thesis by (simp add: Let_def)
  qed
qed simp

lemma publish_files_success:
  assumes "plan_ok (fs_nodes fs) stamp plan" and "publish_files stamp plan fs = (Inr bs, fs')"
  shows "between (fs_nodes fs) stamp plan plan (fs_nodes fs')"
proof -
  from assms(2) obtain b where "publish_loop stamp plan [] [] fs = (Inr b, fs')"
    by (auto simp: publish_files_def split: prod.splits sum.splits)
  from publish_loop_calm [OF this]
  have p: "publish_files stamp plan (fs\<lparr>fs_faults := \<lambda>_. False\<rparr>) = (Inr (map snd b), fs'\<lparr>fs_faults := \<lambda>_. False\<rparr>)"
    by (simp add: publish_files_def)
  have o: "one_failure plan (fs\<lparr>fs_faults := \<lambda>_. False\<rparr>)" by (simp add: one_failure_def)
  from publish_files_cases [OF _ o p] assms(1) show ?thesis by simp
qed

text \<open>C17: publish_files is all or nothing when at most one thing goes wrong: on success every target
  holds its staged file, what it held before is the backup, and nothing else changed; on an error
  every path is as before, except that the staged copies of the files published first are gone.\<close>

theorem publish_all_or_nothing:
  assumes "plan_ok (fs_nodes fs) stamp plan" and "one_failure plan fs"
  shows "case publish_files stamp plan fs of
      (Inr bs, fs') \<Rightarrow> bs = map (bak stamp) (filter (\<lambda>f. fs_nodes fs (pl_target f) \<noteq> None) plan) \<and>
        (\<forall>f \<in> set plan. fs_nodes fs' (pl_target f) = fs_nodes fs (pl_staged f) \<and>
          fs_nodes fs' (pl_staged f) = None \<and> fs_nodes fs' (bak stamp f) = fs_nodes fs (pl_target f)) \<and>
        (\<forall>p. p \<notin> bak stamp ` set plan \<union> pl_staged ` set plan \<union> pl_target ` set plan \<longrightarrow>
          fs_nodes fs' p = fs_nodes fs p)
    | (Inl e, fs') \<Rightarrow> (\<exists>d rest. plan = d @ rest \<and>
        fs_nodes fs' = (\<lambda>p. if p \<in> pl_staged ` set d then None else fs_nodes fs p))"
  using publish_files_cases [OF assms, of "fst (publish_files stamp plan fs)" "snd (publish_files stamp plan fs)"]
  by (auto simp: undone_def backups_of_def between_def comp_def split: prod.split sum.split)

text \<open>A target that is replaced, with a system that fails at the second rename.\<close>

definition ex_node :: "file_kind \<Rightarrow> fs_node" where
  "ex_node k = \<lparr>fn_kind = k, fn_mode = 0x180, fn_uid = 0, fn_gid = 0, fn_acl = None\<rparr>"

definition ex_fs :: file_system where
  "ex_fs = \<lparr>fs_nodes = [[''certs''] \<mapsto> ex_node Dir, [''certs'', ''new''] \<mapsto> ex_node (Regular [1]),
      [''certs'', ''ca.pem''] \<mapsto> ex_node (Regular [2])], fs_faults = (\<lambda>k. k = 1), fs_calls = 0,
      fs_cwd = [], fs_listing = (\<lambda>_. []), fs_locked = {}\<rparr>"

definition ex_plan :: "planned_file list" where
  "ex_plan = [\<lparr>pl_staged = [''certs'', ''new''], pl_target = [''certs'', ''ca.pem''], pl_mode = 0x180,
      pl_owner = (0, 0), pl_fingerprint = None\<rparr>]"

lemma ex_backup: "backup_path [''certs'', ''ca.pem''] 7 = [''certs'', ''ca.pem.bak.7'']"
  by (simp add: backup_path_def) code_simp

lemma publish_all_or_nothing_witness:
  "plan_ok (fs_nodes ex_fs) 7 ex_plan \<and> one_failure ex_plan ex_fs \<and>
   fst (publish_files 7 ex_plan ex_fs) = Inl Io_Fault \<and>
   fs_nodes (snd (publish_files 7 ex_plan ex_fs)) [''certs'', ''ca.pem''] = Some (ex_node (Regular [2]))"
proof -
  have h: "plan_ok (fs_nodes ex_fs) 7 ex_plan" "one_failure ex_plan ex_fs"
    by (auto simp: plan_ok_def one_failure_def plan_ready_def ex_plan_def ex_fs_def leaf_def in_dir_def
        is_dir_def is_symlink_def ex_node_def ex_backup)
  have "fst (publish_files 7 ex_plan ex_fs) = Inl Io_Fault"
    by (simp add: publish_files_def ex_plan_def ex_fs_def ex_backup ex_node_def path_exists_def numeral_eq_Suc
        fs_rename_def tick_def Let_def has_parent_dir_def is_dir_def set_node_def)
  then obtain fs' where r: "publish_files 7 ex_plan ex_fs = (Inl Io_Fault, fs')" by (metis prod.collapse)
  with publish_all_or_nothing [OF h] obtain d rest where "ex_plan = d @ rest"
    and n: "fs_nodes fs' = (\<lambda>p. if p \<in> pl_staged ` set d then None else fs_nodes ex_fs p)" by auto
  then have "set d \<subseteq> set ex_plan" by (metis set_append Un_upper1)
  then have "[''certs'', ''ca.pem''] \<notin> pl_staged ` set d" by (auto simp: ex_plan_def)
  with h r n show ?thesis by (simp add: ex_fs_def)
qed

end
