(* ===== verification/Unix_Paths.thy ===== *)
theory Unix_Paths
  imports File_System Rust_Text
begin

text \<open>
  Path strings as \<open>std::path\<close> takes them apart and as the system walks them: \<open>components\<close>, and the
  walk over a tree with links, which the metadata calls of \<open>std::fs\<close> rest on. The walk follows at
  most 40 links, as Linux does.
\<close>

section \<open>Components\<close>

datatype component = Root_Dir | Cur_Dir | Parent_Dir | Normal string

definition component_of :: "string \<Rightarrow> component" where
  "component_of s = (if s = ''.'' then Cur_Dir else if s = ''..'' then Parent_Dir else Normal s)"

definition components :: "string \<Rightarrow> component list" where
  "components s =
     (let cs = map component_of (filter (\<lambda>p. p \<noteq> []) (split_char (CHR ''/'') s));
          rest = filter (\<lambda>c. c \<noteq> Cur_Dir) cs
      in if starts_with ''/'' s then Root_Dir # rest
         else if cs \<noteq> [] \<and> hd cs = Cur_Dir then Cur_Dir # rest
         else rest)"

definition is_absolute :: "string \<Rightarrow> bool" where
  "is_absolute s \<longleftrightarrow> starts_with ''/'' s"

text \<open>The text of a path that was pushed together from the root.\<close>

definition show_path :: "path \<Rightarrow> string" where
  "show_path p = (if p = [] then ''/'' else concat (map (\<lambda>n. ''/'' @ n) p))"

section \<open>The walk\<close>

text \<open>\<open>fl\<close> says whether a link in the last place is followed too (\<open>stat\<close>) or not (\<open>lstat\<close>).\<close>

function walk :: "nat \<Rightarrow> (path \<Rightarrow> fs_node option) \<Rightarrow> bool \<Rightarrow> path \<Rightarrow> component list \<Rightarrow> io_error + path" where
  "walk k N fl cur [] = Inr cur"
| "walk k N fl cur (Root_Dir # cs) = walk k N fl [] cs"
| "walk k N fl cur (Cur_Dir # cs) = walk k N fl cur cs"
| "walk k N fl cur (Parent_Dir # cs) = walk k N fl (butlast cur) cs"
| "walk k N fl cur (Normal n # cs) =
     (case N (cur @ [n]) of
        None \<Rightarrow> Inl Not_Found
      | Some node \<Rightarrow>
          (case fn_kind node of
             Dir \<Rightarrow> walk k N fl (cur @ [n]) cs
           | Symlink target \<Rightarrow>
               if cs = [] \<and> \<not> fl then Inr (cur @ [n])
               else if k = 0 then Inl Loop_Error
               else walk (k - 1) N fl [] (map Normal target @ cs)
           | _ \<Rightarrow> if cs = [] then Inr (cur @ [n]) else Inl Io_Other))"
  by pat_completeness auto

termination
  by (relation "measures [\<lambda>(k, N, l, cur, cs). k, \<lambda>(k, N, l, cur, cs). length cs]") auto

definition max_links :: nat where
  "max_links = 40"

definition resolve :: "bool \<Rightarrow> file_system \<Rightarrow> string \<Rightarrow> io_error + path" where
  "resolve fl fs p = walk max_links (fs_nodes fs) fl (fs_cwd fs) (components p)"

definition node_at :: "file_system \<Rightarrow> io_error + path \<Rightarrow> io_error + fs_node" where
  "node_at fs r = and_then r (\<lambda>q. case fs_nodes fs q of None \<Rightarrow> Inl Not_Found | Some n \<Rightarrow> Inr n)"

text \<open>\<open>fs::symlink_metadata\<close>, \<open>fs::metadata\<close>, \<open>Path::exists\<close>, \<open>is_dir\<close> and \<open>is_file\<close>\<close>

definition lstat :: "file_system \<Rightarrow> string \<Rightarrow> io_error + fs_node" where
  "lstat fs p = node_at fs (resolve False fs p)"

definition stat :: "file_system \<Rightarrow> string \<Rightarrow> io_error + fs_node" where
  "stat fs p = node_at fs (resolve True fs p)"

definition exists_at :: "file_system \<Rightarrow> string \<Rightarrow> bool" where
  "exists_at fs p \<longleftrightarrow> (case stat fs p of Inl _ \<Rightarrow> False | Inr _ \<Rightarrow> True)"

definition is_dir_at :: "file_system \<Rightarrow> string \<Rightarrow> bool" where
  "is_dir_at fs p \<longleftrightarrow> (case stat fs p of Inl _ \<Rightarrow> False | Inr n \<Rightarrow> is_dir n)"

definition is_file_at :: "file_system \<Rightarrow> string \<Rightarrow> bool" where
  "is_file_at fs p \<longleftrightarrow> (case stat fs p of Inl _ \<Rightarrow> False | Inr n \<Rightarrow> is_file n)"

section \<open>Walks without links\<close>

text \<open>Every place on the way is a directory.\<close>

definition real_dirs :: "(path \<Rightarrow> fs_node option) \<Rightarrow> path \<Rightarrow> path \<Rightarrow> bool" where
  "real_dirs N cur q \<longleftrightarrow> (\<forall>r. r \<noteq> [] \<and> prefix r q \<longrightarrow> (\<exists>n. N (cur @ r) = Some n \<and> is_dir n))"

lemma real_dirs_Nil [simp]: "real_dirs N cur []"
  by (simp add: real_dirs_def)

lemma real_dirs_Cons: "real_dirs N cur (n # q) \<longleftrightarrow>
    (\<exists>node. N (cur @ [n]) = Some node \<and> is_dir node) \<and> real_dirs N (cur @ [n]) q"
proof
  assume d: "real_dirs N cur (n # q)"
  have "\<exists>m. N ((cur @ [n]) @ r) = Some m \<and> is_dir m" if "r \<noteq> []" "prefix r q" for r
    using d [unfolded real_dirs_def, rule_format, of "n # r"] that by simp
  then show "(\<exists>node. N (cur @ [n]) = Some node \<and> is_dir node) \<and> real_dirs N (cur @ [n]) q"
    using d [unfolded real_dirs_def, rule_format, of "[n]"] by (simp add: real_dirs_def)
next
  assume d: "(\<exists>node. N (cur @ [n]) = Some node \<and> is_dir node) \<and> real_dirs N (cur @ [n]) q"
  show "real_dirs N cur (n # q)"
    unfolding real_dirs_def
  proof (intro allI impI)
    fix r assume r: "r \<noteq> [] \<and> prefix r (n # q)"
    then obtain s where "r = n # s" "prefix s q" by (auto simp: prefix_Cons)
    with d show "\<exists>m. N (cur @ r) = Some m \<and> is_dir m"
      by (cases "s = []") (auto simp: real_dirs_def)
  qed
qed

lemma is_dir_kind: "is_dir n \<longleftrightarrow> fn_kind n = Dir"
  by (simp add: is_dir_def)

lemma walk_real_dirs:
  "real_dirs N cur q \<Longrightarrow> walk k N fl cur (map Normal q @ cs) = walk k N fl (cur @ q) cs"
proof (induction q arbitrary: cur)
  case (Cons n q)
  then obtain node where "N (cur @ [n]) = Some node" "fn_kind node = Dir" "real_dirs N (cur @ [n]) q"
    by (auto simp: real_dirs_Cons is_dir_kind)
  with Cons.IH [of "cur @ [n]"] show ?case by simp
qed simp

lemma real_dirs_snoc: "real_dirs N cur (q @ [n]) \<longleftrightarrow>
    real_dirs N cur q \<and> (\<exists>node. N (cur @ q @ [n]) = Some node \<and> is_dir node)"
  by (induction q arbitrary: cur) (auto simp: real_dirs_Cons)

end
