(* ===== verification/Cert_Paths.thy ===== *)
theory Cert_Paths
  imports Unix_Paths
begin

text \<open>
  Accounts, certificate directories and secure reads (\<open>certs/paths.rs\<close>, \<open>CertError\<close> of
  \<open>certs/generate.rs\<close>): who owns the material, the refusal of symbolic links, the POSIX access
  lists, the creation of a secure directory, and the checks before a file is read. The account
  database and the environment are the record \<open>host\<close>.
\<close>

unbundle bit_operations_syntax

section \<open>Errors\<close>

datatype cert_error =
    Cert_Io io_error
  | Rcgen string
  | Cert_Parse string
  | Missing_Source string
  | Invalid_Ip string

text \<open>\<open>CertError::Io(std::io::Error::other(text))\<close>\<close>

definition other_error :: "string \<Rightarrow> cert_error" where
  "other_error t = Cert_Io (Io_Text t)"

definition display_cert_error :: "(io_error \<Rightarrow> string) \<Rightarrow> cert_error \<Rightarrow> string" where
  "display_cert_error show_io err = (case err of
     Cert_Io e \<Rightarrow> ''IO error: '' @ show_io e
   | Rcgen e \<Rightarrow> ''Certificate error: '' @ e
   | Cert_Parse e \<Rightarrow> ''Parse error: '' @ e
   | Missing_Source e \<Rightarrow> ''Missing source: '' @ e
   | Invalid_Ip e \<Rightarrow> ''Invalid IP address: '' @ e)"

text \<open>\<open>{:04o}\<close>\<close>

fun fmt_octal :: "nat \<Rightarrow> string" where
  "fmt_octal n = (if n < 8 then [digit_char n] else fmt_octal (n div 8) @ [digit_char (n mod 8)])"

definition fmt_mode :: "u32 \<Rightarrow> string" where
  "fmt_mode m = (let t = fmt_octal (unat m) in replicate (4 - length t) (CHR ''0'') @ t)"

definition quoted :: "string \<Rightarrow> string" where
  "quoted s = [CHR 0x27] @ s @ [CHR 0x27]"

definition nl :: string where
  "nl = [CHR 0x0A]"

text \<open>A call that changes the tree yields its result and the new tree; \<open>and_do\<close> is \<open>?\<close> on it.\<close>

type_synonym 'a io = "file_system \<Rightarrow> (cert_error + 'a) \<times> file_system"

definition and_do :: "'a io \<Rightarrow> ('a \<Rightarrow> 'b io) \<Rightarrow> 'b io" where
  "and_do m f = (\<lambda>fs. case m fs of (Inl e, fs1) \<Rightarrow> (Inl e, fs1) | (Inr a, fs1) \<Rightarrow> f a fs1)"

definition give :: "cert_error + 'a \<Rightarrow> 'a io" where
  "give r = (\<lambda>fs. (r, fs))"

definition io :: "(file_system \<Rightarrow> (io_error + 'a) \<times> file_system) \<Rightarrow> 'a io" where
  "io m = (\<lambda>fs. case m fs of (Inl e, fs1) \<Rightarrow> (Inl (Cert_Io e), fs1) | (Inr a, fs1) \<Rightarrow> (Inr a, fs1))"

definition looked :: "io_error + 'a \<Rightarrow> cert_error + 'a" where
  "looked r = (case r of Inl e \<Rightarrow> Inl (Cert_Io e) | Inr a \<Rightarrow> Inr a)"

section \<open>Accounts\<close>

record admin_account =
  aa_name :: string
  aa_uid :: u32
  aa_gid :: u32
  aa_home :: string

record host =
  pw_by_name :: "string \<Rightarrow> admin_account option"
  pw_by_uid :: "u32 \<Rightarrow> admin_account option"
  env_var :: "string \<Rightarrow> string option"
  proc :: process

text \<open>\<open>CString::new\<close> refuses a name with a NUL byte.\<close>

definition account_from_name :: "host \<Rightarrow> string \<Rightarrow> admin_account option" where
  "account_from_name h name = (if CHR 0x00 \<in> set name then None else pw_by_name h name)"

definition account_from_uid :: "host \<Rightarrow> u32 \<Rightarrow> admin_account option" where
  "account_from_uid h uid = pw_by_uid h uid"

definition account_by_name :: "host \<Rightarrow> string \<Rightarrow> cert_error + admin_account" where
  "account_by_name h name = (case account_from_name h name of
     Some a \<Rightarrow> Inr a
   | None \<Rightarrow> Inl (other_error (''User '' @ quoted name @ '' does not exist on this system'')))"

definition current_account :: "host \<Rightarrow> cert_error + admin_account" where
  "current_account h = (case account_from_uid h (euid (proc h)) of
     Some a \<Rightarrow> Inr a
   | None \<Rightarrow> Inl (other_error (''Cannot resolve current uid '' @ fmt_word (euid (proc h)))))"

definition sudo_account :: "host \<Rightarrow> admin_account option" where
  "sudo_account h = (case env_var h ''SUDO_USER'' of
     Some name \<Rightarrow> if name \<noteq> [] \<and> name \<noteq> ''root'' then account_from_name h name else None
   | None \<Rightarrow> None)"

definition real_account :: "host \<Rightarrow> admin_account option" where
  "real_account h = (if 1000 \<le> ruid (proc h) then account_from_uid h (ruid (proc h)) else None)"

definition detect_admin_account :: "host \<Rightarrow> cert_error + admin_account" where
  "detect_admin_account h =
     (let fallback = (case sudo_account h of
          Some a \<Rightarrow> Inr a
        | None \<Rightarrow>
            (case real_account h of
               Some a \<Rightarrow> Inr a
             | None \<Rightarrow> Inl (other_error
                 ''Cannot determine the admin account that owns ~/.certs; set GCOB_ADMIN_USER'')))
      in case env_var h ''GCOB_ADMIN_USER'' of
           Some name \<Rightarrow>
             if name \<noteq> [] then
               (case account_from_name h name of
                  Some a \<Rightarrow> Inr a
                | None \<Rightarrow> Inl (other_error
                    (''GCOB_ADMIN_USER='' @ quoted name @ '' does not exist on this system'')))
             else fallback
         | None \<Rightarrow> fallback)"

definition default_cert_dir :: "host \<Rightarrow> cert_error + string" where
  "default_cert_dir h = and_then (detect_admin_account h) (\<lambda>a. Inr (path_join (aa_home a) ''.certs''))"

definition is_gcob_user :: "host \<Rightarrow> cert_error + bool" where
  "is_gcob_user h = (case account_from_name h ''gcob'' of
     None \<Rightarrow> Inl (other_error (''User '' @ quoted ''gcob'' @ '' does not exist on this system''))
   | Some g \<Rightarrow> Inr (euid (proc h) = aa_uid g))"

definition no_gcob_user :: string where
  "no_gcob_user =
     ''Error: User '' @ quoted ''gcob'' @ '' does not exist on this system.'' @ nl @ nl @
     ''To create the gcob user, run as root:'' @ nl @ nl @
     ''1. Create the user (no home, no shell):'' @ nl @
     ''sudo useradd -r -s /usr/sbin/nologin gcob'' @ nl @ nl @
     ''2. Set a password (for sudo -u gcob):'' @ nl @
     ''sudo passwd gcob'' @ nl @ nl @
     ''Then run:'' @ nl @
     ''sudo -u gcob gcob init --cln-dir <CLN_DIR>''"

definition check_gcob_access :: "host \<Rightarrow> cert_error + unit" where
  "check_gcob_access h = (case account_from_name h ''gcob'' of
     None \<Rightarrow> Inl (other_error no_gcob_user)
   | Some g \<Rightarrow>
       (let uid = ruid (proc h);
            name = (case account_from_uid h uid of Some a \<Rightarrow> aa_name a | None \<Rightarrow> ''unknown'')
        in if uid = aa_uid g \<or> uid = 0 then Inr ()
           else Inl (other_error
             (''Permission denied: only user '' @ quoted ''gcob'' @ '' can manage certificates. Current: '' @
              quoted name @ '' (uid='' @ fmt_word uid @ '')'' @ nl @ ''  Run: sudo -u gcob gcob <command>''))))"

section \<open>The files of a certificate directory\<close>

record client_paths =
  cp_cert_dir :: string
  cp_ca_file :: string
  cp_client_key_file :: string

definition client_paths_new :: "string \<Rightarrow> client_paths" where
  "client_paths_new dir = \<lparr>cp_cert_dir = dir, cp_ca_file = path_join dir ''ca.pem'',
     cp_client_key_file = path_join dir ''client-key.pem''\<rparr>"

definition client_paths_default :: "host \<Rightarrow> cert_error + client_paths" where
  "client_paths_default h = and_then (default_cert_dir h) (\<lambda>d. Inr (client_paths_new d))"

record server_paths =
  sp_haproxy_cert_dir :: string
  sp_haproxy_ca_dir :: string
  sp_server_concat_file :: string
  sp_client_concat_file :: string
  sp_ca_file :: string

definition server_paths_new :: "string \<Rightarrow> server_paths" where
  "server_paths_new dir =
     (let ca_dir = path_join dir ''ca-certs''
      in \<lparr>sp_haproxy_cert_dir = dir, sp_haproxy_ca_dir = ca_dir,
          sp_server_concat_file = path_join dir ''cert_server_concat.pem'',
          sp_client_concat_file = path_join dir ''cert_client_concat.pem'',
          sp_ca_file = path_join ca_dir ''ca.pem''\<rparr>)"

definition server_paths_default :: server_paths where
  "server_paths_default = server_paths_new ''/etc/haproxy/certs''"

record cln_source_paths =
  cs_dir :: string
  cs_ca_file :: string
  cs_ca_key_file :: string

definition cln_source_paths_new :: "string \<Rightarrow> cln_source_paths" where
  "cln_source_paths_new dir = \<lparr>cs_dir = dir, cs_ca_file = path_join dir ''ca.pem'',
     cs_ca_key_file = path_join dir ''ca-key.pem''\<rparr>"

section \<open>Access lists\<close>

definition ACL_TAG_GROUP_OBJ :: u16 where "ACL_TAG_GROUP_OBJ = 0x04"
definition ACL_TAG_GROUP :: u16 where "ACL_TAG_GROUP = 0x08"
definition ACL_TAG_OTHER :: u16 where "ACL_TAG_OTHER = 0x20"

text \<open>\<open>from_le_bytes\<close> and \<open>to_le_bytes\<close>\<close>

fun from_le_bytes :: "bytes \<Rightarrow> 'a::len word" where
  "from_le_bytes [] = 0"
| "from_le_bytes (b # bs) = ucast b + 256 * from_le_bytes bs"

fun to_le_bytes :: "nat \<Rightarrow> 'a::len word \<Rightarrow> bytes" where
  "to_le_bytes 0 w = []"
| "to_le_bytes (Suc k) w = ucast w # to_le_bytes k (drop_bit 8 w)"

text \<open>\<open>chunks_exact(8)\<close>\<close>

fun chunks8 :: "bytes \<Rightarrow> bytes list" where
  "chunks8 (a # b # c # d # e # f # g # h # rest) = [a, b, c, d, e, f, g, h] # chunks8 rest"
| "chunks8 _ = []"

definition broad_entry :: "u16 \<Rightarrow> bytes \<Rightarrow> bool" where
  "broad_entry perms entry =
     (let tag = from_le_bytes (take 2 entry); perm = from_le_bytes (take 2 (drop 2 entry))
      in perm AND perms \<noteq> 0 \<and> (tag = ACL_TAG_GROUP_OBJ \<or> tag = ACL_TAG_GROUP \<or> tag = ACL_TAG_OTHER))"

definition acl_has_broad_perms_from_bytes :: "bytes \<Rightarrow> u16 \<Rightarrow> bool option" where
  "acl_has_broad_perms_from_bytes buf perms =
     (if length buf < 4 \<or> (length buf - 4) mod 8 \<noteq> 0 then None
      else if (from_le_bytes (take 4 buf) :: u32) \<noteq> 2 then None
      else Some (list_ex (broad_entry perms) (chunks8 (drop 4 buf))))"

text \<open>The attribute of a node; \<open>getxattr\<close> on a path follows links, \<open>fgetxattr\<close> takes the open file.\<close>

definition acl_has_broad_perms_fd :: "fs_node \<Rightarrow> u16 \<Rightarrow> bool option" where
  "acl_has_broad_perms_fd n perms = (case fn_acl n of
     None \<Rightarrow> None
   | Some blob \<Rightarrow> if blob = [] then None else acl_has_broad_perms_from_bytes blob perms)"

definition acl_has_broad_perms :: "file_system \<Rightarrow> string \<Rightarrow> u16 \<Rightarrow> bool option" where
  "acl_has_broad_perms fs p perms =
     (if CHR 0x00 \<in> set p then None
      else case stat fs p of Inl _ \<Rightarrow> None | Inr n \<Rightarrow> acl_has_broad_perms_fd n perms)"

definition effective_perms_are_owner_only :: "file_system \<Rightarrow> string \<Rightarrow> u32 \<Rightarrow> u32 \<Rightarrow> bool" where
  "effective_perms_are_owner_only fs p mode perms \<longleftrightarrow>
     mode AND perms = 0 \<or> acl_has_broad_perms fs p (ucast perms) = Some False"

definition effective_perms_are_owner_only_fd :: "fs_node \<Rightarrow> u32 \<Rightarrow> u32 \<Rightarrow> bool" where
  "effective_perms_are_owner_only_fd n mode perms \<longleftrightarrow>
     mode AND perms = 0 \<or> acl_has_broad_perms_fd n (ucast perms) = Some False"

definition haproxy_certs_dir_is_secure :: "file_system \<Rightarrow> string \<Rightarrow> bool" where
  "haproxy_certs_dir_is_secure fs dir = (case lstat fs dir of
     Inr n \<Rightarrow> if is_dir n \<and> \<not> is_symlink n then effective_perms_are_owner_only fs dir (perm_bits n) 0x12 else False
   | Inl _ \<Rightarrow> False)"

definition is_server_env :: "host \<Rightarrow> file_system \<Rightarrow> bool" where
  "is_server_env h fs \<longleftrightarrow>
     (case env_var h ''GRPC_BIND_ADDR'' of Some v \<Rightarrow> v \<noteq> [] | None \<Rightarrow> False) \<and>
     haproxy_certs_dir_is_secure fs ''/etc/haproxy/certs''"

end
