(* ===== verification/Acl_Lists.thy ===== *)
theory Acl_Lists
  imports Cert_Paths
begin

text \<open>
  The binary access lists of \<open>system.posix_acl_access\<close>: the parser of \<open>certs/paths.rs\<close> against the
  encoding (\<open>acl_blob\<close> of its test support), in both directions.
\<close>

unbundle bit_operations_syntax

text \<open>The encoder: version 2, then a tag, permissions and an id per entry.\<close>

definition acl_entry :: "u16 \<times> u16 \<times> u32 \<Rightarrow> bytes" where
  "acl_entry = (\<lambda>(tag, perm, id). to_le_bytes 2 tag @ to_le_bytes 2 perm @ to_le_bytes 4 id)"

definition acl_blob :: "(u16 \<times> u16 \<times> u32) list \<Rightarrow> bytes" where
  "acl_blob entries = to_le_bytes 4 (2 :: u32) @ concat (map acl_entry entries)"

section \<open>Little-endian bytes\<close>

lemma length_to_le_bytes [simp]: "length (to_le_bytes k w) = k"
  by (induction k arbitrary: w) auto

lemma low_byte: "ucast (ucast w :: u8) = take_bit 8 (w :: 'a::len word)"
  by (rule bit_word_eqI) (auto simp: bit_ucast_iff bit_take_bit_iff)

lemma from_to_le_bytes: "from_le_bytes (to_le_bytes k (w :: 'a::len word)) = take_bit (8 * k) w"
proof (induction k arbitrary: w)
  case (Suc k)
  have "from_le_bytes (to_le_bytes (Suc k) w) = take_bit 8 w + push_bit 8 (take_bit (8 * k) (drop_bit 8 w))"
    by (simp add: Suc.IH push_bit_eq_mult low_byte)
  also have "\<dots> = take_bit (8 * Suc k) w"
  proof -
    let ?x = "take_bit (8 * Suc k) w"
    have "drop_bit 8 ?x = take_bit (8 * k) (drop_bit 8 w)" by (simp only: drop_bit_take_bit) simp
    moreover have "take_bit 8 ?x = take_bit 8 w" by (simp only: take_bit_take_bit) simp
    ultimately show ?thesis using bits_ident [of 8 ?x] by (simp only: add.commute)
  qed
  finally show ?case .
qed simp

lemma from_to_le_2 [simp]: "from_le_bytes (to_le_bytes 2 (w :: u16)) = w"
  by (simp add: from_to_le_bytes take_bit_word_eq_self)

lemma from_to_le_4 [simp]: "from_le_bytes (to_le_bytes 4 (w :: u32)) = w"
  by (simp add: from_to_le_bytes take_bit_word_eq_self)

lemma byte_bound: "unat (b :: u8) < 256"
proof -
  have "unat b < 2 ^ LENGTH(8)" by (rule unsigned_less)
  then show ?thesis by simp
qed

lemma unat_from_le:
  assumes "8 * length bs \<le> LENGTH('a)"
  shows "unat (from_le_bytes bs :: 'a::len word) = horner_sum unat 256 bs \<and> horner_sum unat 256 bs < 2 ^ (8 * length bs)"
  using assms
proof (induction bs)
  case (Cons b bs)
  let ?r = "from_le_bytes bs :: 'a word" and ?h = "horner_sum unat 256 bs"
  have r: "unat ?r = ?h" "?h < 2 ^ (8 * length bs)" using Cons by auto
  have b: "unat b < 256" by (rule byte_bound)
  then have s: "unat b + 256 * ?h < 2 ^ (8 * length (b # bs))"
    using r(2) by (simp add: power_add)
  also have "\<dots> \<le> 2 ^ LENGTH('a)" using Cons.prems by (intro power_increasing) auto
  finally have l: "unat b + 256 * ?h < 2 ^ LENGTH('a)" .
  have e: "(ucast b + 256 * ?r :: 'a word) = of_nat (unat b + 256 * ?h)"
    unfolding r(1) [symmetric] by (simp add: of_nat_unat)
  have "unat (ucast b + 256 * ?r :: 'a word) = unat b + 256 * ?h"
    unfolding e by (rule unat_of_nat_small [OF l])
  with s show ?case by simp
qed simp

lemma to_from_le_bytes:
  assumes "8 * length bs \<le> LENGTH('a)"
  shows "to_le_bytes (length bs) (from_le_bytes bs :: 'a::len word) = bs"
  using assms
proof (induction bs)
  case (Cons b bs)
  let ?r = "from_le_bytes bs :: 'a word" and ?w = "from_le_bytes (b # bs) :: 'a word"
  have u: "unat ?w = unat b + 256 * unat ?r"
    using unat_from_le [of "b # bs", where ?'a = 'a] unat_from_le [of bs, where ?'a = 'a] Cons.prems by simp
  have b: "unat b < 256" by (rule byte_bound)
  have "unat (ucast ?w :: u8) = unat ?w mod 256" by (simp add: unsigned_ucast_eq take_bit_eq_mod)
  then have 1: "(ucast ?w :: u8) = b" using u b by (simp add: word_unat_eq_iff)
  have "unat (drop_bit 8 ?w) = unat ?w div 256" by (simp only: unat_drop_bit_eq) (simp add: drop_bit_eq_div)
  then have 2: "drop_bit 8 ?w = ?r" using u b by (simp add: word_unat_eq_iff)
  show ?case using Cons.IH Cons.prems 1 2 by simp
qed simp

section \<open>Entries\<close>

lemma entry_chunk: "length (acl_entry e) = 8"
  by (cases e) (simp add: acl_entry_def)

lemma chunks8_append: "length c = 8 \<Longrightarrow> chunks8 (c @ rest) = c # chunks8 rest"
  by (simp add: length_Suc_conv numeral_eq_Suc) auto

lemma chunks8_entries: "chunks8 (concat (map acl_entry es)) = map acl_entry es"
  by (induction es) (simp_all add: chunks8_append entry_chunk)

lemma length_blob: "length (concat (map acl_entry es)) = 8 * length es"
  by (induction es) (simp_all add: entry_chunk)

definition grants_broadly :: "u16 \<Rightarrow> u16 \<times> u16 \<times> u32 \<Rightarrow> bool" where
  "grants_broadly perms = (\<lambda>(tag, perm, id).
     tag \<in> {ACL_TAG_GROUP_OBJ, ACL_TAG_GROUP, ACL_TAG_OTHER} \<and> perm AND perms \<noteq> 0)"

lemma broad_entry_acl: "broad_entry perms (acl_entry e) = grants_broadly perms e"
  by (cases e) (auto simp: broad_entry_def acl_entry_def grants_broadly_def Let_def)

lemma acl_of_blob: "acl_has_broad_perms_from_bytes (acl_blob es) perms = Some (\<exists>e \<in> set es. grants_broadly perms e)"
  by (simp add: acl_has_broad_perms_from_bytes_def acl_blob_def length_blob chunks8_entries list_ex_iff
      broad_entry_acl)

lemma chunk_entry:
  assumes "length c = 8"
  shows "\<exists>e. c = acl_entry e"
proof -
  let ?t = "take 2 c" and ?p = "take 2 (drop 2 c)" and ?i = "drop 4 c"
  have "c = ?t @ ?p @ ?i" by (metis append_take_drop_id drop_drop numeral_Bit0)
  moreover have "to_le_bytes 2 (from_le_bytes ?t :: u16) = ?t" "to_le_bytes 2 (from_le_bytes ?p :: u16) = ?p"
    "to_le_bytes 4 (from_le_bytes ?i :: u32) = ?i"
    using assms to_from_le_bytes [of ?t, where ?'a = 16] to_from_le_bytes [of ?p, where ?'a = 16]
      to_from_le_bytes [of ?i, where ?'a = 32] by simp_all
  ultimately have "c = acl_entry (from_le_bytes ?t, from_le_bytes ?p, from_le_bytes ?i)"
    by (simp add: acl_entry_def)
  then show ?thesis by blast
qed

lemma body_entries: "length bs = 8 * k \<Longrightarrow> \<exists>es. bs = concat (map acl_entry es)"
proof (induction k arbitrary: bs)
  case 0
  then show ?case by (intro exI [of _ "[]"]) simp
next
  case (Suc k)
  obtain e where "take 8 bs = acl_entry e" using chunk_entry [of "take 8 bs"] Suc.prems by auto
  moreover obtain es where "drop 8 bs = concat (map acl_entry es)" using Suc.IH [of "drop 8 bs"] Suc.prems by auto
  ultimately have "bs = concat (map acl_entry (e # es))" by (metis append_take_drop_id concat.simps(2) list.simps(9))
  then show ?case by blast
qed

lemma blob_of_accepted:
  assumes "acl_has_broad_perms_from_bytes buf perms = Some b"
  shows "\<exists>es. buf = acl_blob es"
proof -
  from assms have l: "4 \<le> length buf" "(length buf - 4) mod 8 = 0"
    and v: "(from_le_bytes (take 4 buf) :: u32) = 2"
    by (auto simp: acl_has_broad_perms_from_bytes_def split: if_splits)
  from l(2) obtain k where "length (drop 4 buf) = 8 * k" by auto
  from body_entries [OF this] obtain es where "drop 4 buf = concat (map acl_entry es)" by blast
  moreover have "take 4 buf = to_le_bytes 4 (2 :: u32)"
    using to_from_le_bytes [of "take 4 buf", where ?'a = 32] l(1) v by simp
  ultimately have "buf = acl_blob es" by (metis acl_blob_def append_take_drop_id)
  then show ?thesis by blast
qed

text \<open>C24: the parser of access lists accepts exactly the encodings of lists of entries, and of those
  it says that permissions are granted broadly exactly when an entry of the base group, of a named
  group or of the others grants one of them; entries of named users, the owner and the mask do not
  count.\<close>

theorem acl_parser_exact:
  "acl_has_broad_perms_from_bytes buf perms = Some b \<longleftrightarrow>
    (\<exists>es. buf = acl_blob es \<and> b = (\<exists>(tag, perm, id) \<in> set es.
      tag \<in> {ACL_TAG_GROUP_OBJ, ACL_TAG_GROUP, ACL_TAG_OTHER} \<and> perm AND perms \<noteq> 0))"
proof -
  have "acl_has_broad_perms_from_bytes buf perms = Some b \<longleftrightarrow>
      (\<exists>es. buf = acl_blob es \<and> b = (\<exists>e \<in> set es. grants_broadly perms e))" (is "?l = (\<exists>es. ?r es)")
  proof
    assume ?l
    then obtain es where "buf = acl_blob es" using blob_of_accepted by blast
    with \<open>?l\<close> have "?r es" by (simp add: acl_of_blob)
    then show "\<exists>es. ?r es" ..
  next
    assume "\<exists>es. ?r es"
    then show ?l by (auto simp: acl_of_blob)
  qed
  then show ?thesis by (simp only: grants_broadly_def)
qed

end
