(* ===== verification/Secure_Dirs.thy ===== *)
theory Secure_Dirs
  imports Cert_Paths
begin

text \<open>
  The checked directories and files of \<open>certs/paths.rs\<close>: the refusal of linked components, the
  creation of a secure directory, the lock, the checks of the node's directory and of a target, the
  read that does not follow links, and the change of owners of a tree.
\<close>

unbundle bit_operations_syntax

section \<open>Linked components\<close>

text \<open>The metadata of the path pushed together so far.\<close>

definition lstat_pushed :: "file_system \<Rightarrow> path \<Rightarrow> io_error + fs_node" where
  "lstat_pushed fs q = node_at fs (walk max_links (fs_nodes fs) False [] (map Normal q))"

fun reject_loop :: "file_system \<Rightarrow> string \<Rightarrow> path \<Rightarrow> component list \<Rightarrow> cert_error + unit" where
  "reject_loop fs p current [] = Inr ()"
| "reject_loop fs p current (Root_Dir # cs) = reject_loop fs p [] cs"
| "reject_loop fs p current (Cur_Dir # cs) = reject_loop fs p current cs"
| "reject_loop fs p current (Normal part # cs) =
     (case lstat_pushed fs (current @ [part]) of
        Inr meta \<Rightarrow>
          if is_symlink meta
          then Inl (other_error (''Refusing to use symlinked path component: '' @ show_path (current @ [part])))
          else reject_loop fs p (current @ [part]) cs
      | Inl Not_Found \<Rightarrow> Inr ()
      | Inl e \<Rightarrow> Inl (Cert_Io e))"
| "reject_loop fs p current (Parent_Dir # cs) = Inl (other_error (''Path contains unsupported component: '' @ p))"

definition reject_symlink_components :: "file_system \<Rightarrow> string \<Rightarrow> cert_error + unit" where
  "reject_symlink_components fs p =
     (if \<not> is_absolute p then Inl (other_error (''Path must be absolute: '' @ p))
      else reject_loop fs p [] (components p))"

section \<open>The secure directory\<close>

text \<open>\<open>set_permissions\<close> and \<open>chown\<close> on a path follow links.\<close>

definition update_at :: "(path \<Rightarrow> file_system \<Rightarrow> (io_error + unit) \<times> file_system) \<Rightarrow> string
    \<Rightarrow> file_system \<Rightarrow> (io_error + unit) \<times> file_system" where
  "update_at f p fs = (case resolve True fs p of Inl e \<Rightarrow> (Inl e, fs) | Inr q \<Rightarrow> f q fs)"

fun secure_loop :: "process \<Rightarrow> string \<Rightarrow> path \<Rightarrow> component list \<Rightarrow> unit io" where
  "secure_loop pr p current [] = give (Inr ())"
| "secure_loop pr p current (Root_Dir # cs) = secure_loop pr p current cs"
| "secure_loop pr p current (Cur_Dir # cs) = secure_loop pr p current cs"
| "secure_loop pr p current (Normal part # cs) = (\<lambda>fs.
     case lstat_pushed fs (current @ [part]) of
       Inr meta \<Rightarrow>
         if is_symlink meta
         then (Inl (other_error (''Refusing to use symlinked path component: '' @ show_path (current @ [part]))), fs)
         else if \<not> is_dir meta
         then (Inl (other_error (''Path component is not a directory: '' @ show_path (current @ [part]))), fs)
         else secure_loop pr p (current @ [part]) cs fs
     | Inl Not_Found \<Rightarrow>
         and_do (io (create_dir pr 0x1C0 (current @ [part]))) (\<lambda>_. secure_loop pr p (current @ [part]) cs) fs
     | Inl e \<Rightarrow> (Inl (Cert_Io e), fs))"
| "secure_loop pr p current (Parent_Dir # cs) =
     give (Inl (other_error (''Path contains unsupported component: '' @ p)))"

definition harden_dir :: "string \<Rightarrow> u32 \<Rightarrow> u32 \<times> u32 \<Rightarrow> u32 list \<Rightarrow> unit io" where
  "harden_dir p mode owner allowed_owners = (\<lambda>fs.
     case lstat fs p of
       Inl e \<Rightarrow> (Inl (Cert_Io e), fs)
     | Inr metadata \<Rightarrow>
         (let current_mode = perm_bits metadata; acl_write = acl_has_broad_perms fs p 0x2
          in if current_mode AND 0x12 \<noteq> 0 \<and> acl_write \<noteq> Some False
             then (Inl (other_error (''Directory '' @ p @ '' has permissions '' @ fmt_mode current_mode @
               '' (group/other writable); refusing to use it (run '' @ quoted (''chmod 0700 '' @ p) @
               '' or grant access with a named-user ACL)'')), fs)
             else if allowed_owners \<noteq> [] \<and> fn_uid metadata \<notin> set allowed_owners
             then (Inl (other_error (''Directory '' @ p @ '' is owned by uid '' @ fmt_word (fn_uid metadata) @
               '' which is not allowed'')), fs)
             else and_do
               (if acl_write = None then io (update_at (set_permissions mode) p) else give (Inr ()))
               (\<lambda>_. io (update_at (chown (fst owner) (snd owner)) p)) fs))"

definition ensure_secure_dir :: "process \<Rightarrow> string \<Rightarrow> u32 \<Rightarrow> u32 \<times> u32 \<Rightarrow> u32 list \<Rightarrow> unit io" where
  "ensure_secure_dir pr p mode owner allowed_owners =
     (if \<not> is_absolute p then give (Inl (other_error (''Path must be absolute: '' @ p)))
      else and_do (secure_loop pr p [] (components p)) (\<lambda>_. harden_dir p mode owner allowed_owners))"

section \<open>The lock\<close>

text \<open>The lock file is opened where its path leads, and created when nothing is there. A link that
  leads nowhere would be created at its end; the model refuses it. The result is the locked file,
  which the caller releases.\<close>

definition open_lock :: "process \<Rightarrow> string \<Rightarrow> file_system \<Rightarrow> (io_error + path) \<times> file_system" where
  "open_lock pr dir fs =
     (let (bad, fs1) = tick fs in
      if bad then (Inl Io_Fault, fs1)
      else case resolve True fs1 (path_join dir ''.gcob.lock'') of
        Inr q \<Rightarrow> (case fs_nodes fs1 q of
            Some n \<Rightarrow> (if is_dir n then Inl Io_Other else Inr q, fs1)
          | None \<Rightarrow> (Inl Not_Found, fs1))
      | Inl Not_Found \<Rightarrow>
          (case resolve True fs1 dir of
             Inl e \<Rightarrow> (Inl e, fs1)
           | Inr d \<Rightarrow>
               (let q = d @ [''.gcob.lock''] in
                if fs_nodes fs1 q \<noteq> None \<or> \<not> has_parent_dir fs1 q then (Inl Io_Other, fs1)
                else (Inr q, set_node q (Some \<lparr>fn_kind = Regular [], fn_mode = 0x180 AND NOT (umask pr),
                    fn_uid = euid pr, fn_gid = egid pr, fn_acl = None\<rparr>) fs1)))
      | Inl e \<Rightarrow> (Inl e, fs1))"

definition lock_dir :: "process \<Rightarrow> string \<Rightarrow> path io" where
  "lock_dir pr dir = and_do (io (open_lock pr dir)) (\<lambda>q fs.
     if q \<in> fs_locked fs then (Inl (other_error ''Another gcob init is already running (lock held)''), fs)
     else (Inr q, fs\<lparr>fs_locked := insert q (fs_locked fs)\<rparr>))"

definition unlock :: "path \<Rightarrow> file_system \<Rightarrow> file_system" where
  "unlock q fs = fs\<lparr>fs_locked := fs_locked fs - {q}\<rparr>"

section \<open>The node's directory and a target\<close>

definition check_source_file :: "file_system \<Rightarrow> string \<times> bool \<Rightarrow> cert_error + unit" where
  "check_source_file fs = (\<lambda>(p, is_key).
     and_then (looked (lstat fs p)) (\<lambda>meta.
     if \<not> is_file meta then Inl (Missing_Source (''Not a regular file: '' @ p))
     else if is_key \<and> perm_bits meta AND 0x3F \<noteq> 0
     then Inl (other_error (''CA private key '' @ p @ '' has permissions '' @ fmt_mode (perm_bits meta) @
       ''; expected 0600 or 0400''))
     else Inr ()))"

definition validate_cln_source :: "file_system \<Rightarrow> cln_source_paths \<Rightarrow> cert_error + unit" where
  "validate_cln_source fs source =
     and_then (reject_symlink_components fs (cs_dir source)) (\<lambda>_.
     and_then (reject_symlink_components fs (cs_ca_file source)) (\<lambda>_.
     and_then (reject_symlink_components fs (cs_ca_key_file source)) (\<lambda>_.
     and_then (looked (lstat fs (cs_dir source))) (\<lambda>dir_meta.
     if \<not> is_dir dir_meta
     then Inl (Missing_Source (''CLN source is not a directory: '' @ cs_dir source))
     else if perm_bits dir_meta AND 0x12 \<noteq> 0
     then Inl (other_error (''CLN source directory '' @ cs_dir source @ '' has permissions '' @
       fmt_mode (perm_bits dir_meta) @ '' (group/other writable)''))
     else and_then (check_source_file fs (cs_ca_file source, False)) (\<lambda>_.
       check_source_file fs (cs_ca_key_file source, True))))))"

definition validate_cert_dir_target :: "host \<Rightarrow> file_system \<Rightarrow> string \<Rightarrow> cert_error + unit" where
  "validate_cert_dir_target h fs p =
     (if \<not> exists_at fs p then Inr ()
      else and_then (looked (lstat fs p)) (\<lambda>metadata.
        let mode = perm_bits metadata; owner = fn_uid metadata;
            admin_uid = (case detect_admin_account h of Inr a \<Rightarrow> Some (aa_uid a) | Inl _ \<Rightarrow> None)
        in if is_symlink metadata
           then Inl (other_error (''Refusing to write certificates into symlink: '' @ p))
           else if \<not> is_dir metadata
           then Inl (other_error (''Certificate path is not a directory: '' @ p))
           else if mode AND 0x12 \<noteq> 0
           then Inl (other_error (''Certificate directory '' @ p @ '' has permissions '' @ fmt_mode mode @
             '' (group/other writable); refusing to overwrite''))
           else if owner \<noteq> 0 \<and> owner \<noteq> euid (proc h) \<and> Some owner \<noteq> admin_uid
           then Inl (other_error (''Certificate directory '' @ p @ '' is owned by uid '' @ fmt_word owner @
             '' (not root, current user, or admin); refusing to overwrite''))
           else Inr ()))"

section \<open>Secure reads\<close>

text \<open>\<open>open\<close> with \<open>O_NOFOLLOW\<close>: a link in the last place is the error \<open>ELOOP\<close>. The opening and the
  reading may fail.\<close>

definition open_nofollow :: "string \<Rightarrow> file_system \<Rightarrow> (io_error + fs_node) \<times> file_system" where
  "open_nofollow p fs =
     (let (bad, fs1) = tick fs in
      if bad then (Inl Io_Fault, fs1)
      else (and_then (lstat fs1 p) (\<lambda>n. if is_symlink n then Inl Loop_Error else Inr n), fs1))"

definition content :: "fs_node \<Rightarrow> bytes" where
  "content n = (case fn_kind n of Regular b \<Rightarrow> b | _ \<Rightarrow> [])"

definition read_to_end :: "fs_node \<Rightarrow> file_system \<Rightarrow> (io_error + bytes) \<times> file_system" where
  "read_to_end n fs = (let (bad, fs1) = tick fs in (if bad then Inl Io_Fault else Inr (content n), fs1))"

definition read_secure_file :: "string \<Rightarrow> bool \<Rightarrow> bytes io" where
  "read_secure_file p is_private_key = (\<lambda>fs.
     case open_nofollow p fs of
       (Inl e, fs1) \<Rightarrow>
         (Inl (if e = Loop_Error then other_error (''Refusing to read symlinked certificate file: '' @ p)
               else Cert_Io e), fs1)
     | (Inr file, fs1) \<Rightarrow>
         if \<not> is_file file
         then (Inl (other_error (''Certificate path is not a regular file: '' @ p)), fs1)
         else if is_private_key \<and> \<not> effective_perms_are_owner_only_fd file (perm_bits file) 0x3F
         then (Inl (other_error (''Private key '' @ p @ '' is readable by group/other; expected 0600 or 0400'')), fs1)
         else io (read_to_end file) fs1)"

section \<open>Owners of a tree\<close>

text \<open>The recursion goes down the tree; \<open>None\<close> is the end of the fuel. The path is the place itself
  (\<open>chown\<close> follows no link here, since the node is none).\<close>

fun chown_recursive :: "nat \<Rightarrow> path \<Rightarrow> u32 \<Rightarrow> u32 \<Rightarrow> file_system \<Rightarrow> ((io_error + unit) \<times> file_system) option"
  and chown_entries :: "nat \<Rightarrow> path \<Rightarrow> string list \<Rightarrow> u32 \<Rightarrow> u32 \<Rightarrow> file_system
    \<Rightarrow> ((io_error + unit) \<times> file_system) option" where
  "chown_recursive 0 p uid gid fs = None"
| "chown_recursive (Suc k) p uid gid fs =
     (case symlink_metadata fs p of
        Inl e \<Rightarrow> Some (Inl e, fs)
      | Inr metadata \<Rightarrow>
          (case chown uid gid p fs of
             (Inl e, fs1) \<Rightarrow> Some (Inl e, fs1)
           | (Inr _, fs1) \<Rightarrow>
               if is_dir metadata
               then (let (bad, fs2) = tick fs1 in
                     if bad then Some (Inl Io_Fault, fs2)
                     else chown_entries k p (fs_listing fs2 p) uid gid fs2)
               else Some (Inr (), fs1)))"
| "chown_entries k p [] uid gid fs = Some (Inr (), fs)"
| "chown_entries k p (n # ns) uid gid fs =
     (case chown_recursive k (p @ [n]) uid gid fs of
        None \<Rightarrow> None
      | Some (Inl e, fs1) \<Rightarrow> Some (Inl e, fs1)
      | Some (Inr _, fs1) \<Rightarrow> chown_entries k p ns uid gid fs1)"

section \<open>Access for the service\<close>

text \<open>\<open>setfacl\<close> is a program outside the repository: what it answers and does is the parameter
  \<open>run\<close>, of the argument and the path.\<close>

definition find_setfacl :: "file_system \<Rightarrow> string option" where
  "find_setfacl fs = find (is_file_at fs) [''/usr/bin/setfacl'', ''/bin/setfacl'']"

definition setup_gcob_acls :: "host \<Rightarrow> (string \<Rightarrow> string \<Rightarrow> string \<Rightarrow> unit io) \<Rightarrow> unit io" where
  "setup_gcob_acls h run = and_do (give (detect_admin_account h)) (\<lambda>account fs.
     case find_setfacl fs of
       None \<Rightarrow> (Inl (other_error (''setfacl not found (install the '' @ quoted ''acl'' @ '' package or run as the admin user)'')), fs)
     | Some setfacl \<Rightarrow>
         and_do (run setfacl ''u:gcob:x'' (aa_home account)) (\<lambda>_.
           run setfacl ''u:gcob:rwx'' (path_join (aa_home account) ''.certs'')) fs)"

end
