(* ===== verification/Ip_Text.thy ===== *)
theory Ip_Text
  imports Rust_Text
begin

text \<open>
  \<open>IpAddr\<close> of the standard library as the identity checks use it: the parser of \<open>core::net\<close> with its
  readers, the rendering, and the classes of addresses.
\<close>

datatype ip_addr = V4 u8 u8 u8 u8 | V6 "u16 list"  \<comment> \<open>eight groups\<close>

section \<open>Reading\<close>

text \<open>A reader takes a prefix of the text, or fails and takes nothing.\<close>

type_synonym 'a reader = "string \<Rightarrow> ('a \<times> string) option"

definition digit_of :: "nat \<Rightarrow> char \<Rightarrow> nat option" where
  "digit_of radix c =
     (let d = (if is_digit c then Some (code c - 48)
               else if is_lower c then Some (code c - 87)
               else if is_upper c then Some (code c - 55) else None)
      in case d of None \<Rightarrow> None | Some n \<Rightarrow> if n < radix then Some n else None)"

definition is_digit_in :: "nat \<Rightarrow> char \<Rightarrow> bool" where
  "is_digit_in radix c \<longleftrightarrow> digit_of radix c \<noteq> None"

definition value_in :: "nat \<Rightarrow> string \<Rightarrow> nat" where
  "value_in radix ds = foldl (\<lambda>acc c. acc * radix + (case digit_of radix c of None \<Rightarrow> 0 | Some d \<Rightarrow> d)) 0 ds"

definition read_number :: "nat \<Rightarrow> nat \<Rightarrow> bool \<Rightarrow> nat \<Rightarrow> nat reader" where
  "read_number radix max_digits allow_zero_prefix bound s =
     (let ds = takeWhile (is_digit_in radix) s
      in if ds = [] \<or> max_digits < length ds \<or> (\<not> allow_zero_prefix \<and> hd ds = CHR ''0'' \<and> 1 < length ds)
            \<or> bound \<le> value_in radix ds
         then None else Some (value_in radix ds, dropWhile (is_digit_in radix) s))"

definition read_separator :: "char \<Rightarrow> nat \<Rightarrow> 'a reader \<Rightarrow> 'a reader" where
  "read_separator sep index inner s =
     (if 0 < index then (case s of c # cs \<Rightarrow> if c = sep then inner cs else None | [] \<Rightarrow> None) else inner s)"

definition read_octet :: "nat \<Rightarrow> u8 reader" where
  "read_octet i s = map_option (\<lambda>(n, r). (of_nat n, r)) (read_separator (CHR ''.'') i (read_number 10 3 False 256) s)"

definition read_ipv4_addr :: "(u8 \<times> u8 \<times> u8 \<times> u8) reader" where
  "read_ipv4_addr s =
     Option.bind (read_octet 0 s) (\<lambda>(a, s1).
     Option.bind (read_octet 1 s1) (\<lambda>(b, s2).
     Option.bind (read_octet 2 s2) (\<lambda>(c, s3).
     map_option (\<lambda>(d, s4). ((a, b, c, d), s4)) (read_octet 3 s3))))"

definition be_bytes :: "u8 \<Rightarrow> u8 \<Rightarrow> u16" where
  "be_bytes a b = 256 * ucast a + ucast b"

text \<open>\<open>left\<close> groups are still free, \<open>i\<close> have been read.\<close>

fun read_groups :: "nat \<Rightarrow> nat \<Rightarrow> string \<Rightarrow> u16 list \<times> bool \<times> string" where
  "read_groups i 0 s = ([], False, s)"
| "read_groups i (Suc left) s =
     (case (if 0 < left then read_separator (CHR '':'') i read_ipv4_addr s else None) of
        Some ((a, b, c, d), r) \<Rightarrow> ([be_bytes a b, be_bytes c d], True, r)
      | None \<Rightarrow>
          (case read_separator (CHR '':'') i (read_number 16 4 True 65536) s of
             None \<Rightarrow> ([], False, s)
           | Some (g, r) \<Rightarrow>
               (let (gs, v4, r') = read_groups (Suc i) left r in (of_nat g # gs, v4, r'))))"

definition read_ipv6_addr :: "u16 list reader" where
  "read_ipv6_addr s =
     (let (head, head_ipv4, r) = read_groups 0 8 s
      in if length head = 8 then Some (head, r)
         else if head_ipv4 then None
         else case r of
           c # d # r2 \<Rightarrow>
             if c = CHR '':'' \<and> d = CHR '':'' then
               (let (tail, v4, r3) = read_groups 0 (8 - (length head + 1)) r2
                in Some (head @ replicate (8 - length head - length tail) 0 @ tail, r3))
             else None
         | _ \<Rightarrow> None)"

text \<open>\<open>str::parse\<close>: the reader must take everything; IPv4 texts of more than 15 bytes are refused.\<close>

definition parse_ipv4 :: "string \<Rightarrow> ip_addr option" where
  "parse_ipv4 s =
     (if 15 < length s then None
      else case read_ipv4_addr s of Some ((a, b, c, d), r) \<Rightarrow> if r = [] then Some (V4 a b c d) else None | None \<Rightarrow> None)"

definition parse_ip :: "string \<Rightarrow> ip_addr option" where
  "parse_ip s =
     (case read_ipv4_addr s of
        Some ((a, b, c, d), r) \<Rightarrow> if r = [] then Some (V4 a b c d) else None
      | None \<Rightarrow> (case read_ipv6_addr s of Some (gs, r) \<Rightarrow> if r = [] then Some (V6 gs) else None | None \<Rightarrow> None))"

section \<open>Rendering\<close>

fun fmt_hex :: "nat \<Rightarrow> string" where
  "fmt_hex n = (let d = n mod 16; c = (if d < 10 then digit_char d else char_of (87 + d))
     in if n < 16 then [c] else fmt_hex (n div 16) @ [c])"

declare fmt_hex.simps [simp del]

definition fmt_ipv4 :: "u8 \<Rightarrow> u8 \<Rightarrow> u8 \<Rightarrow> u8 \<Rightarrow> string" where
  "fmt_ipv4 a b c d = fmt_word a @ ''.'' @ fmt_word b @ ''.'' @ fmt_word c @ ''.'' @ fmt_word d"

text \<open>The first longest run of zero groups: start and length.\<close>

fun zero_span :: "nat \<Rightarrow> nat \<times> nat \<Rightarrow> nat \<times> nat \<Rightarrow> u16 list \<Rightarrow> nat \<times> nat" where
  "zero_span i longest current [] = longest"
| "zero_span i longest current (g # gs) =
     (if g = 0 then
        (let cur = (if snd current = 0 then (i, 1) else (fst current, snd current + 1))
         in zero_span (Suc i) (if snd longest < snd cur then cur else longest) cur gs)
      else zero_span (Suc i) longest (0, 0) gs)"

definition fmt_groups :: "u16 list \<Rightarrow> string" where
  "fmt_groups gs = join (CHR '':'') (map (\<lambda>g. fmt_hex (unat g)) gs)"

definition fmt_ipv6 :: "u16 list \<Rightarrow> string" where
  "fmt_ipv6 gs =
     (if length gs = 8 \<and> take 6 gs = [0, 0, 0, 0, 0, 0xFFFF]
      then ''::ffff:'' @ fmt_ipv4 (ucast (drop_bit 8 (gs ! 6))) (ucast (gs ! 6)) (ucast (drop_bit 8 (gs ! 7))) (ucast (gs ! 7))
      else let (start, len) = zero_span 0 (0, 0) (0, 0) gs
        in if 1 < len then fmt_groups (take start gs) @ ''::'' @ fmt_groups (drop (start + len) gs)
           else fmt_groups gs)"

fun fmt_ip :: "ip_addr \<Rightarrow> string" where
  "fmt_ip (V4 a b c d) = fmt_ipv4 a b c d"
| "fmt_ip (V6 gs) = fmt_ipv6 gs"

section \<open>Classes of addresses\<close>

fun ip_is_unspecified :: "ip_addr \<Rightarrow> bool" where
  "ip_is_unspecified (V4 a b c d) = (a = 0 \<and> b = 0 \<and> c = 0 \<and> d = 0)"
| "ip_is_unspecified (V6 gs) = list_all (\<lambda>g. g = 0) gs"

fun ip_is_multicast :: "ip_addr \<Rightarrow> bool" where
  "ip_is_multicast (V4 a b c d) = (224 \<le> a \<and> a \<le> 239)"
| "ip_is_multicast (V6 gs) = (drop_bit 8 (hd gs) = 0xFF)"

fun ip_is_broadcast :: "ip_addr \<Rightarrow> bool" where
  "ip_is_broadcast (V4 a b c d) = (a = 255 \<and> b = 255 \<and> c = 255 \<and> d = 255)"
| "ip_is_broadcast (V6 gs) = False"

fun ip_is_loopback :: "ip_addr \<Rightarrow> bool" where
  "ip_is_loopback (V4 a b c d) = (a = 127)"
| "ip_is_loopback (V6 gs) = (gs = [0, 0, 0, 0, 0, 0, 0, 1])"

section \<open>Readers take digits and separators only\<close>

definition hex_char :: "char \<Rightarrow> bool" where
  "hex_char c \<longleftrightarrow> is_digit_in 16 c"

definition ip_char :: "char \<Rightarrow> bool" where
  "ip_char c \<longleftrightarrow> hex_char c \<or> c = CHR ''.'' \<or> c = CHR '':''"

definition takes :: "(char \<Rightarrow> bool) \<Rightarrow> string \<Rightarrow> string \<Rightarrow> bool" where
  "takes P s r \<longleftrightarrow> (\<exists>t. s = t @ r \<and> (\<forall>c \<in> set t. P c))"

lemma takes_refl [simp]: "takes P s s"
  by (simp add: takes_def)

lemma takes_trans: "takes P s r \<Longrightarrow> takes P r q \<Longrightarrow> takes P s q"
  unfolding takes_def by (metis append_assoc Un_iff set_append)

lemma takes_Cons: "P c \<Longrightarrow> takes P s r \<Longrightarrow> takes P (c # s) r"
  unfolding takes_def by (metis append_Cons set_ConsD)

lemma digit_in_hex: "radix \<le> 16 \<Longrightarrow> is_digit_in radix c \<Longrightarrow> hex_char c"
  by (auto simp: is_digit_in_def hex_char_def digit_of_def Let_def split: option.splits if_splits)

lemma read_number_takes:
  "read_number radix m z b s = Some (n, r) \<Longrightarrow> radix \<le> 16 \<Longrightarrow> takes ip_char s r"
  unfolding takes_def
  by (intro exI [of _ "takeWhile (is_digit_in radix) s"])
    (auto simp: read_number_def Let_def ip_char_def dest: set_takeWhileD digit_in_hex split: if_splits)

lemma read_separator_takes:
  assumes "read_separator sep i inner s = Some (x, r)" and "ip_char sep"
    and "\<And>s. inner s = Some (x, r) \<Longrightarrow> takes ip_char s r"
  shows "takes ip_char s r"
  using assms by (auto simp: read_separator_def intro: takes_Cons split: if_splits list.splits)

lemma ip_sep: "ip_char (CHR ''.'')" "ip_char (CHR '':'')"
  by (simp_all add: ip_char_def)

lemma read_octet_takes: "read_octet i s = Some (a, r) \<Longrightarrow> takes ip_char s r"
  unfolding read_octet_def by (auto dest!: read_separator_takes [OF _ ip_sep(1) read_number_takes])

lemma read_ipv4_takes: "read_ipv4_addr s = Some (x, r) \<Longrightarrow> takes ip_char s r"
  unfolding read_ipv4_addr_def
  by (auto simp: bind_eq_Some_conv dest!: read_octet_takes intro: takes_trans)

lemma read_groups_takes: "read_groups i left s = (gs, v4, r) \<Longrightarrow> takes ip_char s r"
proof (induction i left s arbitrary: gs v4 r rule: read_groups.induct)
  case (2 i left s)
  then show ?case
    by (auto simp: Let_def split: option.splits prod.splits if_splits
        dest!: read_separator_takes [OF _ ip_sep(2)] read_number_takes read_ipv4_takes intro: takes_trans)
qed simp

lemma parse_ip_chars: "parse_ip s = Some ip \<Longrightarrow> \<forall>c \<in> set s. ip_char c"
proof -
  assume p: "parse_ip s = Some ip"
  have "takes ip_char s []"
  proof (cases "read_ipv4_addr s")
    case None
    with p obtain gs where 6: "read_ipv6_addr s = Some (gs, [])"
      by (auto simp: parse_ip_def split: option.splits if_splits)
    obtain head v4 r where h: "read_groups 0 8 s = (head, v4, r)" by (metis prod_cases3)
    note t = read_groups_takes [OF h]
    show ?thesis
    proof (cases "length head = 8")
      case True
      with 6 h t show ?thesis by (simp add: read_ipv6_addr_def)
    next
      case False
      with 6 h obtain r2 where r: "r = CHR '':'' # CHR '':'' # r2"
        by (auto simp: read_ipv6_addr_def split: if_splits list.splits)
      obtain tl v r3 where 3: "read_groups 0 (8 - (length head + 1)) r2 = (tl, v, r3)" by (metis prod_cases3)
      with 6 h r False have "r3 = []" by (auto simp: read_ipv6_addr_def split: if_splits)
      with read_groups_takes [OF 3] have "takes ip_char r []" by (simp add: r takes_Cons ip_sep)
      with t show ?thesis by (rule takes_trans)
    qed
  qed (use p in \<open>auto simp: parse_ip_def dest!: read_ipv4_takes split: prod.splits if_splits\<close>)
  then show ?thesis by (simp add: takes_def)
qed

section \<open>The text of an IPv4 address is unique\<close>

lemma digit_char_val: "is_digit c \<Longrightarrow> digit_char (code c - 48) = c"
  by (simp add: digit_char_def is_digit_def)

lemma is_digit_in_10: "is_digit_in 10 c \<longleftrightarrow> is_digit c"
  by (auto simp: is_digit_in_def digit_of_def Let_def is_digit_def is_lower_def is_upper_def)

lemma digit_range: "is_digit c \<Longrightarrow> code c - 48 < (10 :: nat)"
proof -
  assume "is_digit c"
  then have "code c \<le> (57 :: nat)" by (simp add: is_digit_def)
  then show ?thesis by linarith
qed

lemma digit_of_10: "is_digit c \<Longrightarrow> digit_of 10 c = Some (code c - 48)"
  using digit_range [of c] by (simp add: digit_of_def Let_def)

lemma value_in_snoc: "is_digit c \<Longrightarrow> value_in 10 (ds @ [c]) = value_in 10 ds * 10 + (code c - 48)"
  by (simp add: value_in_def digit_of_10)

lemma fmt_nat_step: "0 < v \<Longrightarrow> d < 10 \<Longrightarrow> fmt_nat (v * 10 + d) = fmt_nat v @ [digit_char d]"
  by (subst fmt_nat.simps) simp

lemma fmt_nat_value:
  "ds \<noteq> [] \<Longrightarrow> \<forall>c \<in> set ds. is_digit c \<Longrightarrow> hd ds = CHR ''0'' \<longrightarrow> length ds = 1 \<Longrightarrow>
    fmt_nat (value_in 10 ds) = ds \<and> (hd ds \<noteq> CHR ''0'' \<longrightarrow> 0 < value_in 10 ds)"
proof (induction ds rule: rev_induct)
  case (snoc c ds)
  have c: "is_digit c" using snoc.prems by simp
  then have d: "code c - 48 < (10 :: nat)" by (rule digit_range)
  show ?case
  proof (cases "ds = []")
    case True
    have "code c \<noteq> (48 :: nat)" if "c \<noteq> CHR ''0''"
    proof
      assume "code c = (48 :: nat)"
      then have "c = char_of (48 :: nat)" using char_of_char [of c] by metis
      moreover have "char_of (48 :: nat) = CHR ''0''" by code_simp
      ultimately show False using that by simp
    qed
    with True c d value_in_snoc [OF c, of "[]"] show ?thesis
      by (subst fmt_nat.simps) (auto simp: value_in_def digit_char_val is_digit_def)
  next
    case False
    with snoc.prems have "hd ds \<noteq> CHR ''0''" by auto
    with False snoc have "fmt_nat (value_in 10 ds) = ds" "0 < value_in 10 ds" by auto
    with d c show ?thesis by (simp add: value_in_snoc fmt_nat_step digit_char_val)
  qed
qed simp

lemma read_octet_text:
  assumes "read_number 10 3 False 256 s = Some (n, r)"
  shows "s = fmt_word (of_nat n :: u8) @ r"
proof -
  let ?ds = "takeWhile (is_digit_in 10) s"
  from assms have n: "n = value_in 10 ?ds" "n < 256" "?ds \<noteq> []" "hd ?ds = CHR ''0'' \<longrightarrow> length ?ds = 1"
    "r = dropWhile (is_digit_in 10) s"
    by (auto simp: read_number_def Let_def less_Suc_eq_le le_Suc_eq not_less Suc_le_eq split: if_splits)
  have "\<forall>c \<in> set ?ds. is_digit c" by (auto simp: is_digit_in_10 dest: set_takeWhileD)
  with n have "fmt_nat n = ?ds" using fmt_nat_value [of ?ds] by simp
  then show ?thesis using n by (simp add: fmt_word_def)
qed

lemma octet_text:
  "read_octet 0 s = Some (a, r) \<Longrightarrow> s = fmt_word a @ r"
  "read_octet (Suc i) s = Some (a, r) \<Longrightarrow> s = CHR ''.'' # fmt_word a @ r"
  by (auto simp: read_octet_def read_separator_def dest!: read_octet_text split: list.splits if_splits)

lemma read_ipv4_text:
  assumes "read_ipv4_addr s = Some ((a, b, c, d), r)"
  shows "s = fmt_ipv4 a b c d @ r"
proof -
  from assms obtain s1 s2 s3 where "read_octet 0 s = Some (a, s1)" "read_octet (Suc 0) s1 = Some (b, s2)"
    "read_octet (Suc (Suc 0)) s2 = Some (c, s3)" "read_octet (Suc (Suc (Suc 0))) s3 = Some (d, r)"
    by (auto simp: read_ipv4_addr_def bind_eq_Some_conv numeral_eq_Suc)
  then show ?thesis by (auto simp: fmt_ipv4_def dest!: octet_text)
qed

lemma parse_ip_V4_text: "parse_ip s = Some (V4 a b c d) \<Longrightarrow> s = fmt_ipv4 a b c d"
  by (auto simp: parse_ip_def dest!: read_ipv4_text split: option.splits if_splits)

lemma value_in_10: "\<forall>c \<in> set ds. is_digit c \<Longrightarrow> value_in 10 ds = dec_value 0 ds"
proof (induction ds rule: rev_induct)
  case (snoc c ds)
  then show ?case by (simp add: value_in_snoc) (simp add: dec_value_def dec_step_def)
qed (simp add: value_in_def dec_value_def)

lemma fmt_nat_short: "n < 1000 \<Longrightarrow> length (fmt_nat n) \<le> 3"
  by (subst fmt_nat.simps, simp, intro impI, subst fmt_nat.simps, simp, intro impI, subst fmt_nat.simps) simp

lemma fmt_nat_first: "hd (fmt_nat n) = CHR ''0'' \<Longrightarrow> n = 0"
proof (induction n rule: fmt_nat.induct)
  case (1 n)
  have ne: "fmt_nat m \<noteq> []" for m by (subst fmt_nat.simps) simp
  have z: "d = 0" if "digit_char d = CHR ''0''" "d < 10" for d
  proof -
    have "code (digit_char d) = (48 :: nat)" using that(1) by simp
    with that(2) show ?thesis by (simp add: digit_char_def)
  qed
  show ?case
  proof (cases "n < 10")
    case True
    with "1.prems" z show ?thesis by (subst (asm) fmt_nat.simps) simp
  next
    case False
    with "1.prems" ne have "hd (fmt_nat (n div 10)) = CHR ''0''" by (subst (asm) fmt_nat.simps) simp
    with "1.IH" [OF False] False show ?thesis by simp
  qed
qed

definition no_digit :: "string \<Rightarrow> bool" where
  "no_digit r \<longleftrightarrow> r = [] \<or> \<not> is_digit (hd r)"

lemma read_number_fmt:
  assumes "no_digit r"
  shows "read_number 10 3 False 256 (fmt_word (a :: u8) @ r) = Some (unat a, r)"
proof -
  let ?t = "fmt_nat (unat a)"
  have a: "unat a < 256" using unsigned_less [of a, where ?'a = nat] by simp
  have d: "list_all is_digit ?t" "?t \<noteq> []" by (simp_all add: fmt_nat_digits)
  then have all: "\<forall>c \<in> set ?t. is_digit_in 10 c" by (simp add: list_all_iff is_digit_in_10)
  have "takeWhile (is_digit_in 10) (?t @ r) = ?t" "dropWhile (is_digit_in 10) (?t @ r) = r"
    using all assms by (cases r; simp add: no_digit_def is_digit_in_10 takeWhile_append2 dropWhile_append2)+
  moreover have "value_in 10 ?t = unat a" using d by (simp add: value_in_10 list_all_iff dec_value_fmt_nat)
  moreover have "length ?t \<le> 3" using fmt_nat_short [of "unat a"] a by simp
  moreover have "hd ?t = CHR ''0'' \<longrightarrow> \<not> 1 < length ?t"
    using fmt_nat_first [of "unat a"] by (auto simp: fmt_nat.simps [of 0])
  ultimately show ?thesis using a d by (simp add: read_number_def fmt_word_def Let_def)
qed

lemma octet_fmt:
  "no_digit r \<Longrightarrow> read_octet 0 (fmt_word a @ r) = Some (a, r)"
  "no_digit r \<Longrightarrow> read_octet (Suc i) (CHR ''.'' # fmt_word a @ r) = Some (a, r)"
  by (simp_all add: read_octet_def read_separator_def read_number_fmt of_nat_unat)

lemma no_digit_simps [simp]: "no_digit []" "no_digit (CHR ''.'' # r)"
  by (simp_all add: no_digit_def is_digit_def)

lemma parse_fmt_ipv4: "parse_ip (fmt_ipv4 a b c d) = Some (V4 a b c d)"
proof -
  have "read_ipv4_addr (fmt_ipv4 a b c d) = Some ((a, b, c, d), [])"
    using octet_fmt(1) [of "CHR ''.'' # fmt_word b @ CHR ''.'' # fmt_word c @ CHR ''.'' # fmt_word d" a]
      octet_fmt(2) [of "CHR ''.'' # fmt_word c @ CHR ''.'' # fmt_word d" 0 b]
      octet_fmt(2) [of "CHR ''.'' # fmt_word d" 1 c] octet_fmt(2) [of "[]" 2 d]
    by (simp add: read_ipv4_addr_def fmt_ipv4_def numeral_eq_Suc)
  then show ?thesis by (simp add: parse_ip_def)
qed

text \<open>An IPv4 address has exactly one text, its dotted decimal rendering: a text parses to an
  address if and only if it is the rendering of that address.\<close>

theorem ipv4_text_unique: "parse_ip s = Some (V4 a b c d) \<longleftrightarrow> s = fmt_ip (V4 a b c d)"
  using parse_ip_V4_text parse_fmt_ipv4 by auto

end
