(* ===== verification/Host_Identity.thy ===== *)
theory Host_Identity
  imports Cert_Paths Ip_Text
begin

text \<open>
  The identity a certificate is issued for (\<open>certs/detect.rs\<close>) and the role of the host
  (\<open>role.rs\<close>): names and addresses from the command line, the environment or the programs of the
  system, and what is accepted of them.
\<close>

section \<open>Accepted names and addresses\<close>

definition validate_ip_addr :: "ip_addr \<Rightarrow> bool \<Rightarrow> cert_error + unit" where
  "validate_ip_addr ip allow_loopback =
     (if ip_is_unspecified ip \<or> ip_is_multicast ip \<or> ip_is_broadcast ip
      then Inl (Invalid_Ip (''IP '' @ fmt_ip ip @ '' is not a usable unicast address''))
      else if ip_is_loopback ip \<and> \<not> allow_loopback
      then Inl (Invalid_Ip (''IP '' @ fmt_ip ip @ '' is loopback; pass --allow-loopback to accept it''))
      else Inr ())"

definition validate_unicast_ip :: "string \<Rightarrow> bool \<Rightarrow> cert_error + unit" where
  "validate_unicast_ip ip allow_loopback =
     (case parse_ip ip of None \<Rightarrow> Inl (Invalid_Ip ip) | Some parsed \<Rightarrow> validate_ip_addr parsed allow_loopback)"

fun check_labels :: "string \<Rightarrow> string list \<Rightarrow> cert_error + unit" where
  "check_labels hostname [] = Inr ()"
| "check_labels hostname (label # labels) =
     (if label = [] \<or> 63 < length label
      then Inl (Cert_Parse (''Invalid hostname '' @ quoted hostname @ '': label length''))
      else if starts_with ''-'' label \<or> ends_with ''-'' label
      then Inl (Cert_Parse (''Invalid hostname '' @ quoted hostname @ '': label starts or ends with '' @ quoted ''-''))
      else if \<not> list_all (\<lambda>c. is_alnum c \<or> c = CHR ''-'') label
      then Inl (Cert_Parse (''Invalid hostname '' @ quoted hostname @ '': only ASCII letters, digits and '' @
        quoted ''-'' @ '' are allowed''))
      else check_labels hostname labels)"

definition validate_hostname :: "string \<Rightarrow> bool \<Rightarrow> cert_error + unit" where
  "validate_hostname hostname allow_loopback =
     (if hostname = [] then Inl (Cert_Parse ''Hostname must not be empty'')
      else if CHR ''*'' \<in> set hostname
      then Inl (Cert_Parse ''Wildcard hostnames are not allowed for server certificates'')
      else if \<not> is_ascii hostname
      then Inl (Cert_Parse ''Hostname must be ASCII (punycode IDN explicitly)'')
      else if 253 < length hostname then Inl (Cert_Parse ''Hostname exceeds 253 characters'')
      else case parse_ip hostname of
        Some ip \<Rightarrow> validate_ip_addr ip allow_loopback
      | None \<Rightarrow>
          if starts_with ''.'' hostname \<or> ends_with ''.'' hostname \<or> contains ''..'' hostname
          then Inl (Cert_Parse (''Invalid hostname '' @ quoted hostname @ '': empty label''))
          else check_labels hostname (split_char (CHR ''.'') hostname))"

section \<open>Programs of the system\<close>

text \<open>A started child: when it started, what each \<open>try_wait\<close> answers with the time after it (in
  milliseconds; the polls go on to the deadline), and its output.\<close>

datatype child_poll = Exited bool | Still_Running | Wait_Error

record child_run =
  cr_start :: nat
  cr_polls :: "(child_poll \<times> nat) list"
  cr_stdout :: string

type_synonym exec = "string \<Rightarrow> string list \<Rightarrow> child_run option"

definition DETECT_TIMEOUT :: nat where
  "DETECT_TIMEOUT = 5000"

fun wait_child :: "nat \<Rightarrow> (child_poll \<times> nat) list \<Rightarrow> bool option" where
  "wait_child deadline [] = None"
| "wait_child deadline ((Exited success, _) # polls) = Some success"
| "wait_child deadline ((Still_Running, now) # polls) = (if deadline \<le> now then None else wait_child deadline polls)"
| "wait_child deadline ((Wait_Error, _) # polls) = None"

fun run_first :: "file_system \<Rightarrow> exec \<Rightarrow> string list \<Rightarrow> string list \<Rightarrow> string option" where
  "run_first fs exec [] args = None"
| "run_first fs exec (candidate # candidates) args =
     (if \<not> is_file_at fs candidate
      then run_first fs exec candidates args
      else case exec candidate args of
        None \<Rightarrow> run_first fs exec candidates args
      | Some child \<Rightarrow>
          if wait_child (cr_start child + DETECT_TIMEOUT) (cr_polls child) = Some True
          then Some (cr_stdout child)
          else run_first fs exec candidates args)"

definition detect_hostname :: "file_system \<Rightarrow> exec \<Rightarrow> string option \<Rightarrow> cert_error + string" where
  "detect_hostname fs exec gethostname =
     (let fallback = (case gethostname of
          None \<Rightarrow> Inl (other_error ''Cannot detect hostname: gethostname failed'')
        | Some name \<Rightarrow>
            (let hostname = trim name in
             if hostname = [] then Inl (other_error ''Cannot detect hostname: empty result'') else Inr hostname))
      in case run_first fs exec [''/usr/bin/hostname'', ''/bin/hostname''] [''-f''] of
           Some stdout \<Rightarrow> if trim stdout \<noteq> [] then Inr (trim stdout) else fallback
         | None \<Rightarrow> fallback)"

fun parse_ip_lines :: "string list \<Rightarrow> string option" where
  "parse_ip_lines [] = None"
| "parse_ip_lines (line # rest) =
     (case strip_prefix ''inet '' (trim line) of
        None \<Rightarrow> parse_ip_lines rest
      | Some after_inet \<Rightarrow>
          (let ip = hd (split_char (CHR ''/'') after_inet) in
           if ip \<noteq> ''127.0.0.1'' \<and> parse_ipv4 ip \<noteq> None then Some ip else parse_ip_lines rest))"

definition parse_ip_from_ip_addr :: "string \<Rightarrow> string option" where
  "parse_ip_from_ip_addr output = parse_ip_lines (lines output)"

text \<open>The text after the first occurrence, and the characters up to the first white space.\<close>

fun after_first :: "string \<Rightarrow> string \<Rightarrow> string option" where
  "after_first p [] = (if p = [] then Some [] else None)"
| "after_first p (c # cs) = (if starts_with p (c # cs) then Some (drop (length p) (c # cs)) else after_first p cs)"

definition first_word :: "string \<Rightarrow> string" where
  "first_word s = concat (takeWhile (\<lambda>c. c \<notin> set unicode_ws) (chars s))"

fun parse_ifconfig_lines :: "string list \<Rightarrow> string option" where
  "parse_ifconfig_lines [] = None"
| "parse_ifconfig_lines (line # rest) =
     (if contains ''127.0.0.1'' (trim line) then parse_ifconfig_lines rest
      else case after_first ''inet '' (trim line) of
        None \<Rightarrow> parse_ifconfig_lines rest
      | Some after_inet \<Rightarrow>
          (let candidate = first_word after_inet in
           if parse_ipv4 candidate \<noteq> None then Some candidate else parse_ifconfig_lines rest))"

definition parse_ip_from_ifconfig :: "string \<Rightarrow> string option" where
  "parse_ip_from_ifconfig output = parse_ifconfig_lines (lines output)"

definition detect_ip :: "file_system \<Rightarrow> exec \<Rightarrow> cert_error + string" where
  "detect_ip fs exec =
     (case Option.bind (run_first fs exec [''/usr/sbin/ip'', ''/sbin/ip'', ''/usr/bin/ip'', ''/bin/ip'']
             [''-4'', ''addr'', ''show'']) parse_ip_from_ip_addr of
        Some ip \<Rightarrow> Inr ip
      | None \<Rightarrow>
          (case Option.bind (run_first fs exec [''/usr/sbin/ifconfig'', ''/sbin/ifconfig'',
               ''/usr/bin/ifconfig'', ''/bin/ifconfig''] []) parse_ip_from_ifconfig of
             Some ip \<Rightarrow> Inr ip
           | None \<Rightarrow> Inl (other_error (''Cannot detect IP: '' @ quoted ''ip'' @ '' and '' @ quoted ''ifconfig'' @
               '' failed or returned no valid IPv4 address''))))"

section \<open>The identity\<close>

record resolved_identity =
  ri_hostname :: string
  ri_ip :: "string option"

definition ok :: "'e + 'a \<Rightarrow> 'a option" where
  "ok r = (case r of Inl _ \<Rightarrow> None | Inr a \<Rightarrow> Some a)"

definition or_else :: "'a option \<Rightarrow> 'a option \<Rightarrow> 'a option" where
  "or_else a b = (case a of None \<Rightarrow> b | Some _ \<Rightarrow> a)"

definition set_env :: "host \<Rightarrow> string \<Rightarrow> string option" where
  "set_env h key = (case env_var h key of Some v \<Rightarrow> if v \<noteq> [] then Some v else None | None \<Rightarrow> None)"

definition resolve_identity :: "host \<Rightarrow> cert_error + string \<Rightarrow> cert_error + string \<Rightarrow> string option
    \<Rightarrow> string option \<Rightarrow> string \<Rightarrow> string \<Rightarrow> string \<Rightarrow> string \<Rightarrow> bool \<Rightarrow> cert_error + resolved_identity" where
  "resolve_identity h detected_hostname detected_ip flag_hostname flag_ip env_hostname_key env_ip_key
       default_hostname default_ip require_ip =
     Inr \<lparr>ri_hostname =
        (case or_else flag_hostname (or_else (set_env h env_hostname_key) (ok detected_hostname)) of
           Some n \<Rightarrow> n | None \<Rightarrow> default_hostname),
      ri_ip = or_else flag_ip (or_else (set_env h env_ip_key)
        (or_else (ok detected_ip) (if require_ip then Some default_ip else None)))\<rparr>"

definition resolve_server_identity :: "cert_error + string \<Rightarrow> cert_error + string \<Rightarrow> string option
    \<Rightarrow> string option \<Rightarrow> string \<Rightarrow> cert_error + resolved_identity" where
  "resolve_server_identity detected_hostname detected_ip flag_hostname flag_ip default_hostname =
     Inr \<lparr>ri_hostname = (case or_else flag_hostname (ok detected_hostname) of Some n \<Rightarrow> n | None \<Rightarrow> default_hostname),
      ri_ip = or_else flag_ip (ok detected_ip)\<rparr>"

section \<open>The role\<close>

datatype role = Client | Server

fun role_as_str :: "role \<Rightarrow> string" where
  "role_as_str Client = ''client''"
| "role_as_str Server = ''server''"

definition role_from :: "string option \<Rightarrow> bool \<Rightarrow> role" where
  "role_from explicit server_env =
     (case map_option (\<lambda>e. to_ascii_lowercase (trim e)) explicit of
        Some e \<Rightarrow> if e = ''client'' then Client else if e = ''server'' then Server
                 else if server_env then Server else Client
      | None \<Rightarrow> if server_env then Server else Client)"

definition current_role :: "host \<Rightarrow> file_system \<Rightarrow> role" where
  "current_role h fs = role_from (env_var h ''GCOB_ROLE'') (is_server_env h fs)"

definition server_role_error :: "string \<Rightarrow> role \<Rightarrow> string option" where
  "server_role_error command role =
     (if role = Server then None
      else Some (quoted command @ '' is only available in server role (detected: '' @ role_as_str role @
        ''). Set GCOB_ROLE=server to override, or use '' @ quoted ''gcob-client'' @ '' on client hosts.''))"

definition require_server :: "host \<Rightarrow> file_system \<Rightarrow> string \<Rightarrow> string + unit" where
  "require_server h fs command =
     (case server_role_error command (current_role h fs) of Some message \<Rightarrow> Inl message | None \<Rightarrow> Inr ())"

section \<open>What is accepted\<close>

definition usable_ip :: "bool \<Rightarrow> ip_addr \<Rightarrow> bool" where
  "usable_ip allow_loopback ip \<longleftrightarrow> \<not> ip_is_unspecified ip \<and> \<not> ip_is_multicast ip \<and> \<not> ip_is_broadcast ip
    \<and> (ip_is_loopback ip \<longrightarrow> allow_loopback)"

definition dns_label :: "string \<Rightarrow> bool" where
  "dns_label l \<longleftrightarrow> 1 \<le> length l \<and> length l \<le> 63 \<and> hd l \<noteq> CHR ''-'' \<and> last l \<noteq> CHR ''-''
    \<and> (\<forall>c \<in> set l. is_alnum c \<or> c = CHR ''-'')"

lemma validate_ip_addr_ok: "validate_ip_addr ip lb = Inr () \<longleftrightarrow> usable_ip lb ip"
  by (auto simp: validate_ip_addr_def usable_ip_def)

lemma starts_with_single: "starts_with [c] s \<longleftrightarrow> s \<noteq> [] \<and> hd s = c"
  by (cases s) (auto simp: starts_with_def)

lemma ends_with_single: "ends_with [c] s \<longleftrightarrow> s \<noteq> [] \<and> last s = c"
  by (cases s rule: rev_cases) (auto simp: ends_with_def)

lemma check_labels_ok: "check_labels h ls = Inr () \<longleftrightarrow> (\<forall>l \<in> set ls. dns_label l)"
  by (induction ls) (auto simp: dns_label_def starts_with_single ends_with_single list_all_iff Suc_le_eq)

text \<open>Only empty labels are lost by asking for them first.\<close>

lemma hex_char_alnum: "hex_char c \<Longrightarrow> is_alnum c"
  by (auto simp: hex_char_def is_digit_in_def digit_of_def is_alnum_def Let_def split: option.splits if_splits)

lemma hostname_chars:
  assumes "\<forall>l \<in> set (split_char (CHR ''.'') s). dns_label l" and "c \<in> set s"
  shows "is_alnum c \<or> c = CHR ''-'' \<or> c = CHR ''.''"
proof -
  have "set (join d ps) \<subseteq> insert d (\<Union>p \<in> set ps. set p)" for d ps
    by (induction d ps rule: join.induct) auto
  from this [of "CHR ''.''" "split_char (CHR ''.'') s"] assms(2)
  have "c = CHR ''.'' \<or> (\<exists>l \<in> set (split_char (CHR ''.'') s). c \<in> set l)" by auto
  with assms(1) show ?thesis by (auto simp: dns_label_def)
qed

text \<open>C26: a name that validate_hostname accepts is a value of the type of certificate names: at most 253
  letters, digits, hyphens, dots and colons, and either the text of a usable address or a sequence of
  labels of 1 to 63 characters that neither begin nor end with a hyphen.\<close>

theorem accepted_hostname_type:
  assumes "validate_hostname h allow_loopback = Inr ()"
  shows "1 \<le> length h \<and> length h \<le> 253
    \<and> (\<forall>c \<in> set h. is_alnum c \<or> c = CHR ''-'' \<or> c = CHR ''.'' \<or> c = CHR '':'')
    \<and> (case parse_ip h of Some ip \<Rightarrow> usable_ip allow_loopback ip
       | None \<Rightarrow> \<forall>l \<in> set (split_char (CHR ''.'') h). dns_label l)"
proof (cases "parse_ip h")
  case None
  with assms have "\<forall>l \<in> set (split_char (CHR ''.'') h). dns_label l" "h \<noteq> []" "length h \<le> 253"
    by (auto simp: validate_hostname_def check_labels_ok split: if_splits)
  with None hostname_chars show ?thesis by (auto simp: Suc_le_eq)
next
  case (Some ip)
  with assms have "usable_ip allow_loopback ip" "h \<noteq> []" "length h \<le> 253"
    by (auto simp: validate_hostname_def validate_ip_addr_ok split: if_splits)
  with Some parse_ip_chars [OF Some] hex_char_alnum show ?thesis by (auto simp: ip_char_def Suc_le_eq)
qed

lemma accepted_hostname_type_witness:
  "validate_hostname ''node-1.example'' False = Inr () \<and> length ''node-1.example'' \<le> 253"
proof -
  have "\<not> ip_char (CHR ''n'')" by code_simp
  then have "parse_ip ''node-1.example'' = None" using parse_ip_chars [of "''node-1.example''"] by (cases "parse_ip ''node-1.example''") auto
  moreover have "is_ascii ''node-1.example''" "\<not> contains ''..'' ''node-1.example''"
    "check_labels ''node-1.example'' (split_char (CHR ''.'') ''node-1.example'') = Inr ()" by code_simp+
  ultimately have "validate_hostname ''node-1.example'' False = Inr ()"
    by (simp add: validate_hostname_def starts_with_def ends_with_def)
  with accepted_hostname_type [OF this] show ?thesis by auto
qed

section \<open>Detected addresses\<close>

lemma parse_ipv4_text:
  assumes "parse_ipv4 s \<noteq> None"
  shows "\<exists>a b c d. s = fmt_ipv4 a b c d"
proof -
  from assms obtain a b c d where "read_ipv4_addr s = Some ((a, b, c, d), [])"
    by (auto simp: parse_ipv4_def split: option.splits if_splits)
  from read_ipv4_text [OF this] show ?thesis by auto
qed

lemma parse_ip_lines_v4: "parse_ip_lines ls = Some s \<Longrightarrow> parse_ipv4 s \<noteq> None \<and> s \<noteq> ''127.0.0.1''"
  by (induction ls) (auto simp: Let_def split: option.splits if_splits)

lemma parse_ifconfig_lines_v4: "parse_ifconfig_lines ls = Some s \<Longrightarrow> parse_ipv4 s \<noteq> None"
  by (induction ls) (auto simp: Let_def split: option.splits if_splits)

text \<open>Whatever the programs of the system print, an address that detect_ip yields is the dotted
  decimal text of an IPv4 address, and the server identity carries it unchanged.\<close>

theorem detected_ip_is_ipv4:
  assumes "detect_ip fs exec = Inr s"
  shows "\<exists>a b c d. s = fmt_ipv4 a b c d \<and> parse_ip s = Some (V4 a b c d)
    \<and> map_option ri_ip (ok (resolve_server_identity dh (detect_ip fs exec) fh None dflt)) = Some (Some s)"
proof -
  from assms have "parse_ipv4 s \<noteq> None"
    by (auto simp: detect_ip_def parse_ip_from_ip_addr_def parse_ip_from_ifconfig_def bind_eq_Some_conv
        dest!: parse_ip_lines_v4 parse_ifconfig_lines_v4 split: option.splits)
  then obtain a b c d where "s = fmt_ipv4 a b c d" using parse_ipv4_text by blast
  with assms parse_fmt_ipv4 show ?thesis
    by (auto simp: resolve_server_identity_def or_else_def ok_def)
qed

lemma detected_ip_is_ipv4_witness:
  "\<exists>fs exec a b c d. detect_ip fs exec = Inr ''10.0.0.7'' \<and> ''10.0.0.7'' = fmt_ipv4 a b c d"
proof -
  let ?bin = "\<lparr>fn_kind = Regular [], fn_mode = 0x1ED, fn_uid = 0, fn_gid = 0, fn_acl = None\<rparr>"
  let ?d = "\<lparr>fn_kind = Dir, fn_mode = 0x1ED, fn_uid = 0, fn_gid = 0, fn_acl = None\<rparr>"
  let ?fs = "\<lparr>fs_nodes = [[''sbin''] \<mapsto> ?d, [''sbin'', ''ip''] \<mapsto> ?bin], fs_faults = (\<lambda>_. False),
      fs_calls = 0, fs_cwd = [], fs_listing = (\<lambda>_. []), fs_locked = {}\<rparr>"
  let ?exec = "\<lambda>_ _. Some \<lparr>cr_start = 0, cr_polls = [(Still_Running, 50), (Exited True, 100)],
      cr_stdout = ''inet 10.0.0.7/24''\<rparr>"
  have "is_file_at ?fs ''/sbin/ip''" "\<not> is_file_at ?fs ''/usr/sbin/ip''" by code_simp+
  then have run: "run_first ?fs ?exec [''/usr/sbin/ip'', ''/sbin/ip'', ''/usr/bin/ip'', ''/bin/ip'']
      [''-4'', ''addr'', ''show''] = Some ''inet 10.0.0.7/24''" by (simp add: DETECT_TIMEOUT_def)
  have "plain_char (CHR ''i'')" "plain_char (CHR ''4'')" by code_simp+
  then have "trim ''inet 10.0.0.7/24'' = ''inet 10.0.0.7/24''" by (intro trim_plain) simp_all
  moreover have "lines ''inet 10.0.0.7/24'' = [''inet 10.0.0.7/24'']" "parse_ipv4 ''10.0.0.7'' = Some (V4 10 0 0 7)"
    "strip_prefix ''inet '' ''inet 10.0.0.7/24'' = Some ''10.0.0.7/24''"
    "split_char (CHR ''/'') ''10.0.0.7/24'' = [''10.0.0.7'', ''24'']" by code_simp+
  ultimately have "parse_ip_from_ip_addr ''inet 10.0.0.7/24'' = Some ''10.0.0.7''"
    by (simp add: parse_ip_from_ip_addr_def)
  with run have "detect_ip ?fs ?exec = Inr ''10.0.0.7''" by (simp add: detect_ip_def)
  with detected_ip_is_ipv4 [OF this] show ?thesis by blast
qed

end
