(* ===== verification/Path_Safety.thy ===== *)
theory Path_Safety
  imports Secure_Dirs
begin

text \<open>
  What the checks of \<open>certs/paths.rs\<close> guarantee: a path that passes the refusal of links leads to the
  place its names say; a directory that was made secure is one; a file that was read is a regular
  file at the end of its path, and a key is its owner's.
\<close>

unbundle bit_operations_syntax

section \<open>Paths that hold no link\<close>

definition path_names :: "component list \<Rightarrow> path" where
  "path_names cs = List.map_filter (\<lambda>c. case c of Normal n \<Rightarrow> Some n | _ \<Rightarrow> None) cs"

lemma names_simps [simp]: "path_names [] = []" "path_names (Normal n # cs) = n # path_names cs"
  "path_names (Root_Dir # cs) = path_names cs" "path_names (Cur_Dir # cs) = path_names cs" "path_names (map Normal q) = q"
proof -
  show "path_names (map Normal q) = q" by (induction q) (simp_all add: path_names_def List.map_filter_simps)
qed (simp_all add: path_names_def List.map_filter_simps)

lemma component_of_not_root: "component_of s \<noteq> Root_Dir"
  by (simp add: component_of_def)

lemma components_absolute:
  assumes "is_absolute p"
  obtains cs where "components p = Root_Dir # cs" "Root_Dir \<notin> set cs" "Cur_Dir \<notin> set cs"
proof
  let ?cs = "filter (\<lambda>c. c \<noteq> Cur_Dir) (map component_of (filter (\<lambda>p. p \<noteq> []) (split_char (CHR ''/'') p)))"
  show "components p = Root_Dir # ?cs" using assms by (simp add: components_def is_absolute_def Let_def)
  show "Root_Dir \<notin> set ?cs" "Cur_Dir \<notin> set ?cs" using component_of_not_root by (auto, metis)
qed

lemma lstat_pushed_literal:
  assumes "real_dirs (fs_nodes fs) [] cur"
  shows "lstat_pushed fs (cur @ [n]) =
    (case fs_nodes fs (cur @ [n]) of None \<Rightarrow> Inl Not_Found | Some m \<Rightarrow> Inr m)"
  using assms walk_real_dirs [of "fs_nodes fs" "[]" cur max_links False "[Normal n]"]
  by (auto simp: lstat_pushed_def node_at_def split: option.split file_kind.split)

lemma real_dirs_step:
  "real_dirs N [] cur \<Longrightarrow> N (cur @ [n]) = Some m \<Longrightarrow> is_dir m \<Longrightarrow> real_dirs N [] (cur @ [n])"
  by (simp add: real_dirs_snoc)

lemma reject_loop_walk:
  assumes "reject_loop fs p cur cs = Inr ()" and "real_dirs (fs_nodes fs) [] cur"
    and "Root_Dir \<notin> set cs"
  shows "walk k (fs_nodes fs) fl cur cs = walk 0 (fs_nodes fs) fl cur cs \<and>
    (\<forall>q. walk k (fs_nodes fs) fl cur cs = Inr q \<longrightarrow> q = cur @ path_names cs)"
  using assms
proof (induction fs p cur cs rule: reject_loop.induct)
  case (4 fs p cur n cs)
  show ?case
  proof (cases "fs_nodes fs (cur @ [n])")
    case None
    then show ?thesis by simp
  next
    case (Some m)
    then have l: "lstat_pushed fs (cur @ [n]) = Inr m" using lstat_pushed_literal 4 by simp
    then have s: "\<not> is_symlink m" "reject_loop fs p (cur @ [n]) cs = Inr ()" using "4.prems"(1) by (auto split: if_splits)
    show ?thesis
    proof (cases "is_dir m")
      case True
      from "4.IH" [OF l s(1,2) real_dirs_step [OF "4.prems"(2) Some True]] "4.prems"(3) Some True
      show ?thesis by (simp add: is_dir_kind)
    qed (use Some s(1) in \<open>auto simp: is_dir_def is_symlink_def split: file_kind.splits\<close>)
  qed
qed auto

text \<open>C23: when reject_symlink_components accepts a path, the system resolves the path without a single
  link: what it finds is at the place that the names of the path spell, or it finds nothing.\<close>

theorem accepted_path_is_literal:
  assumes "reject_symlink_components fs p = Inr ()"
  shows "resolve fl fs p = walk 0 (fs_nodes fs) fl [] (components p)
    \<and> (\<forall>q. resolve fl fs p = Inr q \<longrightarrow> q = path_names (components p))"
proof -
  have a: "is_absolute p" "reject_loop fs p [] (components p) = Inr ()"
    using assms by (auto simp: reject_symlink_components_def split: if_splits)
  from components_absolute [OF a(1)] obtain cs where c: "components p = Root_Dir # cs" "Root_Dir \<notin> set cs" .
  with a have "reject_loop fs p [] cs = Inr ()" by simp
  with reject_loop_walk [of fs p "[]" cs max_links fl] c show ?thesis by (simp add: resolve_def)
qed

section \<open>The secure directory\<close>

lemma and_do_Inr: "and_do m f fs = (Inr b, fs') \<longleftrightarrow> (\<exists>a fs1. m fs = (Inr a, fs1) \<and> f a fs1 = (Inr b, fs'))"
  by (auto simp: and_do_def split: prod.split sum.split)

lemma io_Inr: "io m fs = (Inr a, fs') \<longleftrightarrow> m fs = (Inr a, fs')"
  by (auto simp: io_def split: prod.split sum.split)

lemma give_Inr: "give r fs = (Inr a, fs') \<longleftrightarrow> r = Inr a \<and> fs' = fs"
  by (auto simp: give_def)

lemma looked_Inr: "looked r = Inr a \<longleftrightarrow> r = Inr a"
  by (cases r) (auto simp: looked_def)

lemmas io_simps = and_do_Inr io_Inr give_Inr looked_Inr

definition new_dir :: "process \<Rightarrow> fs_node" where
  "new_dir pr = \<lparr>fn_kind = Dir, fn_mode = 0x1C0 AND NOT (umask pr), fn_uid = euid pr, fn_gid = egid pr, fn_acl = None\<rparr>"

lemma new_dir_kind: "is_dir (new_dir pr)"
  unfolding is_dir_def new_dir_def by simp

lemma create_dir_Inr:
  assumes "create_dir pr 0x1C0 p fs = (Inr u, fs')"
  shows "fs_nodes fs' = (fs_nodes fs)(p \<mapsto> new_dir pr)" and "fs_nodes fs p = None" and "p \<noteq> []"
    and "fs_cwd fs' = fs_cwd fs"
  using assms
  by (auto simp: create_dir_def tick_def Let_def set_node_def new_dir_def has_parent_dir_def split: if_splits option.splits)

text \<open>The loop leaves real directories, and what is new are directories of the process on the path.\<close>

definition grown :: "process \<Rightarrow> path \<Rightarrow> (path \<Rightarrow> fs_node option) \<Rightarrow> (path \<Rightarrow> fs_node option) \<Rightarrow> bool" where
  "grown pr q N N' \<longleftrightarrow> (\<forall>r. N' r = N r \<or> (N r = None \<and> N' r = Some (new_dir pr) \<and> prefix r q))"

lemma secure_loop_grows:
  assumes "secure_loop pr p cur cs fs = (Inr (), fs')" and "real_dirs (fs_nodes fs) [] cur"
    and "Root_Dir \<notin> set cs" and "Cur_Dir \<notin> set cs"
  shows "\<exists>q. cs = map Normal q \<and> real_dirs (fs_nodes fs') [] (cur @ q) \<and> fs_cwd fs' = fs_cwd fs
    \<and> grown pr (cur @ q) (fs_nodes fs) (fs_nodes fs')"
  using assms
proof (induction cs arbitrary: cur fs)
  case Nil
  then show ?case by (auto simp: give_Inr grown_def)
next
  case (Cons c cs)
  then obtain n where c: "c = Normal n" by (cases c) (auto simp: give_Inr)
  show ?case
  proof (cases "fs_nodes fs (cur @ [n])")
    case (Some m)
    then have l: "lstat_pushed fs (cur @ [n]) = Inr m" using lstat_pushed_literal Cons.prems(2) by simp
    with Cons.prems(1) have "is_dir m" "secure_loop pr p (cur @ [n]) cs fs = (Inr (), fs')"
      by (auto simp: c split: if_splits)
    with Cons.IH [of "cur @ [n]" fs] real_dirs_step [OF Cons.prems(2) Some] Cons.prems(3,4) c
    obtain q where "cs = map Normal q" "real_dirs (fs_nodes fs') [] (cur @ [n] @ q)" "fs_cwd fs' = fs_cwd fs"
      "grown pr (cur @ [n] @ q) (fs_nodes fs) (fs_nodes fs')" by auto
    with c show ?thesis by (intro exI [of _ "n # q"]) simp
  next
    case None
    then have l: "lstat_pushed fs (cur @ [n]) = Inl Not_Found" using lstat_pushed_literal Cons.prems(2) by simp
    with Cons.prems(1) obtain fs1 where 1: "create_dir pr 0x1C0 (cur @ [n]) fs = (Inr (), fs1)"
      and 2: "secure_loop pr p (cur @ [n]) cs fs1 = (Inr (), fs')"
      by (auto simp: c io_simps)
    note n = create_dir_Inr [OF 1]
    have "r \<noteq> cur @ [n]" if "prefix r cur" for r using that by (auto simp: prefix_def)
    then have "real_dirs (fs_nodes fs1) [] cur" using Cons.prems(2) unfolding real_dirs_def n(1) by simp
    then have "real_dirs (fs_nodes fs1) [] (cur @ [n])"
      by (rule real_dirs_step [where m = "new_dir pr"]) (simp_all add: n(1) new_dir_kind)
    with Cons.IH [OF 2] Cons.prems(3,4) n(4) obtain q where q: "cs = map Normal q"
      "real_dirs (fs_nodes fs') [] (cur @ [n] @ q)" "fs_cwd fs' = fs_cwd fs"
      "grown pr (cur @ [n] @ q) (fs_nodes fs1) (fs_nodes fs')" by auto
    have "grown pr (cur @ [n] @ q) (fs_nodes fs) (fs_nodes fs')"
      unfolding grown_def
    proof
      fix r
      show "fs_nodes fs' r = fs_nodes fs r \<or> (fs_nodes fs r = None \<and> fs_nodes fs' r = Some (new_dir pr)
          \<and> prefix r (cur @ [n] @ q))"
        using q(4) [unfolded grown_def n(1), rule_format, of r] None by (cases "r = cur @ [n]") auto
    qed
    with q c show ?thesis by (intro exI [of _ "n # q"]) simp
  qed
qed

lemma resolve_real:
  assumes "components p = Root_Dir # map Normal q" and "real_dirs (fs_nodes fs) [] q"
  shows "resolve fl fs p = Inr q"
  using walk_real_dirs [OF assms(2), of max_links fl "[]"] assms(1) by (simp add: resolve_def)

lemma update_node_Inr:
  "update_node f q fs = (Inr u, fs') \<Longrightarrow> \<exists>m. fs_nodes fs q = Some m \<and> fs_nodes fs' = (fs_nodes fs)(q \<mapsto> f m)
    \<and> fs_cwd fs' = fs_cwd fs"
  by (auto simp: update_node_def tick_def Let_def set_node_def split: if_splits option.splits)

lemma update_at_Inr:
  assumes "update_at (update_node f) p fs = (Inr u, fs')" and "components p = Root_Dir # map Normal q"
    and "real_dirs (fs_nodes fs) [] q"
  shows "\<exists>m. fs_nodes fs q = Some m \<and> fs_nodes fs' = (fs_nodes fs)(q \<mapsto> f m)"
  using assms(1) update_node_Inr [of f q fs u fs'] by (auto simp: update_at_def resolve_real [OF assms(2,3)])

lemma real_dirs_upd:
  assumes "real_dirs N [] q" and "N q = Some m" and "is_dir m \<Longrightarrow> is_dir m'"
  shows "real_dirs (N(q \<mapsto> m')) [] q"
  using assms by (auto simp: real_dirs_def)

definition hardened :: "file_system \<Rightarrow> string \<Rightarrow> u32 \<Rightarrow> u32 \<times> u32 \<Rightarrow> fs_node \<Rightarrow> fs_node" where
  "hardened fs p mode owner m =
     (if acl_has_broad_perms fs p 0x2 = None then m\<lparr>fn_mode := mode\<rparr> else m)\<lparr>fn_uid := fst owner, fn_gid := snd owner\<rparr>"

lemma harden_dir_Inr:
  assumes h: "harden_dir p mode owner allowed fs = (Inr (), fs')"
    and c: "components p = Root_Dir # map Normal q" and d: "real_dirs (fs_nodes fs) [] q"
  shows "\<exists>m. fs_nodes fs q = Some m \<and> fs_nodes fs' = (fs_nodes fs)(q \<mapsto> hardened fs p mode owner m)
    \<and> (perm_bits m AND 0x12 = 0 \<or> acl_has_broad_perms fs p 0x2 = Some False)
    \<and> (allowed = [] \<or> fn_uid m \<in> set allowed)"
proof -
  from h obtain m where m: "fs_nodes fs q = Some m"
    by (auto simp: harden_dir_def lstat_def resolve_real [OF c d] node_at_def split: option.splits)
  then have l: "lstat fs p = Inr m" by (simp add: lstat_def resolve_real [OF c d] node_at_def)
  have g: "perm_bits m AND 0x12 = 0 \<or> acl_has_broad_perms fs p 0x2 = Some False"
    "allowed = [] \<or> fn_uid m \<in> set allowed"
    using h by (auto simp: harden_dir_def l Let_def split: if_splits)
  from h g obtain fs1 where 1: "(if acl_has_broad_perms fs p 0x2 = None
        then io (update_at (set_permissions mode) p) else give (Inr ())) fs = (Inr (), fs1)"
    and 2: "update_at (chown (fst owner) (snd owner)) p fs1 = (Inr (), fs')"
    by (auto simp: harden_dir_def l Let_def io_simps split: if_splits)
  let ?m = "if acl_has_broad_perms fs p 0x2 = None then m\<lparr>fn_mode := mode\<rparr> else m"
  have n1: "fs_nodes fs1 = (fs_nodes fs)(q \<mapsto> ?m)"
  proof (cases "acl_has_broad_perms fs p 0x2 = None")
    case True
    with 1 update_at_Inr [OF _ c d, of "\<lambda>n. n\<lparr>fn_mode := mode\<rparr>" "()" fs1] m show ?thesis
      by (auto simp: io_simps set_permissions_def)
  qed (use 1 m in \<open>auto simp: io_simps fun_upd_idem\<close>)
  have "real_dirs (fs_nodes fs1) [] q" unfolding n1 by (rule real_dirs_upd [OF d m]) (simp add: is_dir_def)
  from update_at_Inr [OF 2 [unfolded chown_def] c this] n1
  have "fs_nodes fs' = (fs_nodes fs)(q \<mapsto> hardened fs p mode owner m)" by (auto simp: hardened_def)
  with m g show ?thesis by blast
qed

lemma acl_of_node:
  "CHR 0x00 \<notin> set p \<Longrightarrow> stat fs p = Inr n \<Longrightarrow> acl_has_broad_perms fs p perms = acl_has_broad_perms_fd n perms"
  by (simp add: acl_has_broad_perms_def)

lemma acl_False_node:
  "acl_has_broad_perms fs p perms = Some b \<Longrightarrow> stat fs p = Inr n \<Longrightarrow> acl_has_broad_perms_fd n perms = Some b"
  by (auto simp: acl_has_broad_perms_def split: if_splits)

lemma hardened_node: "is_dir (hardened fs p mode owner m) = is_dir m"
  "fn_uid (hardened fs p mode owner m) = fst owner" "fn_gid (hardened fs p mode owner m) = snd owner"
  "acl_has_broad_perms_fd (hardened fs p mode owner m) perms = acl_has_broad_perms_fd m perms"
  "fn_mode (hardened fs p mode owner m) = (if acl_has_broad_perms fs p 0x2 = None then mode else fn_mode m)"
  by (simp_all add: hardened_def is_dir_def acl_has_broad_perms_fd_def)

text \<open>C22: when ensure_secure_dir succeeds, the path consists of plain names; each of its prefixes is a
  real directory, no link; the last one belongs to the owner that was asked for and either has the
  mode that was asked for, or no write permission for group and others, or an access list without
  such a permission; it was not writable by them before and belonged to an allowed account, or
  did not exist; and nothing else in the tree changed but for missing directories of the path, which
  are new and private.\<close>

theorem ensure_secure_dir_secure:
  assumes "ensure_secure_dir pr p mode owner allowed fs = (Inr (), fs')"
  shows "\<exists>q n. components p = Root_Dir # map Normal q \<and> real_dirs (fs_nodes fs') [] q
    \<and> fs_nodes fs' q = Some n \<and> fn_uid n = fst owner \<and> fn_gid n = snd owner
    \<and> (fn_mode n = mode \<or> perm_bits n AND 0x12 = 0 \<or> acl_has_broad_perms_fd n 0x2 = Some False)
    \<and> (\<forall>m. fs_nodes fs q = Some m \<longrightarrow>
        (perm_bits m AND 0x12 = 0 \<or> acl_has_broad_perms_fd m 0x2 = Some False)
        \<and> (allowed = [] \<or> fn_uid m \<in> set allowed))
    \<and> (\<forall>r. r = q \<or> fs_nodes fs' r = fs_nodes fs r
        \<or> (fs_nodes fs r = None \<and> prefix r q \<and> fs_nodes fs' r = Some (new_dir pr)))"
proof -
  from assms obtain fs1 where a: "is_absolute p" and 1: "secure_loop pr p [] (components p) fs = (Inr (), fs1)"
    and 2: "harden_dir p mode owner allowed fs1 = (Inr (), fs')"
    by (auto simp: ensure_secure_dir_def io_simps split: if_splits)
  from components_absolute [OF a] obtain cs where c: "components p = Root_Dir # cs" "Root_Dir \<notin> set cs" "Cur_Dir \<notin> set cs" .
  with secure_loop_grows [of pr p "[]" cs fs fs1] 1 obtain q where q: "cs = map Normal q"
    "real_dirs (fs_nodes fs1) [] q" "grown pr q (fs_nodes fs) (fs_nodes fs1)" by auto
  with c have cq: "components p = Root_Dir # map Normal q" by simp
  from harden_dir_Inr [OF 2 cq q(2)] obtain m where m: "fs_nodes fs1 q = Some m"
    "fs_nodes fs' = (fs_nodes fs1)(q \<mapsto> hardened fs1 p mode owner m)"
    "perm_bits m AND 0x12 = 0 \<or> acl_has_broad_perms fs1 p 0x2 = Some False"
    "allowed = [] \<or> fn_uid m \<in> set allowed" by blast
  have st: "stat fs1 p = Inr m" by (simp add: stat_def resolve_real [OF cq q(2)] node_at_def m(1))
  let ?n = "hardened fs1 p mode owner m"
  have n: "fn_mode ?n = mode \<or> perm_bits ?n AND 0x12 = 0 \<or> acl_has_broad_perms_fd ?n 0x2 = Some False"
    using m(3) acl_False_node [OF _ st] by (auto simp: hardened_node perm_bits_def)
  have old: "m' = m" if "fs_nodes fs q = Some m'" for m'
    using q(3) [unfolded grown_def, rule_format, of q] that m(1) by simp
  have rest: "r = q \<or> fs_nodes fs' r = fs_nodes fs r
      \<or> (fs_nodes fs r = None \<and> prefix r q \<and> fs_nodes fs' r = Some (new_dir pr))" for r
    using q(3) [unfolded grown_def, rule_format, of r] by (auto simp: m(2))
  have "real_dirs (fs_nodes fs') [] q" unfolding m(2)
    by (rule real_dirs_upd [OF q(2) m(1)]) (simp add: hardened_node)
  with cq n old rest m acl_False_node [OF _ st] show ?thesis
    by (intro exI [of _ q] exI [of _ ?n]) (auto simp: hardened_node)
qed

section \<open>Secure reads\<close>

lemma read_secure_file_facts:
  assumes "read_secure_file p is_private_key fs = (Inr b, fs')"
  shows "\<exists>q n. resolve False fs p = Inr q \<and> fs_nodes fs q = Some n \<and> fn_kind n = Regular b
    \<and> (is_private_key \<longrightarrow> perm_bits n AND 0x3F = 0 \<or> acl_has_broad_perms_fd n 0x3F = Some False)"
    and "fs_nodes fs' = fs_nodes fs" and "fs_cwd fs' = fs_cwd fs"
proof -
  from assms obtain n fs1 where 1: "open_nofollow p fs = (Inr n, fs1)" and n: "is_file n"
    and k: "is_private_key \<longrightarrow> effective_perms_are_owner_only_fd n (perm_bits n) 0x3F"
    and 2: "read_to_end n fs1 = (Inr b, fs')"
    by (auto simp: read_secure_file_def io_simps split: prod.splits sum.splits if_splits)
  from 1 have t: "fs_nodes fs1 = fs_nodes fs" "fs_cwd fs1 = fs_cwd fs" "lstat fs1 p = Inr n"
    by (auto simp: open_nofollow_def tick_def Let_def and_then_Inr split: if_splits)
  then obtain q where "resolve False fs p = Inr q" "fs_nodes fs q = Some n"
    by (auto simp: lstat_def node_at_def resolve_def and_then_Inr split: option.splits)
  moreover have b: "fn_kind n = Regular b" "fs_nodes fs' = fs_nodes fs" "fs_cwd fs' = fs_cwd fs"
    using 2 n t by (auto simp: read_to_end_def tick_def Let_def is_file_def content_def split: if_splits file_kind.splits)
  moreover have "(ucast (0x3F :: u32) :: u16) = 0x3F" by simp
  ultimately show "\<exists>q n. resolve False fs p = Inr q \<and> fs_nodes fs q = Some n \<and> fn_kind n = Regular b
      \<and> (is_private_key \<longrightarrow> perm_bits n AND 0x3F = 0 \<or> acl_has_broad_perms_fd n 0x3F = Some False)"
    using k by (auto simp: effective_perms_are_owner_only_fd_def)
  show "fs_nodes fs' = fs_nodes fs" "fs_cwd fs' = fs_cwd fs" by (fact b)+
qed

text \<open>Read_secure_file returns the content of a regular file at the end of the path, never what a
  link there points to, and of a private key only when no permission bit of group and others is set
  or the access list grants nothing to them; the tree is left as it was.\<close>

theorem read_secure_file_safe:
  assumes "read_secure_file p is_private_key fs = (Inr b, fs')"
  shows "\<exists>q n. resolve False fs p = Inr q \<and> fs_nodes fs q = Some n \<and> fn_kind n = Regular b
    \<and> (is_private_key \<longrightarrow> perm_bits n AND 0x3F = 0 \<or> acl_has_broad_perms_fd n 0x3F = Some False)
    \<and> fs_nodes fs' = fs_nodes fs"
  using read_secure_file_facts [OF assms] by blast

section \<open>The properties on a small tree\<close>

definition small_fs :: file_system where
  "small_fs = \<lparr>fs_nodes = [[] \<mapsto> new_dir \<lparr>euid = 0, egid = 0, ruid = 0, umask = 0\<rparr>,
        [''srv''] \<mapsto> new_dir \<lparr>euid = 0, egid = 0, ruid = 0, umask = 0\<rparr>,
        [''srv'', ''key''] \<mapsto> \<lparr>fn_kind = Regular [7], fn_mode = 0x180, fn_uid = 0, fn_gid = 0, fn_acl = None\<rparr>],
      fs_faults = (\<lambda>_. False), fs_calls = 0, fs_cwd = [], fs_listing = (\<lambda>_. []), fs_locked = {}\<rparr>"

definition root_process :: process where
  "root_process = \<lparr>euid = 0, egid = 0, ruid = 0, umask = 0x12\<rparr>"

lemma accepted_path_is_literal_witness:
  "reject_symlink_components small_fs ''/srv/./key'' = Inr () \<and>
   walk 0 (fs_nodes small_fs) True [] (components ''/srv/./key'') = Inr [''srv'', ''key''] \<and>
   path_names (components ''/srv/./key'') = [''srv'', ''key'']"
proof -
  have 1: "reject_symlink_components small_fs ''/srv/./key'' = Inr ()" by code_simp
  have 2: "resolve True small_fs ''/srv/./key'' = Inr [''srv'', ''key'']" by code_simp
  from accepted_path_is_literal [OF 1, of True, unfolded 2] 1 show ?thesis by (metis Inr_inject)
qed

lemma ensure_secure_dir_secure_witness:
  "\<exists>fs' n. ensure_secure_dir root_process ''/srv/certs'' 0x1C0 (5, 6) [0] small_fs = (Inr (), fs')
    \<and> fs_nodes fs' [''srv'', ''certs''] = Some n \<and> fn_uid n = 5"
proof -
  let ?e = "ensure_secure_dir root_process ''/srv/certs'' 0x1C0 (5, 6) [0] small_fs"
  have "fst ?e = Inr ()" by code_simp
  then have e: "?e = (Inr (), snd ?e)" by (metis prod.collapse)
  have c: "components ''/srv/certs'' = [Root_Dir, Normal ''srv'', Normal ''certs'']" by code_simp
  from ensure_secure_dir_secure [OF e] obtain q n where "components ''/srv/certs'' = Root_Dir # map Normal q"
    "fs_nodes (snd ?e) q = Some n" "fn_uid n = fst (5 :: u32, 6 :: u32)" by blast
  moreover have "q = [''srv'', ''certs'']" using calculation(1) by (auto simp: c map_eq_Cons_conv)
  ultimately show ?thesis using e by auto
qed

lemma read_secure_file_safe_witness:
  "\<exists>fs'. read_secure_file ''/srv/key'' True small_fs = (Inr [7], fs') \<and> fs_nodes fs' = fs_nodes small_fs"
proof -
  let ?e = "read_secure_file ''/srv/key'' True small_fs"
  have "fst ?e = Inr [7]" by code_simp
  then have e: "?e = (Inr [7], snd ?e)" by (metis prod.collapse)
  from read_secure_file_safe [OF e] e show ?thesis by blast
qed

end
