(* ===== verification/Trusted_Config.thy ===== *)
theory Trusted_Config
  imports Path_Safety Cln_Api Server_Limits
begin

text \<open>
  Configuration and start of the server: the trusted environment file (\<open>config.rs\<close>), the names of the
  certificate files and their checks (\<open>certs/mtls_certs.rs\<close>), the preflight of \<open>gcob serve\<close>
  (\<open>cli/server.rs\<close>) and the reads of the TLS material (\<open>grpc/server.rs\<close>, \<open>cln/client.rs\<close>).
\<close>

unbundle bit_operations_syntax

section \<open>The environment file\<close>

text \<open>\<open>dotenvy::from_read\<close> is the parameter \<open>dotenv\<close>: the text of its error, or the variables it sets.\<close>

definition DEFAULT_ENV_FILE :: string where
  "DEFAULT_ENV_FILE = ''/etc/gcob/gcob.env''"

definition load_env_file :: "(bytes \<Rightarrow> string + 'v) \<Rightarrow> host \<Rightarrow> string \<Rightarrow> file_system
    \<Rightarrow> (io_error + 'v) \<times> file_system" where
  "load_env_file dotenv h p fs =
     (case open_nofollow p fs of
        (Inl e, fs1) \<Rightarrow> (Inl e, fs1)
      | (Inr file, fs1) \<Rightarrow>
          (let file_uid = fn_uid file; current_uid = euid (proc h); mode = perm_bits file in
           if \<not> is_file file then (Inl (Io_Text ''not a regular file''), fs1)
           else if file_uid \<noteq> 0 \<and> file_uid \<noteq> current_uid
           then (Inl (Io_Text (''owner uid '' @ fmt_word file_uid @ '' is neither root nor the current user ('' @
             fmt_word current_uid @ '')'')), fs1)
           else if mode \<noteq> 0x180 \<and> mode \<noteq> 0x1A0
           then (Inl (Io_Text (''permissions '' @ fmt_mode mode @ '' are not accepted (expected 0600 or 0640)'')), fs1)
           else (case dotenv (content file) of Inl e \<Rightarrow> (Inl (Io_Text e), fs1) | Inr v \<Rightarrow> (Inr v, fs1))))"

text \<open>The outcome: a warning on the standard error, nothing to do, or the variables.\<close>

datatype 'v env_outcome = Env_Warning string | Env_Missing | Env_Loaded 'v

definition load_trusted_env :: "(io_error \<Rightarrow> string) \<Rightarrow> (bytes \<Rightarrow> string + 'v) \<Rightarrow> host \<Rightarrow> file_system
    \<Rightarrow> 'v env_outcome \<times> file_system" where
  "load_trusted_env show_io dotenv h fs =
     (let p = (case env_var h ''GCOB_ENV_FILE'' of
          Some v \<Rightarrow> if v \<noteq> [] then v else DEFAULT_ENV_FILE | None \<Rightarrow> DEFAULT_ENV_FILE)
      in if \<not> is_absolute p
         then (Env_Warning (''Warning: ignoring GCOB_ENV_FILE (must be an absolute path): '' @ p), fs)
         else if \<not> exists_at fs p then (Env_Missing, fs)
         else case load_env_file dotenv h p fs of
           (Inl e, fs1) \<Rightarrow> (Env_Warning (''Warning: refusing to load environment file '' @ p @ '': '' @ show_io e), fs1)
         | (Inr v, fs1) \<Rightarrow> (Env_Loaded v, fs1))"

section \<open>The certificate files\<close>

record cln_config =
  cc_cert_dir :: string
  cc_ca_file :: string
  cc_client_file :: string
  cc_client_key_file :: string
  cc_server_file :: string
  cc_server_key_file :: string
  cc_node_uri :: string
  cc_grpc_bind_addr :: string

text \<open>\<open>{path:?}\<close> and \<open>{e}\<close> are the parameter \<open>show\<close> of the two messages.\<close>

definition mtls_cert_dir :: "(string \<Rightarrow> string) \<Rightarrow> (cert_error \<Rightarrow> string) \<Rightarrow> host \<Rightarrow> string + string" where
  "mtls_cert_dir debug show_err h =
     (let fallback = (case default_cert_dir h of
          Inr d \<Rightarrow> Inr d
        | Inl e \<Rightarrow> Inl (''CLN_CERT_DIR is not set and ~/.certs could not be resolved: '' @ show_err e))
      in case env_var h ''CLN_CERT_DIR'' of
           Some v \<Rightarrow>
             if v \<noteq> [] then
               (if \<not> is_absolute v then Inl (''CLN_CERT_DIR is not absolute: '' @ debug v) else Inr v)
             else fallback
         | None \<Rightarrow> fallback)"

definition env_or :: "host \<Rightarrow> string \<Rightarrow> string \<Rightarrow> string" where
  "env_or h key dflt = (case env_var h key of Some v \<Rightarrow> v | None \<Rightarrow> dflt)"

definition must_be_set :: "host \<Rightarrow> string \<Rightarrow> status + string" where
  "must_be_set h key = (case env_var h key of
     Some v \<Rightarrow> Inr v | None \<Rightarrow> Inl \<lparr>st_code = Failed_Precondition, st_message = key @ '' must be set''\<rparr>)"

definition cln_config_from_env :: "(string \<Rightarrow> string) \<Rightarrow> (cert_error \<Rightarrow> string) \<Rightarrow> host \<Rightarrow> status + cln_config" where
  "cln_config_from_env debug show_err h =
     (case mtls_cert_dir debug show_err h of
        Inl e \<Rightarrow> Inl \<lparr>st_code = Failed_Precondition, st_message = e\<rparr>
      | Inr d \<Rightarrow>
          and_then (must_be_set h ''CLN_NODE_URI'') (\<lambda>uri.
          and_then (must_be_set h ''GRPC_BIND_ADDR'') (\<lambda>addr.
          Inr \<lparr>cc_cert_dir = d,
            cc_ca_file = path_join d (env_or h ''CLN_CA_FILE'' ''ca.pem''),
            cc_client_file = path_join d (env_or h ''CLN_CLIENT_FILE'' ''client.pem''),
            cc_client_key_file = path_join d (env_or h ''CLN_CLIENT_KEY_FILE'' ''client-key.pem''),
            cc_server_file = path_join d (env_or h ''SERVER_CERT_FILE'' ''server.pem''),
            cc_server_key_file = path_join d (env_or h ''SERVER_KEY_FILE'' ''server-key.pem''),
            cc_node_uri = uri, cc_grpc_bind_addr = addr\<rparr>)))"

definition invalid_config :: status where
  "invalid_config = \<lparr>st_code = Failed_Precondition, st_message = ''Invalid certificate configuration''\<rparr>"

definition owner_only_at :: "file_system \<Rightarrow> string \<Rightarrow> status + unit" where
  "owner_only_at fs p =
     (case stat fs p of
        Inl _ \<Rightarrow> Inl \<lparr>st_code = Internal, st_message = ''Internal error''\<rparr>
      | Inr n \<Rightarrow> if effective_perms_are_owner_only fs p (perm_bits n) 0x3F then Inr () else Inl invalid_config)"

definition validate_cert_dir :: "file_system \<Rightarrow> string \<Rightarrow> status + unit" where
  "validate_cert_dir fs p =
     (if \<not> exists_at fs p then Inl invalid_config
      else if \<not> is_dir_at fs p then Inl invalid_config
      else owner_only_at fs p)"

definition validate_cert :: "file_system \<Rightarrow> string \<Rightarrow> bool \<Rightarrow> status + unit" where
  "validate_cert fs p is_private_key =
     (if \<not> exists_at fs p then Inl invalid_config
      else if \<not> is_file_at fs p then Inl invalid_config
      else if is_private_key then owner_only_at fs p else Inr ())"

definition validate_all :: "file_system \<Rightarrow> cln_config \<Rightarrow> status + unit" where
  "validate_all fs c =
     and_then (validate_cert_dir fs (cc_cert_dir c)) (\<lambda>_.
     and_then (validate_cert fs (cc_ca_file c) False) (\<lambda>_.
     and_then (validate_cert fs (cc_client_file c) False) (\<lambda>_.
     and_then (validate_cert fs (cc_client_key_file c) True) (\<lambda>_.
     and_then (validate_cert fs (cc_server_file c) False) (\<lambda>_.
     validate_cert fs (cc_server_key_file c) True)))))"

definition unauthorized :: status where
  "unauthorized = \<lparr>st_code = Permission_Denied, st_message = ''Unauthorized''\<rparr>"

definition validate_user :: "host \<Rightarrow> status + unit" where
  "validate_user h = (case is_gcob_user h of
     Inr True \<Rightarrow> Inr () | Inr False \<Rightarrow> Inl unauthorized | Inl _ \<Rightarrow> Inl unauthorized)"

section \<open>The start of the server\<close>

definition serve_preflight :: "(string \<Rightarrow> string) \<Rightarrow> (cert_error \<Rightarrow> string) \<Rightarrow> host \<Rightarrow> file_system \<Rightarrow> status + unit" where
  "serve_preflight debug show_err h fs =
     (if env_or h ''GCOB_ENV'' ''production'' = ''development''
      then and_then (cln_config_from_env debug show_err h) (validate_all fs)
      else and_then (cln_config_from_env debug show_err h) (\<lambda>config.
        and_then (validate_all fs config) (\<lambda>_. validate_user h)))"

text \<open>\<open>ClnClient::connect\<close> reads the material of the node's client, \<open>run\<close> that of the server. \<open>connected\<close>
  is what the connection answers; a start fails with a status or a certificate error.\<close>

datatype start_error = Start_Status status | Start_Limits limit_error | Start_Cert cert_error | Start_Other string

definition client_material :: "cln_config \<Rightarrow> (bytes \<times> bytes \<times> bytes) io" where
  "client_material c =
     and_do (read_secure_file (cc_ca_file c) False) (\<lambda>ca.
     and_do (read_secure_file (cc_client_file c) False) (\<lambda>cert.
     and_do (read_secure_file (cc_client_key_file c) True) (\<lambda>key.
     give (Inr (ca, cert, key)))))"

definition server_material :: "cln_config \<Rightarrow> (bytes \<times> bytes \<times> bytes) io" where
  "server_material c =
     and_do (read_secure_file (cc_server_file c) False) (\<lambda>cert.
     and_do (read_secure_file (cc_server_key_file c) True) (\<lambda>key.
     and_do (read_secure_file (cc_ca_file c) False) (\<lambda>ca.
     give (Inr (cert, key, ca)))))"

definition as_status :: "status + 'a \<Rightarrow> start_error + 'a" where
  "as_status r = (case r of Inl e \<Rightarrow> Inl (Start_Status e) | Inr a \<Rightarrow> Inr a)"

text \<open>\<open>run\<close> of \<open>grpc/server.rs\<close> up to the TLS configuration; the connection to Redis cannot fail it.\<close>

definition server_run :: "(string \<Rightarrow> string) \<Rightarrow> (cert_error \<Rightarrow> string) \<Rightarrow> (bytes \<times> bytes \<times> bytes \<Rightarrow> string + 'c)
    \<Rightarrow> (string \<Rightarrow> bool) \<Rightarrow> host \<Rightarrow> file_system
    \<Rightarrow> (start_error + limits \<times> 'c \<times> bytes \<times> bytes \<times> bytes) \<times> file_system" where
  "server_run debug show_err connect is_socket_addr h fs =
     (case from_lookup (env_var h) of
        Inl e \<Rightarrow> (Inl (Start_Limits e), fs)
      | Inr limits \<Rightarrow>
          (case as_status (and_then (cln_config_from_env debug show_err h) (\<lambda>c.
              and_then (validate_all fs c) (\<lambda>_. Inr c))) of
             Inl e \<Rightarrow> (Inl e, fs)
           | Inr c \<Rightarrow>
               (case client_material c fs of
                  (Inl e, fs1) \<Rightarrow> (Inl (Start_Cert e), fs1)
                | (Inr material, fs1) \<Rightarrow>
                    (case connect material of
                       Inl e \<Rightarrow> (Inl (Start_Other e), fs1)
                     | Inr client \<Rightarrow>
                         if \<not> is_socket_addr (cc_grpc_bind_addr c)
                         then (Inl (Start_Other ''invalid socket address syntax''), fs1)
                         else (case server_material c fs1 of
                            (Inl e, fs2) \<Rightarrow> (Inl (Start_Cert e), fs2)
                          | (Inr (cert, key, ca), fs2) \<Rightarrow> (Inr (limits, client, cert, key, ca), fs2))))))"

definition handle_serve :: "(string \<Rightarrow> string) \<Rightarrow> (cert_error \<Rightarrow> string) \<Rightarrow> (bytes \<times> bytes \<times> bytes \<Rightarrow> string + 'c)
    \<Rightarrow> (string \<Rightarrow> bool) \<Rightarrow> host \<Rightarrow> file_system
    \<Rightarrow> (start_error + limits \<times> 'c \<times> bytes \<times> bytes \<times> bytes) \<times> file_system" where
  "handle_serve debug show_err connect is_socket_addr h fs =
     (case serve_preflight debug show_err h fs of
        Inl e \<Rightarrow> (Inl (Start_Status e), fs)
      | Inr _ \<Rightarrow> server_run debug show_err connect is_socket_addr h fs)"

section \<open>What a started server rests on\<close>

definition private_file :: "file_system \<Rightarrow> string \<Rightarrow> bytes \<Rightarrow> bool" where
  "private_file fs p b \<longleftrightarrow> (\<exists>q n. resolve False fs p = Inr q \<and> fs_nodes fs q = Some n \<and> fn_kind n = Regular b
    \<and> (perm_bits n AND 0x3F = 0 \<or> acl_has_broad_perms_fd n 0x3F = Some False))"

lemma private_file_read: "read_secure_file p True fs = (Inr b, fs') \<Longrightarrow> private_file fs p b"
  using read_secure_file_facts(1) [of p True fs b fs'] unfolding private_file_def by blast

lemma private_file_cong:
  "fs_nodes fs' = fs_nodes fs \<Longrightarrow> fs_cwd fs' = fs_cwd fs \<Longrightarrow> private_file fs' = private_file fs"
  by (intro ext) (simp add: private_file_def resolve_def)

lemma client_material_ok:
  assumes "client_material c fs = (Inr (ca, cert, key), fs')"
  shows "private_file fs (cc_client_key_file c) key" "fs_nodes fs' = fs_nodes fs" "fs_cwd fs' = fs_cwd fs"
proof -
  from assms obtain fs1 fs2 where 1: "read_secure_file (cc_ca_file c) False fs = (Inr ca, fs1)"
    and 2: "read_secure_file (cc_client_file c) False fs1 = (Inr cert, fs2)"
    and 3: "read_secure_file (cc_client_key_file c) True fs2 = (Inr key, fs')"
    by (auto simp: client_material_def io_simps)
  note f = read_secure_file_facts(2,3) [OF 1] read_secure_file_facts(2,3) [OF 2] read_secure_file_facts(2,3) [OF 3]
  show "private_file fs (cc_client_key_file c) key" using private_file_read [OF 3] private_file_cong [of fs2 fs] f by simp
  show "fs_nodes fs' = fs_nodes fs" "fs_cwd fs' = fs_cwd fs" using f by simp_all
qed

lemma server_material_ok:
  assumes "server_material c fs = (Inr (cert, key, ca), fs')"
  shows "private_file fs (cc_server_key_file c) key" "fs_nodes fs' = fs_nodes fs"
proof -
  from assms obtain fs1 fs2 where 1: "read_secure_file (cc_server_file c) False fs = (Inr cert, fs1)"
    and 2: "read_secure_file (cc_server_key_file c) True fs1 = (Inr key, fs2)"
    and 3: "read_secure_file (cc_ca_file c) False fs2 = (Inr ca, fs')"
    by (auto simp: server_material_def io_simps)
  note f = read_secure_file_facts(2,3) [OF 1] read_secure_file_facts(2,3) [OF 2] read_secure_file_facts(2,3) [OF 3]
  show "private_file fs (cc_server_key_file c) key" using private_file_read [OF 2] private_file_cong [of fs1 fs] f by simp
  show "fs_nodes fs' = fs_nodes fs" using f by simp
qed

lemma server_run_private:
  assumes "server_run debug show_err connect addr h fs = (Inr (limits, client, cert, key, ca), fs')"
  shows "\<exists>c k. cln_config_from_env debug show_err h = Inr c \<and> validate_all fs c = Inr ()
    \<and> private_file fs (cc_server_key_file c) key \<and> private_file fs (cc_client_key_file c) k
    \<and> fs_nodes fs' = fs_nodes fs"
proof -
  from assms obtain c a b k fs1 where c: "cln_config_from_env debug show_err h = Inr c" "validate_all fs c = Inr ()"
    and 1: "client_material c fs = (Inr (a, b, k), fs1)"
    and 2: "server_material c fs1 = (Inr (cert, key, ca), fs')"
    by (auto simp: server_run_def as_status_def and_then_Inr split: sum.splits prod.splits if_splits)
  note m = client_material_ok [OF 1]
  from c server_material_ok [OF 2] m private_file_cong [of fs1 fs] show ?thesis by auto
qed

text \<open>A server that starts runs in production only as the account gcob, and its keys are private.\<close>

lemma handle_serve_private:
  assumes "handle_serve debug show_err connect addr h fs = (Inr (limits, client, cert, key, ca), fs')"
  shows "\<exists>c k. cln_config_from_env debug show_err h = Inr c
    \<and> private_file fs (cc_server_key_file c) key \<and> private_file fs (cc_client_key_file c) k
    \<and> owner_only_at fs (cc_cert_dir c) = Inr () \<and> fs_nodes fs' = fs_nodes fs
    \<and> (env_var h ''GCOB_ENV'' \<noteq> Some ''development'' \<longrightarrow>
        (\<exists>g. account_from_name h ''gcob'' = Some g \<and> euid (proc h) = aa_uid g))"
proof -
  from assms have p: "serve_preflight debug show_err h fs = Inr ()"
    and r: "server_run debug show_err connect addr h fs = (Inr (limits, client, cert, key, ca), fs')"
    by (auto simp: handle_serve_def split: sum.splits)
  from server_run_private [OF r] obtain c k where c: "cln_config_from_env debug show_err h = Inr c"
    "validate_all fs c = Inr ()" "private_file fs (cc_server_key_file c) key"
    "private_file fs (cc_client_key_file c) k" "fs_nodes fs' = fs_nodes fs" by blast
  have d: "owner_only_at fs (cc_cert_dir c) = Inr ()"
    using c(2) by (auto simp: validate_all_def and_then_Inr validate_cert_dir_def split: if_splits)
  have g: "\<exists>g. account_from_name h ''gcob'' = Some g \<and> euid (proc h) = aa_uid g"
    if "env_var h ''GCOB_ENV'' \<noteq> Some ''development''"
  proof -
    have "env_or h ''GCOB_ENV'' ''production'' \<noteq> ''development''"
      using that by (auto simp: env_or_def split: option.splits)
    with p have "validate_user h = Inr ()" by (auto simp: serve_preflight_def and_then_Inr)
    then show ?thesis
      by (auto simp: validate_user_def is_gcob_user_def split: sum.splits bool.splits option.splits)
  qed
  from c d g show ?thesis by blast
qed

lemma load_env_file_Inr:
  assumes "load_env_file dotenv h p fs = (Inr v, fs')"
  shows "\<exists>q n b. resolve False fs p = Inr q \<and> fs_nodes fs q = Some n \<and> fn_kind n = Regular b \<and> dotenv b = Inr v
    \<and> (fn_uid n = 0 \<or> fn_uid n = euid (proc h)) \<and> (perm_bits n = 0x180 \<or> perm_bits n = 0x1A0)"
proof -
  from assms obtain n fs1 where 1: "open_nofollow p fs = (Inr n, fs1)" and n: "is_file n" "dotenv (content n) = Inr v"
    "fn_uid n = 0 \<or> fn_uid n = euid (proc h)" "perm_bits n = 0x180 \<or> perm_bits n = 0x1A0"
    by (auto simp: load_env_file_def Let_def split: if_splits prod.splits sum.splits)
  from 1 obtain q where "resolve False fs p = Inr q" "fs_nodes fs q = Some n"
    by (auto simp: open_nofollow_def tick_def Let_def and_then_Inr lstat_def node_at_def resolve_def
        split: if_splits option.splits)
  moreover obtain b where "fn_kind n = Regular b" "content n = b"
    using n(1) by (auto simp: is_file_def content_def split: file_kind.splits)
  ultimately show ?thesis using n by blast
qed

lemma loaded_env_Inr:
  assumes "load_trusted_env show_io dotenv h fs = (Env_Loaded v, fs')"
  shows "\<exists>p q n b. is_absolute p \<and> (env_var h ''GCOB_ENV_FILE'' = Some p \<or> p = ''/etc/gcob/gcob.env'')
    \<and> resolve False fs p = Inr q \<and> fs_nodes fs q = Some n \<and> fn_kind n = Regular b \<and> dotenv b = Inr v
    \<and> (fn_uid n = 0 \<or> fn_uid n = euid (proc h)) \<and> (perm_bits n = 0x180 \<or> perm_bits n = 0x1A0)"
proof -
  let ?p = "case env_var h ''GCOB_ENV_FILE'' of Some v \<Rightarrow> if v \<noteq> [] then v else DEFAULT_ENV_FILE | None \<Rightarrow> DEFAULT_ENV_FILE"
  from assms have p: "is_absolute ?p" "load_env_file dotenv h ?p fs = (Inr v, fs')"
    by (auto simp: load_trusted_env_def Let_def split: if_splits prod.splits sum.splits)
  moreover have "env_var h ''GCOB_ENV_FILE'' = Some ?p \<or> ?p = ''/etc/gcob/gcob.env''"
    by (simp add: DEFAULT_ENV_FILE_def split: option.split)
  ultimately show ?thesis using load_env_file_Inr [OF p(2)] by blast
qed

text \<open>C27: variables are taken from an environment file only when the path is absolute, leads without a
  link in its last place to a regular file that belongs to root or to the process, and has the mode
  0600 or 0640.\<close>

theorem loaded_env_is_trusted:
  assumes "load_trusted_env show_io dotenv h fs = (Env_Loaded v, fs')"
  shows "\<exists>p q n b. is_absolute p \<and> (env_var h ''GCOB_ENV_FILE'' = Some p \<or> p = ''/etc/gcob/gcob.env'')
    \<and> resolve False fs p = Inr q \<and> fs_nodes fs q = Some n \<and> fn_kind n = Regular b \<and> dotenv b = Inr v
    \<and> (fn_uid n = 0 \<or> fn_uid n = euid (proc h)) \<and> (perm_bits n = 0x180 \<or> perm_bits n = 0x1A0)"
  by (rule loaded_env_Inr [OF assms])

section \<open>A start\<close>

definition node_of :: "file_kind \<Rightarrow> u32 \<Rightarrow> fs_node" where
  "node_of k mode = \<lparr>fn_kind = k, fn_mode = mode, fn_uid = 7, fn_gid = 7, fn_acl = None\<rparr>"

definition start_fs :: file_system where
  "start_fs = \<lparr>fs_nodes = [[''c''] \<mapsto> node_of Dir 0x1C0,
      [''c'', ''ca.pem''] \<mapsto> node_of (Regular [1]) 0x1A4, [''c'', ''client.pem''] \<mapsto> node_of (Regular [2]) 0x1A4,
      [''c'', ''client-key.pem''] \<mapsto> node_of (Regular [3]) 0x100,
      [''c'', ''server.pem''] \<mapsto> node_of (Regular [4]) 0x1A4,
      [''c'', ''server-key.pem''] \<mapsto> node_of (Regular [5]) 0x180,
      [''gcob.env''] \<mapsto> node_of (Regular [6]) 0x1A0],
    fs_faults = (\<lambda>_. False), fs_calls = 0, fs_cwd = [], fs_listing = (\<lambda>_. []), fs_locked = {}\<rparr>"

definition start_host :: host where
  "start_host = \<lparr>pw_by_name = [''gcob'' \<mapsto> \<lparr>aa_name = ''gcob'', aa_uid = 7, aa_gid = 7, aa_home = ''/''\<rparr>],
    pw_by_uid = Map.empty,
    env_var = [''CLN_CERT_DIR'' \<mapsto> ''/c'', ''CLN_NODE_URI'' \<mapsto> ''u'', ''GRPC_BIND_ADDR'' \<mapsto> ''a'',
      ''GCOB_ENV_FILE'' \<mapsto> ''/gcob.env''],
    proc = \<lparr>euid = 7, egid = 7, ruid = 7, umask = 0x12\<rparr>\<rparr>"

lemma loaded_env_is_trusted_witness:
  "\<exists>fs' n. load_trusted_env (\<lambda>_. '''') (\<lambda>b. Inr b) start_host start_fs = (Env_Loaded [6], fs')
    \<and> fs_nodes start_fs [''gcob.env''] = Some n \<and> fn_kind n = Regular [6]"
proof -
  let ?s = "load_trusted_env (\<lambda>_. '''') (\<lambda>b. Inr b) start_host start_fs"
  have "fst ?s = Env_Loaded [6]" by code_simp
  then have s: "?s = (Env_Loaded [6], snd ?s)" by (metis prod.collapse)
  from loaded_env_is_trusted [OF s] obtain p q n where p: "env_var start_host ''GCOB_ENV_FILE'' = Some p \<or> p = ''/etc/gcob/gcob.env''"
    "resolve False start_fs p = Inr q" "fs_nodes start_fs q = Some n" "fn_kind n = Regular [6]" by auto
  moreover have "env_var start_host ''GCOB_ENV_FILE'' = Some ''/gcob.env''" "resolve False start_fs ''/gcob.env'' = Inr [''gcob.env'']"
    "resolve False start_fs ''/etc/gcob/gcob.env'' = Inl Not_Found" by code_simp+
  ultimately show ?thesis using s by auto
qed

end
