(* ===== verification/Certificates.thy ===== *)
theory Certificates
  imports Path_Safety Ip_Text
begin

text \<open>
  Reading and judging certificates (\<open>certs/inspect.rs\<close> and the checks of \<open>certs/generate.rs\<close>). The
  parsers of PEM and X.509, the signatures, the key pairs, SHA-256, hex and the clock come from other
  packages: they are the record \<open>pki\<close>, and a parsed certificate is what the code reads of it.
\<close>

unbundle bit_operations_syntax

section \<open>What the packages provide\<close>

datatype general_name = DNS_Name string | IP_Address bytes | Other_Name string

record certificate =
  ct_subject :: string
  ct_issuer :: string
  ct_serial :: string
  ct_not_before :: int
  ct_not_after :: int
  ct_basic_ca :: "(string + bool option)"  \<comment> \<open>\<open>basic_constraints()\<close>, the flag of the extension\<close>
  ct_eku :: "string + (bool \<times> bool) option"  \<comment> \<open>server and client authentication\<close>
  ct_sans :: "string + general_name list option"
  ct_public_key :: bytes
  ct_raw :: bytes

text \<open>The parameters of a certificate as \<open>rcgen\<close> takes them, and a pair of keys.\<close>

datatype san_type = San_Dns string | San_Ip ip_addr | San_Other string

datatype key_purpose = Server_Auth | Client_Auth

datatype key_usage = Digital_Signature | Other_Usage

datatype is_ca = No_Ca | Explicit_No_Ca | Is_Ca

datatype dn_type = Common_Name | Other_Dn

record cert_params =
  pa_names :: "san_type list"
  pa_subject :: "(dn_type \<times> string) list"
  pa_purposes :: "key_purpose list"
  pa_usages :: "key_usage list"
  pa_is_ca :: is_ca
  pa_not_before :: int
  pa_not_after :: int

record key_pair =
  kp_public :: bytes
  kp_pem :: string

text \<open>\<open>parse\<close> is \<open>parse_x509_pem\<close> and then \<open>parse_x509\<close>; \<open>sub\<close> the difference of two times, if there
  is one; \<open>key_of_pem\<close> yields the raw public key of a private key; \<open>csr_key\<close> the public key of a
  request. \<open>generate\<close> and \<open>suffix\<close> draw a key and the random part of a temporary name at a moment,
  which is the number of calls to the system so far; \<open>params\<close> is \<open>CertificateParams::new\<close>; \<open>sign\<close> is
  \<open>signed_by\<close> with the text of the result.\<close>

record pki =
  pk_parse :: "bytes \<Rightarrow> string + certificate"
  pk_verify :: "certificate \<Rightarrow> certificate \<Rightarrow> bool"
  pk_now :: int
  pk_sub :: "int \<Rightarrow> int \<Rightarrow> int option"
  pk_time_left :: "certificate \<Rightarrow> int option"
  pk_show_time :: "int \<Rightarrow> string"
  pk_show_name :: "general_name \<Rightarrow> string"
  pk_key_of_pem :: "string \<Rightarrow> string + bytes"
  pk_csr_key :: "string \<Rightarrow> string + bytes"
  pk_fingerprint :: "bytes \<Rightarrow> string"  \<comment> \<open>\<open>hex::encode(Sha256::digest(_))\<close>\<close>
  pk_show_list :: "string list \<Rightarrow> string"  \<comment> \<open>\<open>{:?}\<close>\<close>
  pk_show_set :: "string set \<Rightarrow> string"
  pk_issuer :: "string \<times> string \<Rightarrow> string + unit"  \<comment> \<open>\<open>Issuer::from_ca_cert_pem\<close>\<close>
  pk_generate :: "nat \<Rightarrow> string + key_pair"
  pk_params :: "string list \<Rightarrow> string + cert_params"
  pk_sign :: "cert_params \<Rightarrow> bytes \<Rightarrow> string \<times> string \<Rightarrow> string + string"
  pk_request :: "cert_params \<Rightarrow> key_pair \<Rightarrow> string + bytes"
  pk_request_pem :: "bytes \<Rightarrow> string + string"
  pk_suffix :: "nat \<Rightarrow> string"
  pk_dir_mode :: u32  \<comment> \<open>the mode \<open>tempdir_in\<close> asks for\<close>

section \<open>Files\<close>

definition string_of_bytes :: "bytes \<Rightarrow> string" where
  "string_of_bytes b = map (\<lambda>w. char_of (unat w)) b"

definition bytes_of_string :: "string \<Rightarrow> bytes" where
  "bytes_of_string s = map (\<lambda>c. of_nat (code c)) s"

text \<open>Well-formed UTF-8, as \<open>from_utf8\<close> checks it.\<close>

definition tail_byte :: "u8 \<Rightarrow> bool" where
  "tail_byte b \<longleftrightarrow> 0x80 \<le> b \<and> b \<le> 0xBF"

fun utf8_ok :: "bytes \<Rightarrow> bool" where
  "utf8_ok [] = True"
| "utf8_ok (a # r) =
     (if a < 0x80 then utf8_ok r
      else case r of
        [] \<Rightarrow> False
      | b # r2 \<Rightarrow>
          if 0xC2 \<le> a \<and> a \<le> 0xDF then tail_byte b \<and> utf8_ok r2
          else case r2 of
            [] \<Rightarrow> False
          | c # r3 \<Rightarrow>
              if 0xE0 \<le> a \<and> a \<le> 0xEF
              then tail_byte b \<and> tail_byte c \<and> (a = 0xE0 \<longrightarrow> 0xA0 \<le> b) \<and> (a = 0xED \<longrightarrow> b \<le> 0x9F) \<and> utf8_ok r3
              else case r3 of
                [] \<Rightarrow> False
              | d # r4 \<Rightarrow> 0xF0 \<le> a \<and> a \<le> 0xF4 \<and> tail_byte b \<and> tail_byte c \<and> tail_byte d
                  \<and> (a = 0xF0 \<longrightarrow> 0x90 \<le> b) \<and> (a = 0xF4 \<longrightarrow> b \<le> 0x8F) \<and> utf8_ok r4)"

text \<open>\<open>fs::read\<close> follows links; the reading itself may fail.\<close>

definition read_at :: "string \<Rightarrow> bytes io" where
  "read_at p = (\<lambda>fs. case stat fs p of
     Inl e \<Rightarrow> (Inl (Cert_Io e), fs)
   | Inr n \<Rightarrow> if is_file n then io (read_to_end n) fs else (Inl (Cert_Io Io_Other), fs))"

definition read_to_string_at :: "string \<Rightarrow> string io" where
  "read_to_string_at p = and_do (read_at p) (\<lambda>b.
     give (if utf8_ok b then Inr (string_of_bytes b) else Inl (Cert_Io Io_Other)))"

definition parse_error :: "string \<Rightarrow> string + 'a \<Rightarrow> cert_error + 'a" where
  "parse_error pre r = (case r of Inl e \<Rightarrow> Inl (Cert_Parse (pre @ e)) | Inr a \<Rightarrow> Inr a)"

definition rcgen_error :: "string + 'a \<Rightarrow> cert_error + 'a" where
  "rcgen_error r = (case r of Inl e \<Rightarrow> Inl (Rcgen e) | Inr a \<Rightarrow> Inr a)"

definition read_cert :: "pki \<Rightarrow> string \<Rightarrow> string \<Rightarrow> certificate io" where
  "read_cert k pre p = and_do (read_at p) (\<lambda>pem. give (parse_error pre (pk_parse k pem)))"

text \<open>\<open>basic_constraints().ok().flatten().map(ca).unwrap_or(false)\<close>\<close>

definition is_ca_cert :: "certificate \<Rightarrow> bool" where
  "is_ca_cert c \<longleftrightarrow> ct_basic_ca c = Inr (Some True)"

section \<open>Inspection\<close>

record cert_info =
  ci_file :: string
  ci_subject :: string
  ci_issuer :: string
  ci_not_before :: string
  ci_not_after :: string
  ci_days_remaining :: int
  ci_is_ca :: bool
  ci_serial :: string
  ci_sans :: "string list"

text \<open>Integer division truncates.\<close>

definition whole_days :: "int \<Rightarrow> int" where
  "whole_days s = (if 0 \<le> s then s div 86400 else - ((- s) div 86400))"

definition days_left :: "pki \<Rightarrow> certificate \<Rightarrow> int" where
  "days_left k c = (case pk_time_left k c of Some d \<Rightarrow> whole_days d | None \<Rightarrow> - 1)"

definition cert_info_of :: "pki \<Rightarrow> string \<Rightarrow> certificate \<Rightarrow> cert_info" where
  "cert_info_of k p c = \<lparr>ci_file = p, ci_subject = ct_subject c, ci_issuer = ct_issuer c,
     ci_not_before = pk_show_time k (ct_not_before c), ci_not_after = pk_show_time k (ct_not_after c),
     ci_days_remaining = days_left k c, ci_is_ca = is_ca_cert c, ci_serial = ct_serial c,
     ci_sans = (case ct_sans c of Inr (Some ns) \<Rightarrow> map (pk_show_name k) ns | _ \<Rightarrow> [])\<rparr>"

definition parse_cert :: "pki \<Rightarrow> string \<Rightarrow> cert_info io" where
  "parse_cert k p = and_do (read_cert k '''' p) (\<lambda>c. give (Inr (cert_info_of k p c)))"

definition days_until_expiry :: "pki \<Rightarrow> string \<Rightarrow> int io" where
  "days_until_expiry k p = and_do (read_cert k '''' p) (\<lambda>c. give (Inr (days_left k c)))"

record chain_result =
  cr_subject :: string
  cr_issuer :: string
  cr_signed_by_ca :: bool
  cr_expired :: bool
  cr_days_remaining :: int
  cr_errors :: "string list"

definition chain_of :: "pki \<Rightarrow> certificate \<Rightarrow> certificate \<Rightarrow> chain_result" where
  "chain_of k cert ca =
     (let issuer_matches = ct_issuer cert = ct_subject ca;
          ca_is_ca = is_ca_cert ca;
          signature_ok = issuer_matches \<and> ca_is_ca \<and> pk_verify k cert ca;
          now = pk_now k;
          expired = ct_not_after cert < now;
          not_yet_valid = now < ct_not_before cert;
          seconds = (\<lambda>d. case d of Some s \<Rightarrow> s | None \<Rightarrow> 0);
          days_remaining =
            (if expired then - whole_days (seconds (pk_sub k now (ct_not_after cert)))
             else whole_days (seconds (pk_sub k (ct_not_after cert) now)))
      in \<lparr>cr_subject = ct_subject cert, cr_issuer = ct_issuer cert,
          cr_signed_by_ca = issuer_matches \<and> ca_is_ca \<and> signature_ok, cr_expired = expired,
          cr_days_remaining = days_remaining,
          cr_errors =
            (if \<not> issuer_matches then [''issuer '' @ quoted (ct_issuer cert) @ '' does not match CA subject '' @
               quoted (ct_subject ca)] else []) @
            (if \<not> ca_is_ca then [''CA certificate is not a CA (basicConstraints CA:FALSE)''] else []) @
            (if issuer_matches \<and> ca_is_ca \<and> \<not> signature_ok
             then [''certificate signature does not verify against the CA key''] else []) @
            (if expired then [''certificate expired '' @ fmt_int (- days_remaining) @ '' days ago''] else []) @
            (if not_yet_valid then [''certificate is not yet valid''] else [])\<rparr>)"

text \<open>Both files are read before either is parsed.\<close>

definition verify_signed_by :: "pki \<Rightarrow> string \<Rightarrow> string \<Rightarrow> chain_result io" where
  "verify_signed_by k cert_path ca_path =
     and_do (read_at cert_path) (\<lambda>cert_pem.
     and_do (read_at ca_path) (\<lambda>ca_pem.
     and_do (give (parse_error '''' (pk_parse k cert_pem))) (\<lambda>cert.
     and_do (give (parse_error '''' (pk_parse k ca_pem))) (\<lambda>ca.
     give (Inr (chain_of k cert ca))))))"

text \<open>The text of an address in a name: 4 or 16 bytes, anything else is none.\<close>

definition ip_of_bytes :: "bytes \<Rightarrow> ip_addr option" where
  "ip_of_bytes b =
     (case b of
        [a, c, d, e] \<Rightarrow> Some (V4 a c d e)
      | _ \<Rightarrow> if length b = 16
          then Some (V6 (map (\<lambda>i. be_bytes (b ! (2 * i)) (b ! (2 * i + 1))) [0..<8])) else None)"

fun octets :: "ip_addr \<Rightarrow> bytes" where
  "octets (V4 a b c d) = [a, b, c, d]"
| "octets (V6 gs) = concat (map (\<lambda>g. [ucast (drop_bit 8 g), ucast g]) gs)"

fun identities_loop :: "general_name list \<Rightarrow> string option \<Rightarrow> string option \<Rightarrow> string option \<times> string option" where
  "identities_loop [] dns ip = (dns, ip)"
| "identities_loop (DNS_Name n # names) dns ip =
     (if dns = None then identities_loop names (Some n) ip else identities_loop names dns ip)"
| "identities_loop (IP_Address b # names) dns ip =
     (if ip = None then identities_loop names dns (map_option fmt_ip (ip_of_bytes b))
      else identities_loop names dns ip)"
| "identities_loop (Other_Name n # names) dns ip = identities_loop names dns ip"

definition san_identities :: "pki \<Rightarrow> string \<Rightarrow> (string option \<times> string option) io" where
  "san_identities k p = and_do (read_cert k '''' p) (\<lambda>c.
     and_do (give (parse_error '''' (ct_sans c))) (\<lambda>sans.
     give (Inr (case sans of Some names \<Rightarrow> identities_loop names None None | None \<Rightarrow> (None, None)))))"

definition san_matches :: "string \<Rightarrow> general_name \<Rightarrow> bool" where
  "san_matches expected name =
     (case name of
        DNS_Name dns \<Rightarrow> parse_ip expected = None \<and> eq_ignore_ascii_case dns expected
      | IP_Address b \<Rightarrow> (case parse_ip expected of Some ip \<Rightarrow> b = octets ip | None \<Rightarrow> False)
      | Other_Name _ \<Rightarrow> False)"

definition check_san_match :: "pki \<Rightarrow> string \<Rightarrow> string \<Rightarrow> bool io" where
  "check_san_match k p expected = and_do (read_cert k '''' p) (\<lambda>c.
     and_do (give (parse_error '''' (ct_sans c))) (\<lambda>sans.
     give (Inr (case sans of Some names \<Rightarrow> list_ex (san_matches expected) names | None \<Rightarrow> False))))"

section \<open>Tokens of names\<close>

definition san_token :: "string \<Rightarrow> string" where
  "san_token v = (case parse_ip v of Some _ \<Rightarrow> ''ip:'' @ v | None \<Rightarrow> ''dns:'' @ to_ascii_lowercase v)"

fun name_token :: "general_name \<Rightarrow> string option" where
  "name_token (DNS_Name dns) = Some (''dns:'' @ to_ascii_lowercase dns)"
| "name_token (IP_Address b) = map_option (\<lambda>ip. ''ip:'' @ fmt_ip ip) (ip_of_bytes b)"
| "name_token (Other_Name n) = None"

definition tokens_of :: "general_name list option \<Rightarrow> string set" where
  "tokens_of sans = (case sans of None \<Rightarrow> {} | Some names \<Rightarrow> set (List.map_filter name_token names))"

definition cert_san_set :: "pki \<Rightarrow> string \<Rightarrow> string set io" where
  "cert_san_set k p = and_do (read_cert k ''Certificate parse error: '' p) (\<lambda>c.
     and_do (give (parse_error '''' (ct_sans c))) (\<lambda>sans. give (Inr (tokens_of sans))))"

definition cert_fingerprint :: "pki \<Rightarrow> string \<Rightarrow> string io" where
  "cert_fingerprint k p = and_do (read_cert k ''Certificate parse error: '' p) (\<lambda>c.
     give (Inr (pk_fingerprint k (ct_raw c))))"

section \<open>The certificate authority\<close>

record validated_ca =
  vc_issuer :: "string \<times> string"  \<comment> \<open>certificate and key the issuer was made of\<close>
  vc_ca_pem :: string
  vc_fingerprint :: string

definition load_validated_ca :: "pki \<Rightarrow> cln_source_paths \<Rightarrow> validated_ca io" where
  "load_validated_ca k source = (\<lambda>fs0.
     and_do (give (validate_cln_source fs0 source)) (\<lambda>_ fs.
     if \<not> exists_at fs (cs_ca_file source)
     then (Inl (Missing_Source (''CA certificate not found: '' @ cs_ca_file source)), fs)
     else if \<not> exists_at fs (cs_ca_key_file source)
     then (Inl (Missing_Source (''CA key not found: '' @ cs_ca_key_file source)), fs)
     else and_do (read_to_string_at (cs_ca_key_file source)) (\<lambda>ca_key_pem.
       and_do (read_to_string_at (cs_ca_file source)) (\<lambda>ca_pem.
       and_do (give (rcgen_error (pk_key_of_pem k ca_key_pem))) (\<lambda>ca_key.
       and_do (give (parse_error ''CA parse error: '' (pk_parse k (bytes_of_string ca_pem)))) (\<lambda>ca_cert.
       if \<not> is_ca_cert ca_cert
       then give (Inl (Cert_Parse ''CA certificate is not a CA (basicConstraints CA:FALSE)''))
       else if ca_key \<noteq> ct_public_key ca_cert
       then give (Inl (Cert_Parse ''CA private key does not match ca.pem''))
       else and_do (give (rcgen_error (pk_issuer k (ca_pem, ca_key_pem)))) (\<lambda>_.
         give (Inr \<lparr>vc_issuer = (ca_pem, ca_key_pem), vc_ca_pem = ca_pem,
           vc_fingerprint = pk_fingerprint k (ct_raw ca_cert)\<rparr>)))))) fs) fs0)"

section \<open>Verification of what was issued\<close>

definition chain_checked :: "pki \<Rightarrow> string \<Rightarrow> string \<Rightarrow> chain_result \<Rightarrow> cert_error + unit" where
  "chain_checked k what cert_path chain =
     (if \<not> cr_signed_by_ca chain \<or> cr_expired chain \<or> cr_errors chain \<noteq> []
      then Inl (Cert_Parse (what @ '' certificate '' @ cert_path @ '' failed chain validation: '' @ pk_show_list k (cr_errors chain)))
      else Inr ())"

definition require_eku :: "string \<Rightarrow> (bool \<times> bool) option \<Rightarrow> cert_error + bool \<times> bool" where
  "require_eku what e = (case e of None \<Rightarrow> Inl (Cert_Parse (what @ '' certificate has no EKU'')) | Some u \<Rightarrow> Inr u)"

definition verify_issued_cert :: "pki \<Rightarrow> string \<Rightarrow> string \<Rightarrow> string
    \<Rightarrow> string set \<Rightarrow> bool \<Rightarrow> unit io" where
  "verify_issued_cert k cert_path key_path ca_path expected_sans expect_server_auth =
     and_do (verify_signed_by k cert_path ca_path) (\<lambda>chain.
     and_do (give (chain_checked k ''Issued'' cert_path chain)) (\<lambda>_.
     and_do (read_cert k ''Certificate parse error: '' cert_path) (\<lambda>cert.
     and_do (give (parse_error '''' (ct_eku cert))) (\<lambda>eku.
     and_do (give (require_eku ''Issued'' eku)) (\<lambda>(server_auth, client_auth).
     if \<not> (if expect_server_auth then server_auth else client_auth \<and> \<not> server_auth)
     then give (Inl (Cert_Parse (''Issued certificate '' @ cert_path @ '' has an unexpected EKU'')))
     else and_do (cert_san_set k cert_path) (\<lambda>actual_sans.
       if actual_sans \<noteq> expected_sans
       then give (Inl (Cert_Parse (''Issued certificate '' @ cert_path @ '' SAN mismatch: expected '' @
         pk_show_set k expected_sans @ '', got '' @ pk_show_set k actual_sans)))
       else and_do (read_to_string_at key_path) (\<lambda>key_pem.
         and_do (give (rcgen_error (pk_key_of_pem k key_pem))) (\<lambda>key.
         if key \<noteq> ct_public_key cert
         then give (Inl (Cert_Parse (''Private key does not match issued certificate '' @ cert_path)))
         else give (Inr ())))))))))"

definition verify_signed_csr :: "pki \<Rightarrow> string \<Rightarrow> string \<Rightarrow> string
    \<Rightarrow> string set \<Rightarrow> unit io" where
  "verify_signed_csr k cert_path csr_path ca_path expected_sans =
     and_do (verify_signed_by k cert_path ca_path) (\<lambda>chain.
     and_do (give (chain_checked k ''Signed'' cert_path chain)) (\<lambda>_.
     and_do (read_cert k ''Certificate parse error: '' cert_path) (\<lambda>cert.
     if is_ca_cert cert
     then give (Inl (Cert_Parse (''Signed certificate '' @ cert_path @ '' must not be a CA'')))
     else and_do (give (parse_error '''' (ct_eku cert))) (\<lambda>eku.
       and_do (give (require_eku ''Signed'' eku)) (\<lambda>(server_auth, client_auth).
       if \<not> (client_auth \<and> \<not> server_auth)
       then give (Inl (Cert_Parse (''Signed certificate '' @ cert_path @ '' must have clientAuth only'')))
       else and_do (cert_san_set k cert_path) (\<lambda>actual_sans.
         if actual_sans \<noteq> expected_sans
         then give (Inl (Cert_Parse (''Signed certificate '' @ cert_path @ '' SAN mismatch: expected '' @
           pk_show_set k expected_sans @ '', got '' @ pk_show_set k actual_sans)))
         else and_do (read_to_string_at csr_path) (\<lambda>csr_pem.
           and_do (give (parse_error ''CSR parse error: '' (pk_csr_key k csr_pem))) (\<lambda>csr.
           if csr \<noteq> ct_public_key cert
           then give (Inl (Cert_Parse (''Signed certificate '' @ cert_path @ '' does not match the CSR public key'')))
           else give (Inr ())))))))))"

end
