(* ===== verification/Cert_Issue.thy ===== *)
theory Cert_Issue
  imports Certificates
begin

text \<open>
  Making certificates (\<open>certs/generate.rs\<close>): the atomic write of a file, the keys, certificates and
  requests that are written, the staging directory and the lock around a run.
\<close>

unbundle bit_operations_syntax

section \<open>Paths and places\<close>

text \<open>\<open>Path::parent\<close>, on components; \<open>Root_Dir\<close> and the empty path have none.\<close>

definition parent_of :: "component list \<Rightarrow> component list option" where
  "parent_of cs = (if cs = [] \<or> last cs = Root_Dir then None else Some (butlast cs))"

definition resolve_at :: "bool \<Rightarrow> file_system \<Rightarrow> component list \<Rightarrow> io_error + path" where
  "resolve_at fl fs cs = walk max_links (fs_nodes fs) fl (fs_cwd fs) cs"

definition exists_cs :: "file_system \<Rightarrow> component list \<Rightarrow> bool" where
  "exists_cs fs cs \<longleftrightarrow> (case node_at fs (resolve_at True fs cs) of Inl _ \<Rightarrow> False | Inr _ \<Rightarrow> True)"

definition is_dir_cs :: "file_system \<Rightarrow> component list \<Rightarrow> bool" where
  "is_dir_cs fs cs \<longleftrightarrow> (case node_at fs (resolve_at True fs cs) of Inl _ \<Rightarrow> False | Inr n \<Rightarrow> is_dir n)"

text \<open>The place that a call names when it creates, replaces or removes an entry: a link in the last
  place is not followed.\<close>

definition entry_at :: "file_system \<Rightarrow> component list \<Rightarrow> io_error + path" where
  "entry_at fs cs =
     (if cs = [] then Inl Io_Other
      else case last cs of
        Normal n \<Rightarrow> and_then (resolve_at True fs (butlast cs)) (\<lambda>d. Inr (d @ [n]))
      | _ \<Rightarrow> Inl Io_Other)"

section \<open>Missing directories\<close>

definition mkdir_cs :: "process \<Rightarrow> component list \<Rightarrow> file_system \<Rightarrow> (io_error + unit) \<times> file_system" where
  "mkdir_cs pr cs fs = (case entry_at fs cs of Inl e \<Rightarrow> (Inl e, fs) | Inr q \<Rightarrow> create_dir pr 0x1FF q fs)"

text \<open>\<open>fs::create_dir_all\<close>: the parents are made when the first attempt finds none.\<close>

function create_dir_all :: "process \<Rightarrow> component list \<Rightarrow> file_system \<Rightarrow> (io_error + unit) \<times> file_system" where
  "create_dir_all pr cs fs =
     (if cs = [] then (Inr (), fs)
      else case mkdir_cs pr cs fs of
        (Inr u, fs1) \<Rightarrow> (Inr (), fs1)
      | (Inl e, fs1) \<Rightarrow>
          if e \<noteq> Not_Found then (if is_dir_cs fs1 cs then (Inr (), fs1) else (Inl e, fs1))
          else case parent_of cs of
            None \<Rightarrow> (Inl Io_Other, fs1)
          | Some parent \<Rightarrow>
              (case create_dir_all pr parent fs1 of
                 (Inl e, fs2) \<Rightarrow> (Inl e, fs2)
               | (Inr _, fs2) \<Rightarrow>
                   (case mkdir_cs pr cs fs2 of
                      (Inr u, fs3) \<Rightarrow> (Inr (), fs3)
                    | (Inl e, fs3) \<Rightarrow> if is_dir_cs fs3 cs then (Inr (), fs3) else (Inl e, fs3))))"
  by pat_completeness auto

termination
  by (relation "measure (\<lambda>(pr, cs, fs). length cs)") (auto simp: parent_of_def split: if_splits)

section \<open>The atomic write\<close>

text \<open>A new temporary file next to the target; a name that is taken is an error here, the package
  tries other names.\<close>

definition create_temp :: "pki \<Rightarrow> process \<Rightarrow> component list \<Rightarrow> file_system \<Rightarrow> (io_error + path) \<times> file_system" where
  "create_temp k pr parent fs =
     (let (bad, fs1) = tick fs in
      if bad then (Inl Io_Fault, fs1)
      else case resolve_at True fs1 parent of
        Inl e \<Rightarrow> (Inl e, fs1)
      | Inr d \<Rightarrow>
          (let q = d @ [''.gcob-tmp-'' @ pk_suffix k (fs_calls fs1)] in
           if fs_nodes fs1 q \<noteq> None \<or> \<not> has_parent_dir fs1 q then (Inl Io_Other, fs1)
           else (Inr q, set_node q (Some \<lparr>fn_kind = Regular [], fn_mode = 0x180 AND NOT (umask pr),
               fn_uid = euid pr, fn_gid = egid pr, fn_acl = None\<rparr>) fs1)))"

definition write_all :: "bytes \<Rightarrow> path \<Rightarrow> file_system \<Rightarrow> (io_error + unit) \<times> file_system" where
  "write_all data = update_node (\<lambda>n. n\<lparr>fn_kind := Regular data\<rparr>)"

definition sync_all :: "file_system \<Rightarrow> (io_error + unit) \<times> file_system" where
  "sync_all fs = (let (bad, fs1) = tick fs in (if bad then Inl Io_Fault else Inr (), fs1))"

definition persist :: "path \<Rightarrow> component list \<Rightarrow> file_system \<Rightarrow> (io_error + unit) \<times> file_system" where
  "persist q cs fs = (case entry_at fs cs of Inl e \<Rightarrow> (Inl e, fs) | Inr target \<Rightarrow> fs_rename q target fs)"

text \<open>What is done to the temporary file, through its descriptor.\<close>

definition fill_temp :: "path \<Rightarrow> component list \<Rightarrow> bytes \<Rightarrow> u32 \<Rightarrow> (u32 \<times> u32) option \<Rightarrow> unit io" where
  "fill_temp q cs data mode owner =
     and_do (io (set_permissions mode q)) (\<lambda>_.
     and_do (case owner of None \<Rightarrow> give (Inr ()) | Some (uid, gid) \<Rightarrow> io (chown uid gid q)) (\<lambda>_.
     and_do (io (write_all data q)) (\<lambda>_.
     and_do (io sync_all) (\<lambda>_. io (persist q cs)))))"

definition write_atomic_impl :: "pki \<Rightarrow> process \<Rightarrow> string \<Rightarrow> bytes \<Rightarrow> u32 \<Rightarrow> (u32 \<times> u32) option \<Rightarrow> unit io" where
  "write_atomic_impl k pr p data mode owner =
     (case parent_of (components p) of
        None \<Rightarrow> give (Inl (other_error (''Cannot determine parent directory for '' @ p)))
      | Some parent \<Rightarrow>
          (\<lambda>fs. and_do (if exists_cs fs parent then give (Inr ()) else io (create_dir_all pr parent)) (\<lambda>_.
             and_do (io (create_temp k pr parent)) (\<lambda>q fs1.
             case fill_temp q (components p) data mode owner fs1 of
               (Inl e, fs2) \<Rightarrow> (Inl e, snd (remove_file q fs2))
             | (Inr u, fs2) \<Rightarrow> (Inr (), fs2))) fs))"

definition write_atomic :: "pki \<Rightarrow> process \<Rightarrow> string \<Rightarrow> bytes \<Rightarrow> u32 \<Rightarrow> unit io" where
  "write_atomic k pr p data mode = write_atomic_impl k pr p data mode None"

definition write_atomic_owned :: "pki \<Rightarrow> process \<Rightarrow> string \<Rightarrow> bytes \<Rightarrow> u32 \<Rightarrow> u32 \<times> u32 \<Rightarrow> unit io" where
  "write_atomic_owned k pr p data mode owner = write_atomic_impl k pr p data mode (Some owner)"

section \<open>Certificates and requests\<close>

definition CLIENT_CERT_VALIDITY_DAYS :: int where "CLIENT_CERT_VALIDITY_DAYS = 365"
definition SERVER_CERT_VALIDITY_DAYS :: int where "SERVER_CERT_VALIDITY_DAYS = 365"

definition validity_window :: "pki \<Rightarrow> int \<Rightarrow> int \<times> int" where
  "validity_window k days = (pk_now k - 3600, pk_now k + days * 86400)"

text \<open>What the three kinds of certificates set alike.\<close>

definition leaf_params :: "pki \<Rightarrow> string \<Rightarrow> key_purpose \<Rightarrow> int \<Rightarrow> cert_params \<Rightarrow> cert_params" where
  "leaf_params k hostname purpose days params =
     params\<lparr>pa_subject := [(Common_Name, hostname)], pa_purposes := [purpose],
       pa_usages := [Digital_Signature], pa_is_ca := Explicit_No_Ca,
       pa_not_before := fst (validity_window k days), pa_not_after := snd (validity_window k days)\<rparr>"

text \<open>\<open>KeyPair::generate\<close>\<close>

definition generate_key :: "pki \<Rightarrow> key_pair io" where
  "generate_key k = (\<lambda>fs. (rcgen_error (pk_generate k (fs_calls fs)), fs))"

definition generate_client_cert :: "pki \<Rightarrow> process \<Rightarrow> string \<times> string \<Rightarrow> string \<Rightarrow> string \<Rightarrow> unit io" where
  "generate_client_cert k pr issuer hostname dir =
     and_do (generate_key k) (\<lambda>client_key.
     and_do (give (rcgen_error (pk_params k [hostname]))) (\<lambda>params.
     and_do (give (rcgen_error (pk_sign k (leaf_params k hostname Client_Auth CLIENT_CERT_VALIDITY_DAYS params)
         (kp_public client_key) issuer))) (\<lambda>cert.
     and_do (write_atomic k pr (path_join dir ''client.pem'') (bytes_of_string cert) 0x1A4) (\<lambda>_.
       write_atomic k pr (path_join dir ''client-key.pem'') (bytes_of_string (kp_pem client_key)) 0x180))))"

definition add_ip :: "ip_addr \<Rightarrow> cert_params \<Rightarrow> cert_params" where
  "add_ip ip params =
     (if San_Ip ip \<in> set (pa_names params) then params
      else params\<lparr>pa_names := pa_names params @ [San_Ip ip]\<rparr>)"

definition parsed_ip :: "string \<Rightarrow> cert_error + ip_addr" where
  "parsed_ip ip = (case parse_ip ip of None \<Rightarrow> Inl (Invalid_Ip ip) | Some a \<Rightarrow> Inr a)"

definition generate_server_cert :: "pki \<Rightarrow> process \<Rightarrow> string \<times> string \<Rightarrow> string \<Rightarrow> string \<Rightarrow> string \<Rightarrow> unit io" where
  "generate_server_cert k pr issuer hostname ip dir =
     and_do (generate_key k) (\<lambda>server_key.
     and_do (give (parsed_ip ip)) (\<lambda>ip_addr.
     and_do (give (rcgen_error (pk_params k [hostname]))) (\<lambda>params.
     and_do (give (rcgen_error (pk_sign k
         (leaf_params k hostname Server_Auth SERVER_CERT_VALIDITY_DAYS (add_ip ip_addr params))
         (kp_public server_key) issuer))) (\<lambda>cert.
     and_do (write_atomic k pr (path_join dir ''server.pem'') (bytes_of_string cert) 0x1A4) (\<lambda>_.
       write_atomic k pr (path_join dir ''server-key.pem'') (bytes_of_string (kp_pem server_key)) 0x180)))))"

definition concat_cert_key :: "pki \<Rightarrow> process \<Rightarrow> string \<Rightarrow> string \<Rightarrow> string \<Rightarrow> unit io" where
  "concat_cert_key k pr cert_path key_path output_path =
     and_do (read_to_string_at cert_path) (\<lambda>cert.
     and_do (read_to_string_at key_path) (\<lambda>key.
       write_atomic k pr output_path (bytes_of_string (cert @ key)) 0x180))"

definition generate_csr :: "pki \<Rightarrow> process \<Rightarrow> string \<Rightarrow> string option \<Rightarrow> string \<Rightarrow> unit io" where
  "generate_csr k pr hostname ip dir =
     and_do (generate_key k) (\<lambda>client_key.
     and_do (give (case ip of None \<Rightarrow> Inr [hostname]
       | Some i \<Rightarrow> and_then (parsed_ip i) (\<lambda>_. Inr [hostname, i]))) (\<lambda>san_names.
     and_do (give (rcgen_error (pk_params k san_names))) (\<lambda>params.
     and_do (give (rcgen_error (pk_request k (params\<lparr>pa_subject := [(Common_Name, hostname)],
         pa_purposes := pa_purposes params @ [Client_Auth]\<rparr>) client_key))) (\<lambda>csr.
     and_do (give (rcgen_error (pk_request_pem k csr))) (\<lambda>csr_pem.
     and_do (write_atomic k pr (path_join dir ''client.csr'') (bytes_of_string csr_pem) 0x1A4) (\<lambda>_.
       write_atomic k pr (path_join dir ''client-key.pem'') (bytes_of_string (kp_pem client_key)) 0x180))))))"

definition sign_csr :: "pki \<Rightarrow> process \<Rightarrow> string \<Rightarrow> string \<Rightarrow> string \<times> string \<Rightarrow> string \<Rightarrow> unit io" where
  "sign_csr k pr csr_path hostname issuer dir =
     and_do (read_to_string_at csr_path) (\<lambda>csr_pem.
     and_do (give (parse_error ''CSR parse error: '' (pk_csr_key k csr_pem))) (\<lambda>csr_key.
     and_do (give (rcgen_error (pk_params k [hostname]))) (\<lambda>params.
     and_do (give (parse_error ''CSR sign error: ''
         (pk_sign k (leaf_params k hostname Client_Auth CLIENT_CERT_VALIDITY_DAYS params) csr_key issuer))) (\<lambda>cert.
       write_atomic k pr (path_join dir ''client.pem'') (bytes_of_string cert) 0x1A4))))"

text \<open>\<open>fs::copy\<close>: the copy gets the mode of the source.\<close>

definition fs_copy :: "process \<Rightarrow> string \<Rightarrow> string \<Rightarrow> file_system \<Rightarrow> (io_error + unit) \<times> file_system" where
  "fs_copy pr src dst fs =
     (let (bad, fs1) = tick fs in
      if bad then (Inl Io_Fault, fs1)
      else case stat fs1 src of
        Inl e \<Rightarrow> (Inl e, fs1)
      | Inr n \<Rightarrow>
          if \<not> is_file n then (Inl Io_Other, fs1)
          else case resolve True fs1 dst of
            Inr q \<Rightarrow> (case fs_nodes fs1 q of
                None \<Rightarrow> (Inl Not_Found, fs1)
              | Some old \<Rightarrow>
                  if is_file old
                  then (Inr (), set_node q (Some (old\<lparr>fn_kind := fn_kind n, fn_mode := fn_mode n\<rparr>)) fs1)
                  else (Inl Io_Other, fs1))
          | Inl Not_Found \<Rightarrow>
              (case entry_at fs1 (components dst) of
                 Inl e \<Rightarrow> (Inl e, fs1)
               | Inr q \<Rightarrow>
                   if fs_nodes fs1 q \<noteq> None \<or> \<not> has_parent_dir fs1 q then (Inl Io_Other, fs1)
                   else (Inr (), set_node q (Some \<lparr>fn_kind = fn_kind n, fn_mode = fn_mode n,
                       fn_uid = euid pr, fn_gid = egid pr, fn_acl = None\<rparr>) fs1))
          | Inl e \<Rightarrow> (Inl e, fs1))"

section \<open>The staging directory and the lock\<close>

definition create_stage :: "pki \<Rightarrow> process \<Rightarrow> string \<Rightarrow> (path \<times> string) io" where
  "create_stage k pr dir = (\<lambda>fs.
     let name = ''.gcob-stage-'' @ pk_suffix k (fs_calls fs)
     in case resolve True fs dir of
          Inl e \<Rightarrow> (Inl (Cert_Io e), fs)
        | Inr d \<Rightarrow> and_do (io (create_dir pr (pk_dir_mode k) (d @ [name])))
            (\<lambda>_. give (Inr (d @ [name], path_join dir name))) fs)"

text \<open>\<open>TempDir\<close> removes its tree when it is dropped, and ignores an error; a fault leaves all of it here.\<close>

definition remove_dir_all :: "path \<Rightarrow> file_system \<Rightarrow> file_system" where
  "remove_dir_all q fs =
     (let (bad, fs1) = tick fs in
      if bad then fs1 else fs1\<lparr>fs_nodes := (\<lambda>p. if prefix q p then None else fs_nodes fs1 p)\<rparr>)"

definition with_stage :: "pki \<Rightarrow> process \<Rightarrow> string \<Rightarrow> (string \<Rightarrow> 'a io) \<Rightarrow> 'a io" where
  "with_stage k pr dir body = and_do (create_stage k pr dir) (\<lambda>(q, stage) fs.
     case body stage fs of (r, fs1) \<Rightarrow> (r, remove_dir_all q fs1))"

definition with_lock :: "process \<Rightarrow> string \<Rightarrow> 'a io \<Rightarrow> 'a io" where
  "with_lock pr dir body = and_do (lock_dir pr dir) (\<lambda>q fs. case body fs of (r, fs1) \<Rightarrow> (r, unlock q fs1))"

end
