(* ===== verification/Cert_Commands.thy ===== *)
theory Cert_Commands
  imports Cert_Issue Atomic_Publish Host_Identity
begin

text \<open>
  The runs that publish certificates: \<open>sign_csr_file\<close> and \<open>renew_certificates\<close> of \<open>cli/certs.rs\<close>,
  \<open>provision_server\<close> of \<open>cli/provision.rs\<close>, and \<open>run\<close> of \<open>client_init.rs\<close>. Each stages in the
  directory it publishes to, under its lock, and publishes with \<open>publish_files\<close>.
\<close>

unbundle bit_operations_syntax

section \<open>What the runs share\<close>

text \<open>The place a path of plain names spells; a directory that was made secure holds no link, so its
  files are at such places.\<close>

definition place :: "string \<Rightarrow> path" where
  "place p = path_names (components p)"

record published_file =
  pf_path :: path
  pf_mode :: u32
  pf_fingerprint :: "string option"

definition published :: "planned_file list \<Rightarrow> published_file list" where
  "published plan = map (\<lambda>f. \<lparr>pf_path = pl_target f, pf_mode = pl_mode f, pf_fingerprint = pl_fingerprint f\<rparr>) plan"

text \<open>The seconds since the epoch, 0 before it.\<close>

definition epoch_stamp :: "pki \<Rightarrow> u64" where
  "epoch_stamp k = of_int (max 0 (pk_now k))"

text \<open>\<open>apply_owner_mode\<close> of every planned file: they are regular files of the stage.\<close>

definition apply_owner_mode :: "path \<Rightarrow> u32 \<Rightarrow> u32 \<times> u32 \<Rightarrow> unit io" where
  "apply_owner_mode q mode owner =
     and_do (io (set_permissions mode q)) (\<lambda>_. io (chown (fst owner) (snd owner) q))"

fun own_all :: "planned_file list \<Rightarrow> unit io" where
  "own_all [] = give (Inr ())"
| "own_all (file # plan) =
     and_do (apply_owner_mode (pl_staged file) (pl_mode file) (pl_owner file)) (\<lambda>_. own_all plan)"

definition plan_file :: "string \<Rightarrow> string \<Rightarrow> u32 \<Rightarrow> u32 \<times> u32 \<Rightarrow> string option \<Rightarrow> planned_file" where
  "plan_file staged target mode owner fingerprint =
     \<lparr>pl_staged = place staged, pl_target = place target, pl_mode = mode, pl_owner = owner,
      pl_fingerprint = fingerprint\<rparr>"

definition publish_unless :: "pki \<Rightarrow> bool \<Rightarrow> planned_file list \<Rightarrow> unit io" where
  "publish_unless k dry_run plan =
     (if dry_run then give (Inr ())
      else and_do (io (publish_files (epoch_stamp k) plan)) (\<lambda>_. give (Inr ())))"

text \<open>\<open>allowed_owners\<close> with the administrator, when there is one.\<close>

definition with_admin :: "host \<Rightarrow> u32 list \<Rightarrow> u32 list" where
  "with_admin h owners = (case detect_admin_account h of Inr a \<Rightarrow> owners @ [aa_uid a] | Inl _ \<Rightarrow> owners)"

section \<open>Signing a request\<close>

definition MAX_CSR_BYTES :: u64 where
  "MAX_CSR_BYTES = push_bit 20 1"

record sign_request =
  sr_csr :: string
  sr_hostname :: string
  sr_cln_dir :: string
  sr_output :: string
  sr_force :: bool
  sr_dry_run :: bool
  sr_expected_ca_fingerprint :: "string option"
  sr_owner_override :: "(u32 \<times> u32) option"

record sign_summary =
  ss_ca_fingerprint :: string
  ss_cert_fingerprint :: string
  ss_path :: string
  ss_dry_run :: bool

definition check_csr_file :: "string \<Rightarrow> unit io" where
  "check_csr_file csr = (\<lambda>fs. and_do (give (looked (lstat fs csr))) (\<lambda>meta.
     give (if is_symlink meta then Inl (Cert_Parse (''Refusing to follow symlinked CSR: '' @ csr))
       else if \<not> is_file meta then Inl (Cert_Parse (''CSR is not a regular file: '' @ csr))
       else if MAX_CSR_BYTES < of_nat (length (content meta))
       then Inl (Cert_Parse (''CSR '' @ csr @ '' exceeds the '' @ fmt_word MAX_CSR_BYTES @ '' byte limit''))
       else Inr ())) fs)"

definition check_pin :: "string option \<Rightarrow> validated_ca \<Rightarrow> cert_error + unit" where
  "check_pin expected validated = (case expected of
     None \<Rightarrow> Inr ()
   | Some e \<Rightarrow> if eq_ignore_ascii_case (vc_fingerprint validated) (trim e) then Inr ()
       else Inl (Cert_Parse (''CA fingerprint mismatch: found '' @ vc_fingerprint validated @ '', expected '' @ e)))"

definition sign_staged :: "pki \<Rightarrow> process \<Rightarrow> sign_request \<Rightarrow> validated_ca \<Rightarrow> u32 \<times> u32 \<Rightarrow> string \<Rightarrow> string \<Rightarrow> sign_summary io" where
  "sign_staged k pr req validated owner target stage =
     (let staged = path_join stage ''client.pem''; staged_ca = path_join stage ''ca.pem''
      in and_do (sign_csr k pr (sr_csr req) (sr_hostname req) (vc_issuer validated) stage) (\<lambda>_.
         and_do (write_atomic_owned k pr staged_ca (bytes_of_string (vc_ca_pem validated)) 0x1A4 owner) (\<lambda>_.
         and_do (verify_signed_csr k staged (sr_csr req) staged_ca {san_token (sr_hostname req)}) (\<lambda>_.
         and_do (cert_fingerprint k staged) (\<lambda>fp.
         let plan = [plan_file staged target 0x1A4 owner (Some fp)]
         in and_do (own_all plan) (\<lambda>_.
            and_do (publish_unless k (sr_dry_run req) plan) (\<lambda>_.
            give (Inr \<lparr>ss_ca_fingerprint = vc_fingerprint validated, ss_cert_fingerprint = fp,
              ss_path = target, ss_dry_run = sr_dry_run req\<rparr>))))))))"

definition sign_csr_file :: "pki \<Rightarrow> host \<Rightarrow> sign_request \<Rightarrow> sign_summary io" where
  "sign_csr_file k h req =
     and_do (give (validate_hostname (sr_hostname req) False)) (\<lambda>_.
     and_do (check_csr_file (sr_csr req)) (\<lambda>_.
     and_do (load_validated_ca k (cln_source_paths_new (sr_cln_dir req))) (\<lambda>validated.
     and_do (give (check_pin (sr_expected_ca_fingerprint req) validated)) (\<lambda>_.
     and_do (give (current_account h)) (\<lambda>me.
     let owner = (case sr_owner_override req of Some w \<Rightarrow> w | None \<Rightarrow> (aa_uid me, aa_gid me));
         target = path_join (sr_output req) ''client.pem''
     in and_do (ensure_secure_dir (proc h) (sr_output req) 0x1C0 owner (with_admin h [0, fst owner])) (\<lambda>_ fs.
        if exists_at fs target \<and> \<not> sr_force req
        then (Inl (other_error (target @ '' already exists; pass --force to overwrite it'')), fs)
        else with_lock (proc h) (sr_output req)
          (with_stage k (proc h) (sr_output req) (sign_staged k (proc h) req validated owner target)) fs))))))"

section \<open>Renewing\<close>

record renew_request =
  rq_cln_dir :: string
  rq_cert_dir :: string
  rq_hostname :: "string option"
  rq_ip :: "string option"
  rq_init_ca :: bool
  rq_rotate_ca :: bool
  rq_api_user :: string
  rq_allow_loopback :: bool
  rq_dry_run :: bool
  rq_owner_override :: "(u32 \<times> u32) option"

record renew_summary =
  rs_ca_fingerprint :: string
  rs_identity :: "string \<times> string"
  rs_files :: "published_file list"
  rs_dry_run :: bool

text \<open>The names of the installed certificate; an error is the same as none.\<close>

definition existing_identity :: "pki \<Rightarrow> string \<Rightarrow> (string option \<times> string option) io" where
  "existing_identity k existing = (\<lambda>fs.
     if exists_at fs existing
     then (case san_identities k existing fs of
         (Inl _, fs1) \<Rightarrow> (Inr (None, None), fs1)
       | (Inr i, fs1) \<Rightarrow> (Inr i, fs1))
     else (Inr (None, None), fs))"

definition or_missing :: "string \<Rightarrow> 'a option \<Rightarrow> cert_error + 'a" where
  "or_missing text a = (case a of None \<Rightarrow> Inl (Missing_Source text) | Some x \<Rightarrow> Inr x)"

definition renew_identity :: "pki \<Rightarrow> renew_request \<Rightarrow> (string \<times> string) io" where
  "renew_identity k req =
     and_do (existing_identity k (path_join (rq_cert_dir req) ''server.pem'')) (\<lambda>(existing_dns, existing_ip).
     and_do (give (or_missing ''cannot determine the server hostname; pass --server-hostname <HOST>''
       (or_else (rq_hostname req) existing_dns))) (\<lambda>hostname.
     and_do (give (or_missing ''cannot determine the server IP; pass --server-ip <IP>''
       (or_else (rq_ip req) existing_ip))) (\<lambda>ip.
     and_do (give (validate_hostname hostname (rq_allow_loopback req))) (\<lambda>_.
     and_do (give (validate_unicast_ip ip (rq_allow_loopback req))) (\<lambda>_.
     give (Inr (hostname, ip)))))))"

text \<open>Whether the authority is installed with the run.\<close>

definition pin_installed :: "pki \<Rightarrow> renew_request \<Rightarrow> validated_ca \<Rightarrow> string \<Rightarrow> bool io" where
  "pin_installed k req validated installed_ca = (\<lambda>fs.
     if exists_at fs installed_ca
     then and_do (cert_fingerprint k installed_ca) (\<lambda>fp.
       give (if fp \<noteq> vc_fingerprint validated
         then (if \<not> rq_rotate_ca req
               then Inl (Cert_Parse (''Installed CA '' @ installed_ca @ '' has a different fingerprint ('' @ fp @
                 ''); pass --rotate-ca to replace it''))
               else Inr True)
         else Inr False)) fs
     else if \<not> rq_init_ca req
     then (Inl (Missing_Source (installed_ca @ '' does not exist; pass --init-ca to install the validated CLN CA'')), fs)
     else (Inr True, fs))"

definition renew_plan :: "renew_request \<Rightarrow> validated_ca \<Rightarrow> u32 \<times> u32 \<Rightarrow> bool \<Rightarrow> string \<Rightarrow> string \<Rightarrow> string
    \<Rightarrow> planned_file list" where
  "renew_plan req validated owner install_ca stage server_fp client_fp =
     (let staged = path_join stage; target = path_join (rq_cert_dir req)
      in [plan_file (staged ''server.pem'') (target ''server.pem'') 0x1A4 owner (Some server_fp),
          plan_file (staged ''server-key.pem'') (target ''server-key.pem'') 0x180 owner None,
          plan_file (staged ''client.pem'') (target ''client.pem'') 0x1A4 owner (Some client_fp),
          plan_file (staged ''client-key.pem'') (target ''client-key.pem'') 0x180 owner None] @
         (if install_ca
          then [plan_file (staged ''ca.pem'') (target ''ca.pem'') 0x1A4 owner (Some (vc_fingerprint validated))] else []))"

definition renew_staged :: "pki \<Rightarrow> process \<Rightarrow> renew_request \<Rightarrow> validated_ca \<Rightarrow> u32 \<times> u32 \<Rightarrow> string \<times> string
    \<Rightarrow> bool \<Rightarrow> string \<Rightarrow> renew_summary io" where
  "renew_staged k pr req validated owner identity install_ca stage =
     (let (hostname, ip) = identity; issuer = vc_issuer validated;
          staged = path_join stage;
          staged_ca = staged ''ca.pem''; client_sans = {san_token hostname};
          server_sans = {san_token hostname, san_token ip}
      in and_do (generate_server_cert k pr issuer hostname ip stage) (\<lambda>_.
         and_do (generate_client_cert k pr issuer hostname stage) (\<lambda>_.
         and_do (write_atomic_owned k pr staged_ca (bytes_of_string (vc_ca_pem validated)) 0x1A4 owner) (\<lambda>_.
         and_do (verify_issued_cert k (staged ''server.pem'') (staged ''server-key.pem'') staged_ca server_sans True) (\<lambda>_.
         and_do (verify_issued_cert k (staged ''client.pem'') (staged ''client-key.pem'') staged_ca client_sans False) (\<lambda>_.
         and_do (cert_fingerprint k (staged ''server.pem'')) (\<lambda>server_fp.
         and_do (cert_fingerprint k (staged ''client.pem'')) (\<lambda>client_fp.
         let plan = renew_plan req validated owner install_ca stage server_fp client_fp
         in and_do (own_all plan) (\<lambda>_.
            and_do (publish_unless k (rq_dry_run req) plan) (\<lambda>_.
            give (Inr \<lparr>rs_ca_fingerprint = vc_fingerprint validated, rs_identity = (hostname, ip),
              rs_files = published plan, rs_dry_run = rq_dry_run req\<rparr>)))))))))))"

definition renew_certificates :: "pki \<Rightarrow> host \<Rightarrow> renew_request \<Rightarrow> renew_summary io" where
  "renew_certificates k h req =
     and_do (give (account_by_name h (rq_api_user req))) (\<lambda>api.
     and_do (load_validated_ca k (cln_source_paths_new (rq_cln_dir req))) (\<lambda>validated.
     and_do (renew_identity k req) (\<lambda>identity.
     let pr = proc h; dir = rq_cert_dir req;
         owner = (case rq_owner_override req of Some w \<Rightarrow> w | None \<Rightarrow> (aa_uid api, aa_gid api))
     in and_do (ensure_secure_dir pr dir 0x1C0 owner (with_admin h [0, euid pr, fst owner])) (\<lambda>_.
        and_do (pin_installed k req validated (path_join dir ''ca.pem'')) (\<lambda>install_ca.
        with_lock pr dir (with_stage k pr dir (renew_staged k pr req validated owner identity install_ca)))))))"

section \<open>Provisioning a server\<close>

record init_server_request =
  is_cln_dir :: string
  is_hostname :: string
  is_ip :: string
  is_haproxy_cert_dir :: string
  is_api_certs_dir :: string
  is_haproxy_user :: string
  is_api_user :: string
  is_force :: bool
  is_rotate_ca :: bool
  is_dry_run :: bool
  is_haproxy_owner :: "(u32 \<times> u32) option"
  is_api_owner :: "(u32 \<times> u32) option"

record provision_summary =
  ps_ca_fingerprint :: string
  ps_files :: "published_file list"

definition build_summary :: "string \<Rightarrow> planned_file list \<Rightarrow> provision_summary" where
  "build_summary ca_fingerprint plan = \<lparr>ps_ca_fingerprint = ca_fingerprint, ps_files = published plan\<rparr>"

fun pin_existing :: "pki \<Rightarrow> init_server_request \<Rightarrow> validated_ca \<Rightarrow> string list \<Rightarrow> unit io" where
  "pin_existing k req validated [] = give (Inr ())"
| "pin_existing k req validated (existing_ca # cas) = (\<lambda>fs.
     if exists_at fs existing_ca
     then and_do (cert_fingerprint k existing_ca) (\<lambda>fp.
       if fp \<noteq> vc_fingerprint validated \<and> \<not> is_rotate_ca req
       then give (Inl (Cert_Parse (''Existing CA '' @ existing_ca @ '' has a different fingerprint ('' @ fp @
         ''); pass --rotate-ca to replace it'')))
       else pin_existing k req validated cas) fs
     else pin_existing k req validated cas fs)"

definition summary_text :: "init_server_request \<Rightarrow> validated_ca \<Rightarrow> planned_file list \<Rightarrow> string" where
  "summary_text req validated plan =
     ''=== gcob init ==='' @ nl @ ''  Hostname:       '' @ is_hostname req @ nl @
     ''  IP:             '' @ is_ip req @ nl @ ''  CA fingerprint: '' @ vc_fingerprint validated @ nl @
     concat (map (\<lambda>f. ''  '' @ show_path (pl_target f) @ '' (mode '' @ fmt_mode (pl_mode f) @ '')'' @ nl) plan)"

text \<open>The preparation of both stages up to the verification.\<close>

definition provision_stage :: "pki \<Rightarrow> process \<Rightarrow> init_server_request \<Rightarrow> validated_ca \<Rightarrow> u32 \<times> u32 \<Rightarrow> u32 \<times> u32
    \<Rightarrow> string \<Rightarrow> string \<Rightarrow> unit io" where
  "provision_stage k pr req validated haproxy_owner api_owner haproxy_stage api_stage =
     (let hs = path_join haproxy_stage; as = path_join api_stage; issuer = vc_issuer validated;
          hostname = is_hostname req; ip = is_ip req; ca = bytes_of_string (vc_ca_pem validated);
          server_sans = {san_token hostname, san_token ip}; client_sans = {san_token hostname}
      in and_do (generate_server_cert k pr issuer hostname ip haproxy_stage) (\<lambda>_.
         and_do (generate_client_cert k pr issuer hostname haproxy_stage) (\<lambda>_.
         and_do (generate_client_cert k pr issuer hostname api_stage) (\<lambda>_.
         and_do (concat_cert_key k pr (hs ''server.pem'') (hs ''server-key.pem'') (hs ''server_concat.pem'')) (\<lambda>_.
         and_do (concat_cert_key k pr (hs ''client.pem'') (hs ''client-key.pem'') (hs ''client_concat.pem'')) (\<lambda>_.
         and_do (write_atomic_owned k pr (hs ''ca.pem'') ca 0x1A4 haproxy_owner) (\<lambda>_.
         and_do (write_atomic_owned k pr (as ''ca.pem'') ca 0x1A4 api_owner) (\<lambda>_.
         and_do (io (fs_copy pr (hs ''server.pem'') (as ''server.pem''))) (\<lambda>_.
         and_do (io (fs_copy pr (hs ''server-key.pem'') (as ''server-key.pem''))) (\<lambda>_.
         and_do (verify_issued_cert k (hs ''server.pem'') (hs ''server-key.pem'') (hs ''ca.pem'') server_sans True) (\<lambda>_.
         and_do (verify_issued_cert k (hs ''client.pem'') (hs ''client-key.pem'') (hs ''ca.pem'') client_sans False) (\<lambda>_.
         verify_issued_cert k (as ''client.pem'') (as ''client-key.pem'') (as ''ca.pem'') client_sans False))))))))))))"

definition provision_plan :: "pki \<Rightarrow> init_server_request \<Rightarrow> validated_ca \<Rightarrow> u32 \<times> u32 \<Rightarrow> u32 \<times> u32
    \<Rightarrow> string \<Rightarrow> string \<Rightarrow> planned_file list io" where
  "provision_plan k req validated haproxy_owner api_owner haproxy_stage api_stage =
     (let hs = path_join haproxy_stage; as = path_join api_stage; fp = Some (vc_fingerprint validated);
          paths = server_paths_new (is_haproxy_cert_dir req); target = path_join (is_api_certs_dir req)
      in and_do (cert_fingerprint k (hs ''server.pem'')) (\<lambda>server_fp.
         and_do (cert_fingerprint k (hs ''client.pem'')) (\<lambda>client_fp.
         and_do (cert_fingerprint k (hs ''server.pem'')) (\<lambda>api_server_fp.
         and_do (cert_fingerprint k (as ''client.pem'')) (\<lambda>api_client_fp.
         give (Inr
           [plan_file (hs ''ca.pem'') (sp_ca_file paths) 0x1A4 haproxy_owner fp,
            plan_file (hs ''server_concat.pem'') (sp_server_concat_file paths) 0x1A0 haproxy_owner (Some server_fp),
            plan_file (hs ''client_concat.pem'') (sp_client_concat_file paths) 0x1A0 haproxy_owner (Some client_fp),
            plan_file (as ''ca.pem'') (target ''ca.pem'') 0x1A4 api_owner fp,
            plan_file (as ''server.pem'') (target ''server.pem'') 0x1A4 api_owner (Some api_server_fp),
            plan_file (as ''server-key.pem'') (target ''server-key.pem'') 0x180 api_owner None,
            plan_file (as ''client.pem'') (target ''client.pem'') 0x1A4 api_owner (Some api_client_fp),
            plan_file (as ''client-key.pem'') (target ''client-key.pem'') 0x180 api_owner None]))))))"

definition provision_publish :: "pki \<Rightarrow> (string \<Rightarrow> bool) \<Rightarrow> init_server_request \<Rightarrow> validated_ca
    \<Rightarrow> planned_file list \<Rightarrow> provision_summary io" where
  "provision_publish k confirm req validated plan =
     (let summary = build_summary (vc_fingerprint validated) plan
      in and_do (own_all plan) (\<lambda>_ fs.
         case (if is_force req then None else find (\<lambda>f. path_exists fs (pl_target f)) plan) of
           Some existing \<Rightarrow> (Inl (other_error (''Target already exists: '' @ show_path (pl_target existing) @
             '' (pass --force to overwrite)'')), fs)
         | None \<Rightarrow>
             if is_dry_run req then (Inr summary, fs)
             else if \<not> confirm (summary_text req validated plan) then (Inl (other_error ''Aborted by user''), fs)
             else and_do (io (publish_files (epoch_stamp k) plan)) (\<lambda>_. give (Inr summary)) fs))"

definition provision_staged :: "pki \<Rightarrow> process \<Rightarrow> (string \<Rightarrow> bool) \<Rightarrow> init_server_request \<Rightarrow> validated_ca
    \<Rightarrow> u32 \<times> u32 \<Rightarrow> u32 \<times> u32 \<Rightarrow> string \<Rightarrow> string \<Rightarrow> provision_summary io" where
  "provision_staged k pr confirm req validated haproxy_owner api_owner haproxy_stage api_stage =
     and_do (provision_stage k pr req validated haproxy_owner api_owner haproxy_stage api_stage) (\<lambda>_.
     and_do (provision_plan k req validated haproxy_owner api_owner haproxy_stage api_stage) (\<lambda>plan.
     provision_publish k confirm req validated plan))"

definition provision_server :: "pki \<Rightarrow> host \<Rightarrow> (string \<Rightarrow> bool) \<Rightarrow> init_server_request \<Rightarrow> provision_summary io" where
  "provision_server k h confirm req =
     and_do (give (account_by_name h (is_haproxy_user req))) (\<lambda>haproxy.
     and_do (give (account_by_name h (is_api_user req))) (\<lambda>api.
     let pr = proc h;
         haproxy_owner = (case is_haproxy_owner req of Some w \<Rightarrow> w | None \<Rightarrow> (0, aa_gid haproxy));
         api_owner = (case is_api_owner req of Some w \<Rightarrow> w | None \<Rightarrow> (aa_uid api, aa_gid api));
         paths = server_paths_new (is_haproxy_cert_dir req); api_dir = is_api_certs_dir req
     in and_do (load_validated_ca k (cln_source_paths_new (is_cln_dir req))) (\<lambda>validated.
        and_do (ensure_secure_dir pr (sp_haproxy_cert_dir paths) 0x1E8 haproxy_owner [0, euid pr, fst haproxy_owner]) (\<lambda>_.
        and_do (ensure_secure_dir pr (sp_haproxy_ca_dir paths) 0x1E8 haproxy_owner [0, euid pr, fst haproxy_owner]) (\<lambda>_.
        and_do (ensure_secure_dir pr api_dir 0x1C0 api_owner (with_admin h [0, euid pr, fst api_owner])) (\<lambda>_.
        and_do (pin_existing k req validated [sp_ca_file paths, path_join api_dir ''ca.pem'']) (\<lambda>_.
        with_lock pr (sp_haproxy_cert_dir paths)
          (with_stage k pr (sp_haproxy_cert_dir paths) (\<lambda>haproxy_stage.
           with_stage k pr api_dir (\<lambda>api_stage.
           provision_staged k pr confirm req validated haproxy_owner api_owner haproxy_stage api_stage))))))))))"

section \<open>Requests of clients\<close>

record client_init_plan =
  ip_hostname :: string
  ip_ip :: "string option"
  ip_cert_dir :: string
  ip_uses_default_dir :: bool

definition client_plan :: "host \<Rightarrow> cert_error + string \<Rightarrow> cert_error + string \<Rightarrow> string option \<Rightarrow> string option
    \<Rightarrow> string option \<Rightarrow> cert_error + client_init_plan" where
  "client_plan h detected_hostname detected_ip hostname ip output =
     and_then (resolve_identity h detected_hostname detected_ip hostname ip ''CLIENT_HOSTNAME'' ''CLIENT_IP''
       ''localhost'' ''127.0.0.1'' False) (\<lambda>identity.
     and_then (case output of Some dir \<Rightarrow> Inr (dir, False)
       | None \<Rightarrow> and_then (client_paths_default h) (\<lambda>p. Inr (cp_cert_dir p, True))) (\<lambda>(cert_dir, uses_default_dir).
     Inr \<lparr>ip_hostname = ri_hostname identity, ip_ip = ri_ip identity, ip_cert_dir = cert_dir,
       ip_uses_default_dir = uses_default_dir\<rparr>))"

definition client_generate :: "pki \<Rightarrow> host \<Rightarrow> client_init_plan \<Rightarrow> bool \<Rightarrow> admin_account io" where
  "client_generate k h plan force = (\<lambda>fs.
     let dir = ip_cert_dir plan; csr_path = path_join dir ''client.csr''
     in if exists_at fs csr_path \<and> \<not> force
        then (Inl (other_error (''CSR already exists at '' @ csr_path @ '' (pass --force to regenerate)'')), fs)
        else and_do (give (detect_admin_account h)) (\<lambda>account.
          and_do (ensure_secure_dir (proc h) dir 0x1C0 (aa_uid account, aa_gid account) [0, aa_uid account]) (\<lambda>_.
          and_do (generate_csr k (proc h) (ip_hostname plan) (ip_ip plan) dir) (\<lambda>_.
          and_do (io (update_at (set_permissions 0x100) (path_join dir ''client-key.pem''))) (\<lambda>_.
          and_do (io (update_at (set_permissions 0x124) csr_path)) (\<lambda>_. give (Inr account)))))) fs)"

text \<open>\<open>None\<close> when the fuel of the change of owners does not suffice.\<close>

definition client_run :: "nat \<Rightarrow> pki \<Rightarrow> host \<Rightarrow> (string \<Rightarrow> string \<Rightarrow> string \<Rightarrow> unit io) \<Rightarrow> client_init_plan
    \<Rightarrow> bool \<Rightarrow> bool \<Rightarrow> file_system \<Rightarrow> ((cert_error + unit) \<times> file_system) option" where
  "client_run fuel k h setfacl plan force with_gcob_acls fs =
     (case client_generate k h plan force fs of
        (Inl e, fs1) \<Rightarrow> Some (Inl e, fs1)
      | (Inr account, fs1) \<Rightarrow>
          (case chown_recursive fuel (place (ip_cert_dir plan)) (aa_uid account) (aa_gid account) fs1 of
             None \<Rightarrow> None
           | Some (Inl e, fs2) \<Rightarrow> Some (Inl (Cert_Io e), fs2)
           | Some (Inr _, fs2) \<Rightarrow>
               if with_gcob_acls then Some (setup_gcob_acls h setfacl fs2) else Some (Inr (), fs2)))"

section \<open>Operations that no command uses\<close>

definition copy_file :: "process \<Rightarrow> string \<Rightarrow> string \<Rightarrow> unit io" where
  "copy_file pr src dst = (case parent_of (components dst) of
     None \<Rightarrow> io (fs_copy pr src dst)
   | Some parent \<Rightarrow> and_do (io (create_dir_all pr parent)) (\<lambda>_. io (fs_copy pr src dst)))"

definition set_file_permissions :: "string \<Rightarrow> u32 \<Rightarrow> unit io" where
  "set_file_permissions p mode = io (update_at (set_permissions mode) p)"

text \<open>\<open>ensure_cert_dir\<close>; the new directory has no links below it, and \<open>None\<close> stands for too little fuel.\<close>

definition ensure_cert_dir :: "nat \<Rightarrow> host \<Rightarrow> (string \<Rightarrow> string \<Rightarrow> string \<Rightarrow> unit io) \<Rightarrow> file_system
    \<Rightarrow> ((cert_error + unit) \<times> file_system) option" where
  "ensure_cert_dir fuel h setfacl fs =
     (case detect_admin_account h of
        Inl e \<Rightarrow> Some (Inl e, fs)
      | Inr account \<Rightarrow>
          (let cert_dir = path_join (aa_home account) ''.certs'' in
           if exists_at fs cert_dir then Some (setup_gcob_acls h setfacl fs)
           else case and_do (io (create_dir_all (proc h) (components cert_dir)))
                  (\<lambda>_. io (update_at (set_permissions 0x1C0) cert_dir)) fs of
             (Inl e, fs1) \<Rightarrow> Some (Inl e, fs1)
           | (Inr _, fs1) \<Rightarrow>
               (case resolve False fs1 cert_dir of
                  Inl e \<Rightarrow> Some (Inl (Cert_Io e), fs1)
                | Inr q \<Rightarrow>
                    (case chown_recursive fuel q (aa_uid account) (aa_gid account) fs1 of
                       None \<Rightarrow> None
                     | Some (Inl e, fs2) \<Rightarrow> Some (Inl (Cert_Io e), fs2)
                     | Some (Inr _, fs2) \<Rightarrow> Some (setup_gcob_acls h setfacl fs2)))))"

end
