(* ===== verification/Cert_Frame.thy ===== *)
theory Cert_Frame
  imports Cert_Commands
begin

text \<open>
  What the calls of a run can change: paths of plain names, operations that only look, operations
  confined to staging directories, and publications that succeed whatever the system does.
\<close>

unbundle bit_operations_syntax

section \<open>Paths of plain names\<close>

definition plain_name :: "string \<Rightarrow> bool" where
  "plain_name n \<longleftrightarrow> n \<noteq> [] \<and> CHR ''/'' \<notin> set n \<and> n \<noteq> ''.'' \<and> n \<noteq> ''..''"

lemma split_char_plain: "CHR ''/'' \<notin> set n \<Longrightarrow> split_char (CHR ''/'') n = [n]"
  by (induction n) auto

lemma split_char_append: "split_char c (xs @ c # ys) = split_char c xs @ split_char c ys"
  by (induction xs) (auto split: list.split)

lemma starts_with_slash: "starts_with ''/'' s \<longleftrightarrow> s \<noteq> [] \<and> hd s = CHR ''/''"
  by (cases s) (auto simp: starts_with_def)

text \<open>A literal path: the root and plain names, in the directory \<open>q\<close>.\<close>

definition literal :: "string \<Rightarrow> path \<Rightarrow> bool" where
  "literal p q \<longleftrightarrow> components p = Root_Dir # map Normal q"

lemma place_literal: "literal p q \<Longrightarrow> place p = q"
  by (simp add: literal_def place_def)

lemma literal_absolute: "literal p q \<Longrightarrow> is_absolute p"
proof (rule ccontr)
  assume l: "literal p q" and a: "\<not> is_absolute p"
  have "Root_Dir \<notin> set (map component_of xs)" for xs using component_of_not_root by (metis imageE list.set_map)
  then have "Root_Dir \<notin> set (components p)"
    using a by (auto simp: components_def is_absolute_def Let_def)
  with l show False by (simp add: literal_def)
qed

lemma literal_join:
  assumes "literal p q" and "plain_name n"
  shows "literal (path_join p n) (q @ [n])"
proof -
  have s: "starts_with ''/'' p" using literal_absolute [OF assms(1)] by (simp add: is_absolute_def)
  then have ne: "p \<noteq> []" "hd p = CHR ''/''" by (auto simp: starts_with_slash)
  have n: "\<not> starts_with ''/'' n" "component_of n = Normal n" "split_char (CHR ''/'') n = [n]" "n \<noteq> []"
    using assms(2) split_char_plain [of n] by (cases n; auto simp: plain_name_def starts_with_slash component_of_def)+
  have c: "components x = Root_Dir # filter (\<lambda>c. c \<noteq> Cur_Dir) (map component_of (filter (\<lambda>p. p \<noteq> []) (split_char (CHR ''/'') x)))"
    if "starts_with ''/'' x" for x using that by (simp add: components_def Let_def)
  have h: "starts_with ''/'' (p @ x)" for x using ne by (simp add: starts_with_slash)
  show ?thesis
  proof (cases "ends_with ''/'' p")
    case True
    then obtain p' where p: "p = p' @ ''/''" by (metis ends_with_def append_take_drop_id)
    then have j: "path_join p n = p' @ CHR ''/'' # n" "path_join p n = p @ n" using n True by (simp_all add: path_join_def)
    have "components (path_join p n) = components p @ [Normal n]"
      using s h [of n] c [of p] c [of "p @ n"] j(2) n by (simp add: p split_char_append)
    with assms(1) show ?thesis by (simp add: literal_def)
  next
    case False
    then have j: "path_join p n = p @ CHR ''/'' # n" using n ne by (simp add: path_join_def)
    have "components (path_join p n) = components p @ [Normal n]"
      using s h [of "CHR ''/'' # n"] c [of p] c [of "p @ CHR ''/'' # n"] j n by (simp add: split_char_append)
    with assms(1) show ?thesis by (simp add: literal_def)
  qed
qed

section \<open>Operations that only look\<close>

definition steady :: "file_system \<Rightarrow> file_system \<Rightarrow> bool" where
  "steady fs fs' \<longleftrightarrow> fs_cwd fs' = fs_cwd fs \<and> fs_faults fs' = fs_faults fs"

definition quiet :: "(file_system \<Rightarrow> 'r \<times> file_system) \<Rightarrow> bool" where
  "quiet m \<longleftrightarrow> (\<forall>fs. fs_nodes (snd (m fs)) = fs_nodes fs \<and> steady fs (snd (m fs)))"

named_theorems quiet_rules

lemma steady_refl [simp]: "steady fs fs"
  by (simp add: steady_def)

lemma steady_trans: "steady a b \<Longrightarrow> steady b c \<Longrightarrow> steady a c"
  by (simp add: steady_def)

lemma steady_fields [simp]: "steady fs (fs\<lparr>fs_calls := c\<rparr>)" "steady fs (set_node p n fs)"
  "steady fs (fs\<lparr>fs_calls := c, fs_nodes := N\<rparr>)" "steady fs (fs\<lparr>fs_nodes := N\<rparr>)" "steady fs (unlock q fs)"
  by (simp_all add: steady_def set_node_def unlock_def)

lemma quiet_give [quiet_rules]: "quiet (give r)"
  by (simp add: quiet_def give_def)

lemma quiet_and_do [quiet_rules]: "quiet m \<Longrightarrow> (\<And>a. quiet (f a)) \<Longrightarrow> quiet (and_do m f)"
  unfolding quiet_def and_do_def
proof
  fix fs
  assume m: "\<forall>fs. fs_nodes (snd (m fs)) = fs_nodes fs \<and> steady fs (snd (m fs))"
    and f: "\<And>a. \<forall>fs. fs_nodes (snd (f a fs)) = fs_nodes fs \<and> steady fs (snd (f a fs))"
  obtain r fs1 where 1: "m fs = (r, fs1)" by force
  with m [rule_format, of fs] f [rule_format, of _ fs1] steady_trans [of fs fs1]
  show "fs_nodes (snd (case m fs of (Inl e, fs1) \<Rightarrow> (Inl e, fs1) | (Inr a, fs1) \<Rightarrow> f a fs1)) = fs_nodes fs \<and>
    steady fs (snd (case m fs of (Inl e, fs1) \<Rightarrow> (Inl e, fs1) | (Inr a, fs1) \<Rightarrow> f a fs1))"
    by (cases r) simp_all
qed

lemma snd_io [simp]: "snd (io m fs) = snd (m fs)"
  by (simp add: io_def split: prod.split sum.split)

lemma quiet_io [quiet_rules]: "quiet m \<Longrightarrow> quiet (io m)"
  by (simp add: quiet_def)

lemma quiet_split [quiet_rules]:
  "(\<And>a b. quiet (f a b)) \<Longrightarrow> quiet (case x of (a, b) \<Rightarrow> f a b)"
  "quiet f1 \<Longrightarrow> quiet f2 \<Longrightarrow> quiet (if c then f1 else f2)"
  by (cases x; simp) simp

lemma quiet_tick: "quiet tick"
  by (simp add: quiet_def tick_def)

lemma quiet_reads [quiet_rules]: "quiet (read_to_end n)" "quiet (open_nofollow p)" "quiet (generate_key k)"
  by (simp_all add: quiet_def read_to_end_def open_nofollow_def generate_key_def tick_def Let_def)

lemma quiet_read_at [quiet_rules]: "quiet (read_at p)"
  unfolding quiet_def
proof
  fix fs
  show "fs_nodes (snd (read_at p fs)) = fs_nodes fs \<and> steady fs (snd (read_at p fs))"
    using quiet_reads(1) [unfolded quiet_def] by (auto simp: read_at_def split: sum.split)
qed

lemma quiet_certs [quiet_rules]: "quiet (read_to_string_at p)" "quiet (read_cert k pre p)"
  unfolding read_to_string_at_def read_cert_def by (intro quiet_rules)+

lemma quiet_inspect [quiet_rules]: "quiet (verify_signed_by k c ca)" "quiet (cert_san_set k p)"
  "quiet (cert_fingerprint k p)" "quiet (san_identities k p)"
  unfolding verify_signed_by_def cert_san_set_def cert_fingerprint_def san_identities_def by (intro quiet_rules)+

lemma quiet_verify [quiet_rules]: "quiet (verify_issued_cert k c key ca sans sv)" "quiet (verify_signed_csr k c csr ca sans)"
  unfolding verify_issued_cert_def verify_signed_csr_def by (intro quiet_rules)+

text \<open>Operations whose first step looks at the tree they start in.\<close>

lemma quiet_local [quiet_rules]:
  "(\<And>a. quiet (m a)) \<Longrightarrow> quiet (\<lambda>fs. and_do (give (r fs)) m fs)"
  "quiet f \<Longrightarrow> quiet g \<Longrightarrow> quiet (\<lambda>fs. if c fs then f fs else g fs)"
  "quiet (\<lambda>fs. (q fs, fs))"
  by (auto simp: quiet_def and_do_def give_def split: sum.split)

lemma quiet_load_validated_ca [quiet_rules]: "quiet (load_validated_ca k source)"
  unfolding load_validated_ca_def by (intro quiet_rules)

lemma quiet_check_csr_file [quiet_rules]: "quiet (check_csr_file csr)"
  unfolding check_csr_file_def by (intro quiet_rules)

lemma quiet_pin_installed [quiet_rules]: "quiet (pin_installed k req validated p)"
  unfolding pin_installed_def by (intro quiet_rules)

lemma quiet_pin_existing [quiet_rules]: "quiet (pin_existing k req validated cas)"
  by (induction cas) (auto intro!: quiet_rules)

lemma quiet_identity [quiet_rules]: "quiet (renew_identity k req)"
proof -
  have "quiet (existing_identity k p)" for p
    using quiet_inspect(4) [of k p]
    by (auto simp: quiet_def existing_identity_def split: prod.split sum.split) (metis snd_conv)+
  then show ?thesis unfolding renew_identity_def by (intro quiet_rules)
qed

section \<open>Operations confined to directories\<close>

definition within :: "path set \<Rightarrow> path \<Rightarrow> bool" where
  "within SS p \<longleftrightarrow> (\<exists>S \<in> SS. strict_prefix S p)"

definition apart :: "path set \<Rightarrow> bool" where
  "apart SS \<longleftrightarrow> (\<forall>S \<in> SS. S \<noteq> [] \<and> (\<forall>T \<in> SS. \<not> strict_prefix T S))"

text \<open>Only regular files in the directories.\<close>

definition tidy :: "path set \<Rightarrow> nodes \<Rightarrow> bool" where
  "tidy SS N \<longleftrightarrow> (\<forall>p n. within SS p \<and> N p = Some n \<longrightarrow> is_file n)"

definition staged_at :: "path set \<Rightarrow> file_system \<Rightarrow> bool" where
  "staged_at SS fs \<longleftrightarrow> (\<forall>S \<in> SS. real_dirs (fs_nodes fs) [] S) \<and> tidy SS (fs_nodes fs)"

definition outside :: "path set \<Rightarrow> file_system \<Rightarrow> file_system \<Rightarrow> bool" where
  "outside SS fs fs' \<longleftrightarrow> (\<forall>p. \<not> within SS p \<longrightarrow> fs_nodes fs' p = fs_nodes fs p) \<and> steady fs fs' \<and>
     (tidy SS (fs_nodes fs) \<longrightarrow> tidy SS (fs_nodes fs'))"

definition confined :: "path set \<Rightarrow> (file_system \<Rightarrow> 'r \<times> file_system) \<Rightarrow> bool" where
  "confined SS m \<longleftrightarrow> (apart SS \<longrightarrow> (\<forall>fs. staged_at SS fs \<longrightarrow> outside SS fs (snd (m fs))))"

named_theorems confined_rules

lemma outside_refl [simp]: "outside SS fs fs"
  by (simp add: outside_def)

lemma outside_trans: "outside SS a b \<Longrightarrow> outside SS b c \<Longrightarrow> outside SS a c"
  unfolding outside_def by (auto intro: steady_trans)

lemma staged_outside:
  assumes "apart SS" and "staged_at SS fs" and "outside SS fs fs'"
  shows "staged_at SS fs'"
  unfolding staged_at_def real_dirs_def
proof (intro conjI ballI allI impI)
  show "tidy SS (fs_nodes fs')" using assms(2,3) by (simp add: staged_at_def outside_def)
next
  fix S r assume S: "S \<in> SS" and r: "r \<noteq> [] \<and> prefix r S"
  have "\<not> within SS r" using assms(1) S r unfolding within_def apart_def
    by (metis prefix_order.less_le_trans)
  then have "fs_nodes fs' r = fs_nodes fs r" using assms(3) by (simp add: outside_def)
  with assms(2) S r show "\<exists>n. fs_nodes fs' ([] @ r) = Some n \<and> is_dir n" by (simp add: staged_at_def real_dirs_def)
qed

lemma confinedD: "confined SS m \<Longrightarrow> apart SS \<Longrightarrow> staged_at SS fs \<Longrightarrow> m fs = (r, fs') \<Longrightarrow> outside SS fs fs' \<and> staged_at SS fs'"
  using staged_outside unfolding confined_def by (metis snd_conv)

lemma quiet_outside: "quiet m \<Longrightarrow> outside SS fs (snd (m fs))"
  by (simp add: quiet_def outside_def)

lemma confined_quiet: "quiet m \<Longrightarrow> confined SS m"
  by (simp add: confined_def quiet_outside)

lemmas confined_looks [confined_rules] =
  quiet_give [THEN confined_quiet] quiet_reads [THEN confined_quiet] quiet_certs [THEN confined_quiet]
  quiet_inspect [THEN confined_quiet] quiet_verify [THEN confined_quiet]

lemma confined_and_do [confined_rules]:
  assumes "confined SS m" and "\<And>a. confined SS (f a)"
  shows "confined SS (and_do m f)"
  unfolding confined_def
proof (intro impI allI)
  fix fs assume a: "apart SS" "staged_at SS fs"
  obtain r fs1 where 1: "m fs = (r, fs1)" by force
  have 2: "outside SS fs fs1" "staged_at SS fs1" using confinedD [OF assms(1) a 1] by auto
  show "outside SS fs (snd (and_do m f fs))"
  proof (cases r)
    case (Inr x)
    have "outside SS fs1 (snd (f x fs1))" using assms(2) [of x] a(1) 2(2) by (simp add: confined_def)
    with 1 2(1) Inr show ?thesis by (auto simp: and_do_def intro: outside_trans)
  qed (use 1 2 in \<open>simp add: and_do_def\<close>)
qed

lemma confined_io [confined_rules]: "confined SS m \<Longrightarrow> confined SS (io m)"
  by (simp add: confined_def)

lemma confined_split [confined_rules]:
  "(\<And>a b. confined SS (f a b)) \<Longrightarrow> confined SS (case x of (a, b) \<Rightarrow> f a b)"
  by (cases x) simp

lemma within_extend: "within SS a \<Longrightarrow> prefix a p \<Longrightarrow> within SS p"
  unfolding within_def by (meson prefix_order.less_le_trans)

lemma within_child: "S \<in> SS \<Longrightarrow> within SS (S @ [n])"
  unfolding within_def by (auto simp: strict_prefix_def)

lemma outside_set:
  "within SS q \<Longrightarrow> (\<And>n. x = Some n \<Longrightarrow> is_file n) \<Longrightarrow> outside SS fs fs1 \<Longrightarrow> outside SS fs (set_node q x fs1)"
  by (auto simp: outside_def set_node_def steady_def tidy_def)

lemma outside_calls [simp]: "outside SS fs (fs\<lparr>fs_calls := c\<rparr>)"
  by (simp add: outside_def)

lemma confined_update:
  assumes "within SS q" and "\<And>n. is_file n \<Longrightarrow> is_file (f n)"
  shows "confined SS (update_node f q)"
  unfolding confined_def
proof (intro impI allI)
  fix fs assume "apart SS" "staged_at SS fs"
  then have "is_file n" if "fs_nodes fs q = Some n" for n using that assms(1) by (auto simp: staged_at_def tidy_def)
  with assms(2) show "outside SS fs (snd (update_node f q fs))"
    by (auto simp: update_node_def tick_def Let_def intro!: outside_set [OF assms(1)] split: option.split)
qed

lemma confined_rename:
  assumes "within SS a" and "within SS b"
  shows "confined SS (fs_rename a b)"
  unfolding confined_def
proof (intro impI allI)
  fix fs assume "apart SS" "staged_at SS fs"
  then have n: "is_file n" if "fs_nodes fs a = Some n" for n using that assms(1) by (auto simp: staged_at_def tidy_def)
  let ?fs1 = "fs\<lparr>fs_calls := Suc (fs_calls fs)\<rparr>"
  have w: "within SS (a @ p)" for p using within_extend [OF assms(1)] by simp
  then have "tidy SS (fs_nodes (move_tree a b ?fs1))" if "tidy SS (fs_nodes fs)"
    using that unfolding tidy_def move_tree_def by (auto split: if_splits)
  then have t: "outside SS fs (move_tree a b ?fs1)"
    using assms within_extend by (auto simp: outside_def move_tree_def steady_def)
  have s: "outside SS fs (set_node a None (set_node b (Some n) ?fs1))" if "fs_nodes fs a = Some n" for n
    by (intro outside_set assms) (auto simp: n [OF that])
  show "outside SS fs (snd (fs_rename a b fs))" unfolding fs_rename_def tick_def Let_def
    by (auto simp: s t split: option.split)
qed

lemma confined_remove:
  assumes "within SS q"
  shows "confined SS (remove_file q)"
  by (auto simp: confined_def remove_file_def tick_def Let_def intro!: outside_set [OF assms] split: option.split)

end
