(* ===== verification/Cert_Staging.thy ===== *)
theory Cert_Staging
  imports Cert_Frame
begin

text \<open>
  The writes of \<open>certs/generate.rs\<close> into a staging directory: they are confined to it, a successful
  write leaves exactly its file, and the checks of what was issued speak of the staged contents.
\<close>

unbundle bit_operations_syntax

section \<open>Writes\<close>

lemma literal_parent: "literal p (S @ [n]) \<Longrightarrow> parent_of (components p) = Some (Root_Dir # map Normal S)"
  by (simp add: literal_def parent_of_def butlast_append)

lemma resolve_real_at: "real_dirs (fs_nodes fs) [] S \<Longrightarrow> resolve_at fl fs (Root_Dir # map Normal S) = Inr S"
  using walk_real_dirs [of "fs_nodes fs" "[]" S max_links fl "[]"] by (simp add: resolve_at_def)

lemma entry_literal:
  assumes "literal p (S @ [n])" and "real_dirs (fs_nodes fs) [] S"
  shows "entry_at fs (components p) = Inr (S @ [n])"
  using assms resolve_real_at [OF assms(2)] by (simp add: literal_def entry_at_def butlast_append)

lemma exists_real: "real_dirs (fs_nodes fs) [] S \<Longrightarrow> S \<noteq> [] \<Longrightarrow> exists_cs fs (Root_Dir # map Normal S)"
  using real_dirs_def [of "fs_nodes fs" "[]" S] by (auto simp: exists_cs_def resolve_real_at node_at_def split: option.split)

definition new_file :: "process \<Rightarrow> fs_node" where
  "new_file pr = \<lparr>fn_kind = Regular [], fn_mode = 0x180 AND NOT (umask pr), fn_uid = euid pr, fn_gid = egid pr, fn_acl = None\<rparr>"

lemma create_temp_real:
  assumes "real_dirs (fs_nodes fs) [] S" and "create_temp k pr (Root_Dir # map Normal S) fs = (r, fs')"
  shows "steady fs fs' \<and> (case r of Inl e \<Rightarrow> fs_nodes fs' = fs_nodes fs
    | Inr q \<Rightarrow> \<exists>n. q = S @ [n] \<and> fs_nodes fs q = None \<and> fs_nodes fs' = (fs_nodes fs)(q \<mapsto> new_file pr))"
proof -
  have "resolve_at True (fs\<lparr>fs_calls := c\<rparr>) (Root_Dir # map Normal S) = Inr S" for c
    using resolve_real_at [of "fs\<lparr>fs_calls := c\<rparr>" S] assms(1) by simp
  with assms(2) show ?thesis
    by (auto simp: create_temp_def tick_def Let_def set_node_def new_file_def steady_def split: if_splits)
qed

lemma confined_persist:
  assumes "S \<in> SS" and "within SS q" and "literal p (S @ [n])"
  shows "confined SS (persist q (components p))"
  unfolding confined_def
proof (intro impI allI)
  fix fs assume a: "apart SS" "staged_at SS fs"
  then have "entry_at fs (components p) = Inr (S @ [n])"
    using entry_literal [OF assms(3)] assms(1) by (simp add: staged_at_def)
  with confined_rename [OF assms(2) within_child [OF assms(1)], of n] a
  show "outside SS fs (snd (persist q (components p) fs))" by (simp add: persist_def confined_def)
qed

lemma quiet_sync [quiet_rules]: "quiet sync_all"
  by (simp add: quiet_def sync_all_def tick_def Let_def)

lemma confined_fill:
  assumes "S \<in> SS" and "within SS q" and "literal p (S @ [n])"
  shows "confined SS (fill_temp q (components p) data mode owner)"
proof -
  have u: "confined SS (set_permissions m q)" "confined SS (chown uid gid q)" "confined SS (write_all data q)" for m uid gid
    unfolding set_permissions_def chown_def write_all_def
    by (rule confined_update [OF assms(2)]; simp add: is_file_def)+
  have o: "confined SS (case owner of None \<Rightarrow> give (Inr ()) | Some (uid, gid) \<Rightarrow> io (chown uid gid q))"
    using u(2) by (auto intro!: confined_rules split: option.split)
  show ?thesis
    unfolding fill_temp_def
    by (intro confined_and_do confined_io u o confined_quiet [OF quiet_sync] confined_persist [OF assms])
qed

lemma confined_write:
  assumes "S \<in> SS" and "literal dir S" and "plain_name n"
  shows "confined SS (write_atomic_impl k pr (path_join dir n) data mode owner)"
  unfolding confined_def
proof (intro impI allI)
  fix fs assume a: "apart SS" "staged_at SS fs"
  have l: "literal (path_join dir n) (S @ [n])" using literal_join assms(2,3) .
  have d: "real_dirs (fs_nodes fs) [] S" "S \<noteq> []" using a assms(1) by (auto simp: staged_at_def apart_def)
  let ?cs = "components (path_join dir n)"
  obtain r fs1 where t: "create_temp k pr (Root_Dir # map Normal S) fs = (r, fs1)" by force
  note c = create_temp_real [OF d(1) t]
  have w: "write_atomic_impl k pr (path_join dir n) data mode owner fs =
      (case r of Inl e \<Rightarrow> (Inl (Cert_Io e), fs1)
       | Inr q \<Rightarrow> (case fill_temp q ?cs data mode owner fs1 of
          (Inl e, fs2) \<Rightarrow> (Inl e, snd (remove_file q fs2)) | (Inr u, fs2) \<Rightarrow> (Inr (), fs2)))"
    using exists_real [OF d] t
    by (auto simp: write_atomic_impl_def literal_parent [OF l] and_do_def give_def io_def split: sum.split)
  show "outside SS fs (snd (write_atomic_impl k pr (path_join dir n) data mode owner fs))"
  proof (cases r)
    case (Inl e)
    with c w show ?thesis by (simp add: outside_def)
  next
    case (Inr q)
    with c obtain m where q: "q = S @ [m]" "fs_nodes fs1 = (fs_nodes fs)(q \<mapsto> new_file pr)" by auto
    have wq: "within SS q" "is_file (new_file pr)" using within_child [OF assms(1)] q(1) by (simp_all add: new_file_def is_file_def)
    have o1: "outside SS fs fs1" using c Inr q wq by (auto simp: outside_def tidy_def)
    obtain r2 fs2 where f: "fill_temp q ?cs data mode owner fs1 = (r2, fs2)" by force
    from confinedD [OF confined_fill [OF assms(1) wq(1) l] a(1) staged_outside [OF a o1] f]
    have o2: "outside SS fs1 fs2" "staged_at SS fs2" by auto
    have "outside SS fs2 (snd (remove_file q fs2))" using confined_remove [OF wq(1)] a(1) o2(2) by (simp add: confined_def)
    with o1 o2(1) show ?thesis by (cases r2) (auto simp: w Inr f intro: outside_trans)
  qed
qed

lemma confined_writes:
  assumes "S \<in> SS" and "literal dir S" and "plain_name n"
  shows "confined SS (write_atomic k pr (path_join dir n) data mode)"
    and "confined SS (write_atomic_owned k pr (path_join dir n) data mode w)"
  unfolding write_atomic_def write_atomic_owned_def by (rule confined_write [OF assms])+

text \<open>A successful write leaves exactly its file.\<close>

definition written :: "u32 \<Rightarrow> u32 \<Rightarrow> u32 \<Rightarrow> bytes \<Rightarrow> fs_node" where
  "written mode uid gid data = \<lparr>fn_kind = Regular data, fn_mode = mode, fn_uid = uid, fn_gid = gid, fn_acl = None\<rparr>"

lemma rename_file_Inr:
  assumes "fs_rename a b fs = (Inr u, fs')" and "fs_nodes fs a = Some n" and "\<not> is_dir n"
  shows "fs_nodes fs' = (fs_nodes fs)(a := None, b := Some n)"
  using assms
  by (auto simp: fs_rename_def tick_def Let_def set_node_def fun_eq_iff split: if_splits option.splits)

lemma write_atomic_Inr:
  assumes "literal dir S" and "plain_name n" and "real_dirs (fs_nodes fs) [] S" and "S \<noteq> []"
    and "write_atomic_impl k pr (path_join dir n) data mode owner fs = (Inr (), fs')"
  shows "fs_nodes fs' = (fs_nodes fs)(S @ [n] \<mapsto>
      written mode (case owner of None \<Rightarrow> euid pr | Some w \<Rightarrow> fst w) (case owner of None \<Rightarrow> egid pr | Some w \<Rightarrow> snd w) data)"
proof -
  have l: "literal (path_join dir n) (S @ [n])" using literal_join assms(1,2) .
  from assms(5) obtain q fs1 where t: "create_temp k pr (Root_Dir # map Normal S) fs = (Inr q, fs1)"
    and f: "fill_temp q (components (path_join dir n)) data mode owner fs1 = (Inr (), fs')"
    using exists_real [OF assms(3,4)]
    by (auto simp: write_atomic_impl_def literal_parent [OF l] and_do_def give_def io_def split: prod.splits sum.splits)
  from create_temp_real [OF assms(3) t] obtain m where q: "q = S @ [m]" "fs_nodes fs q = None"
    "fs_nodes fs1 = (fs_nodes fs)(q \<mapsto> new_file pr)" by auto
  from f obtain fs2 fs3 fs4 fs5 where 1: "set_permissions mode q fs1 = (Inr (), fs2)"
    and 2: "(case owner of None \<Rightarrow> give (Inr ()) | Some (uid, gid) \<Rightarrow> io (chown uid gid q)) fs2 = (Inr (), fs3)"
    and 3: "write_all data q fs3 = (Inr (), fs4)" and 4: "sync_all fs4 = (Inr (), fs5)"
    and 5: "persist q (components (path_join dir n)) fs5 = (Inr (), fs')"
    by (auto simp: fill_temp_def io_simps)
  let ?n = "written mode (case owner of None \<Rightarrow> euid pr | Some w \<Rightarrow> fst w) (case owner of None \<Rightarrow> egid pr | Some w \<Rightarrow> snd w) data"
  from update_node_Inr [OF 1 [unfolded set_permissions_def]] q(3)
  have n2: "fs_nodes fs2 = (fs_nodes fs)(q \<mapsto> (new_file pr)\<lparr>fn_mode := mode\<rparr>)" by auto
  have n3: "fs_nodes fs3 = (fs_nodes fs)(q \<mapsto> ?n\<lparr>fn_kind := Regular []\<rparr>)"
  proof (cases owner)
    case None
    with 2 n2 show ?thesis by (simp add: io_simps new_file_def written_def)
  next
    case (Some w)
    with 2 have "update_node (\<lambda>n. n\<lparr>fn_uid := fst w, fn_gid := snd w\<rparr>) q fs2 = (Inr (), fs3)"
      by (simp add: io_simps chown_def split: prod.splits)
    from update_node_Inr [OF this] n2 Some show ?thesis by (auto simp: new_file_def written_def)
  qed
  from update_node_Inr [OF 3 [unfolded write_all_def]] n3
  have "fs_nodes fs4 = (fs_nodes fs)(q \<mapsto> ?n)" by (auto simp: written_def)
  with 4 have n5: "fs_nodes fs5 = (fs_nodes fs)(q \<mapsto> ?n)" by (auto simp: sync_all_def tick_def Let_def split: if_splits)
  have "strict_prefix r q" if "prefix r S" for r using that q(1) by (auto simp: strict_prefix_def prefix_def)
  then have "real_dirs (fs_nodes fs5) [] S" using assms(3) unfolding n5 real_dirs_def by (auto simp: strict_prefix_def)
  from 5 entry_literal [OF l this] have "fs_rename q (S @ [n]) fs5 = (Inr (), fs')" by (simp add: persist_def)
  from rename_file_Inr [OF this, of ?n] n5 q(2) show ?thesis by (auto simp: is_dir_def written_def)
qed

section \<open>Certificates and copies in a stage\<close>

lemma plain_names [simp]:
  "plain_name ''client.pem''" "plain_name ''client-key.pem''" "plain_name ''server.pem''" "plain_name ''server-key.pem''"
  "plain_name ''ca.pem''" "plain_name ''server_concat.pem''" "plain_name ''client_concat.pem''"
  "plain_name ''cert_server_concat.pem''" "plain_name ''cert_client_concat.pem''" "plain_name ''ca-certs''"
  "plain_name ''client.csr''"
  by (simp_all add: plain_name_def)

lemma confined_generate:
  assumes "S \<in> SS" and "literal dir S"
  shows "confined SS (generate_client_cert k pr issuer hostname dir)"
    and "confined SS (generate_server_cert k pr issuer hostname ip dir)"
    and "confined SS (sign_csr k pr csr hostname issuer dir)"
    and "plain_name n \<Longrightarrow> confined SS (concat_cert_key k pr c key (path_join dir n))"
  unfolding generate_client_cert_def generate_server_cert_def sign_csr_def concat_cert_key_def
  by (intro confined_rules confined_writes(1) [OF assms] plain_names | assumption)+

lemma stat_literal:
  assumes "literal p (S @ [n])" and "real_dirs (fs_nodes fs) [] S" and "fs_nodes fs (S @ [n]) = Some x" and "\<not> is_symlink x"
  shows "resolve fl fs p = Inr (S @ [n])" and "stat fs p = Inr x"
proof -
  show r: "resolve fl fs p = Inr (S @ [n])" for fl
    using assms walk_real_dirs [OF assms(2), of max_links fl "[Normal n]"]
    by (auto simp: literal_def resolve_def is_symlink_def split: file_kind.splits)
  show "stat fs p = Inr x" by (simp add: stat_def node_at_def r assms(3))
qed

lemma resolve_missing:
  assumes "literal p (S @ [n])" and "real_dirs (fs_nodes fs) [] S" and "fs_nodes fs (S @ [n]) = None"
  shows "resolve fl fs p = Inl Not_Found"
  using assms walk_real_dirs [OF assms(2), of max_links fl "[Normal n]"] by (simp add: literal_def resolve_def)

lemma confined_copy:
  assumes "S \<in> SS" and "literal dir S" and "plain_name n"
  shows "confined SS (fs_copy pr src (path_join dir n))"
  unfolding confined_def
proof (intro impI allI)
  fix fs assume a: "apart SS" "staged_at SS fs"
  let ?p = "path_join dir n" and ?fs1 = "fs\<lparr>fs_calls := Suc (fs_calls fs)\<rparr>" and ?q = "S @ [n]"
  have l: "literal ?p ?q" using literal_join assms(2,3) .
  have d: "real_dirs (fs_nodes ?fs1) [] S" using a assms(1) by (simp add: staged_at_def)
  have w: "within SS ?q" using within_child assms(1) .
  have s: "outside SS fs (set_node ?q (Some x) ?fs1)" if "is_file x" for x
    by (rule outside_set [OF w]) (use that in auto)
  have e: "entry_at ?fs1 (components ?p) = Inr ?q" using entry_literal [OF l d] .
  show "outside SS fs (snd (fs_copy pr src ?p fs))"
  proof (cases "fs_nodes fs ?q")
    case None
    then have "resolve True ?fs1 ?p = Inl Not_Found" using resolve_missing [OF l d] by simp
    then show ?thesis using e None s
      by (auto simp: fs_copy_def tick_def Let_def is_file_def is_symlink_def split: sum.split file_kind.splits)
  next
    case (Some x)
    then have "is_file x" using a(2) w by (auto simp: staged_at_def tidy_def)
    then have "\<not> is_symlink x" by (auto simp: is_file_def is_symlink_def split: file_kind.splits)
    with Some have "resolve True ?fs1 ?p = Inr ?q" using stat_literal(1) [OF l d, of x] by simp
    then show ?thesis using Some s
      by (auto simp: fs_copy_def tick_def Let_def is_file_def is_symlink_def split: sum.split file_kind.splits)
  qed
qed

section \<open>What a stage holds\<close>

text \<open>The file with the name \<open>n\<close> has the content \<open>b\<close>.\<close>

definition holds :: "path \<Rightarrow> file_system \<Rightarrow> string \<Rightarrow> bytes \<Rightarrow> bool" where
  "holds S fs n b \<longleftrightarrow> (\<exists>x. fs_nodes fs (S @ [n]) = Some x \<and> fn_kind x = Regular b)"

lemma read_at_holds:
  assumes "literal dir S" and "plain_name n" and "real_dirs (fs_nodes fs) [] S" and "holds S fs n b"
    and "read_at (path_join dir n) fs = (Inr b', fs')"
  shows "b' = b"
proof -
  from assms(4) obtain x where x: "fs_nodes fs (S @ [n]) = Some x" "fn_kind x = Regular b" by (auto simp: holds_def)
  then have "stat fs (path_join dir n) = Inr x"
    using stat_literal(2) [OF literal_join [OF assms(1,2)] assms(3)] by (simp add: is_symlink_def)
  with assms(5) x show ?thesis
    by (auto simp: read_at_def is_file_def io_Inr read_to_end_def tick_def content_def Let_def split: if_splits)
qed

text \<open>Bytes that are well-formed text come back.\<close>

lemma bytes_of_string_of_bytes [simp]: "bytes_of_string (string_of_bytes b) = b"
proof -
  have "of_nat (of_char (char_of (unat w) :: char)) = (w :: u8)" for w :: u8
    using unsigned_less [of w, where 'a = nat] by simp
  then show ?thesis by (simp add: bytes_of_string_def string_of_bytes_def comp_def)
qed

lemma quietD: "quiet m \<Longrightarrow> m fs = (r, fs') \<Longrightarrow> fs_nodes fs' = fs_nodes fs \<and> steady fs fs'"
  unfolding quiet_def by (metis snd_conv)

section \<open>Certificates that were judged\<close>

text \<open>The text \<open>b\<close> is a certificate that the authority in \<open>cab\<close> signed and that is valid now.\<close>

definition signed_leaf :: "pki \<Rightarrow> bytes \<Rightarrow> bytes \<Rightarrow> certificate \<Rightarrow> bool" where
  "signed_leaf k cab b cert \<longleftrightarrow> pk_parse k b = Inr cert \<and>
     (\<exists>ca. pk_parse k cab = Inr ca \<and> is_ca_cert ca \<and> ct_issuer cert = ct_subject ca \<and> pk_verify k cert ca) \<and>
     ct_not_before cert \<le> pk_now k \<and> pk_now k \<le> ct_not_after cert"

definition exact_names :: "certificate \<Rightarrow> string set \<Rightarrow> bool" where
  "exact_names cert sans \<longleftrightarrow> (\<exists>ns. ct_sans cert = Inr ns \<and> tokens_of ns = sans)"

lemma parse_error_Inr: "parse_error pre r = Inr a \<longleftrightarrow> r = Inr a"
  by (cases r) (auto simp: parse_error_def)

lemma rcgen_error_Inr: "rcgen_error r = Inr a \<longleftrightarrow> r = Inr a"
  by (cases r) (auto simp: rcgen_error_def)

lemmas result_simps = parse_error_Inr rcgen_error_Inr

lemma chain_checked_Inr:
  assumes "chain_checked k what p (chain_of k cert ca) = Inr ()"
  shows "is_ca_cert ca \<and> ct_issuer cert = ct_subject ca \<and> pk_verify k cert ca \<and>
    ct_not_before cert \<le> pk_now k \<and> pk_now k \<le> ct_not_after cert"
  using assms by (auto simp: chain_checked_def chain_of_def Let_def not_less split: if_splits)

text \<open>The reads of a staged file.\<close>

lemma holds_cong: "fs_nodes fs' = fs_nodes fs \<Longrightarrow> holds S fs' n b = holds S fs n b"
  by (simp add: holds_def)

lemma read_cert_holds:
  assumes "literal dir S" "plain_name n" "real_dirs (fs_nodes fs) [] S" "holds S fs n b"
    and "read_cert k pre (path_join dir n) fs = (Inr cert, fs')"
  shows "pk_parse k b = Inr cert \<and> fs_nodes fs' = fs_nodes fs"
proof -
  from assms(5) obtain b' where b: "read_at (path_join dir n) fs = (Inr b', fs')" "pk_parse k b' = Inr cert"
    by (auto simp: read_cert_def io_simps result_simps)
  with read_at_holds [OF assms(1-4)] quietD [OF quiet_read_at b(1)] show ?thesis by simp
qed

lemma read_string_holds:
  assumes "literal dir S" "plain_name n" "real_dirs (fs_nodes fs) [] S" "holds S fs n b"
    and "read_to_string_at (path_join dir n) fs = (Inr t, fs')"
  shows "t = string_of_bytes b"
proof -
  from assms(5) obtain b' where b: "read_at (path_join dir n) fs = (Inr b', fs')" "t = string_of_bytes b'"
    by (auto simp: read_to_string_at_def io_simps split: if_splits)
  with read_at_holds [OF assms(1-4)] show ?thesis by simp
qed

lemma verify_signed_by_holds:
  assumes "literal dir S" "plain_name n" "plain_name m" "real_dirs (fs_nodes fs) [] S" "holds S fs n b" "holds S fs m cab"
    and "verify_signed_by k (path_join dir n) (path_join dir m) fs = (Inr chain, fs')"
  shows "\<exists>cert ca. pk_parse k b = Inr cert \<and> pk_parse k cab = Inr ca \<and> chain = chain_of k cert ca \<and> fs_nodes fs' = fs_nodes fs"
proof -
  from assms(7) obtain b1 b2 fs1 cert ca where 1: "read_at (path_join dir n) fs = (Inr b1, fs1)"
    and 2: "read_at (path_join dir m) fs1 = (Inr b2, fs')"
    and 3: "pk_parse k b1 = Inr cert" "pk_parse k b2 = Inr ca" "chain = chain_of k cert ca"
    by (auto simp: verify_signed_by_def io_simps result_simps)
  have n: "fs_nodes fs1 = fs_nodes fs" "fs_nodes fs' = fs_nodes fs1"
    using quietD [OF quiet_read_at 1] quietD [OF quiet_read_at 2] by auto
  have "b1 = b" using read_at_holds [OF assms(1,2,4,5) 1] .
  moreover have "b2 = cab" by (rule read_at_holds [OF assms(1,3) _ _ 2]) (use assms(4,6) n in \<open>simp_all add: holds_def\<close>)
  ultimately show ?thesis using 3 n by simp
qed

lemma cert_san_set_holds:
  assumes "literal dir S" "plain_name n" "real_dirs (fs_nodes fs) [] S" "holds S fs n b"
    and "cert_san_set k (path_join dir n) fs = (Inr sans, fs')" and "pk_parse k b = Inr cert"
  shows "exact_names cert sans \<and> fs_nodes fs' = fs_nodes fs"
proof -
  from assms(5) obtain c ns where "read_cert k ''Certificate parse error: '' (path_join dir n) fs = (Inr c, fs')"
    "ct_sans c = Inr ns" "sans = tokens_of ns"
    by (auto simp: cert_san_set_def io_simps result_simps)
  with read_cert_holds [OF assms(1-4)] assms(6) show ?thesis by (auto simp: exact_names_def)
qed

text \<open>What the checks of an issued certificate and of a signed request establish.\<close>

definition usable_for :: "bool \<Rightarrow> certificate \<Rightarrow> bool" where
  "usable_for server cert \<longleftrightarrow> (\<exists>s c. ct_eku cert = Inr (Some (s, c)) \<and> (if server then s else c \<and> \<not> s))"

lemma require_eku_Inr: "require_eku what e = Inr u \<longleftrightarrow> e = Some u"
  by (auto simp: require_eku_def split: option.split)

lemma verify_issued_cert_Inr:
  assumes d: "literal dir S" "plain_name c" "plain_name key" "plain_name ca" "real_dirs (fs_nodes fs) [] S"
    and h: "holds S fs c b" "holds S fs key kb" "holds S fs ca cab"
    and v: "verify_issued_cert k (path_join dir c) (path_join dir key) (path_join dir ca) sans server fs = (Inr (), fs')"
  shows "\<exists>cert. signed_leaf k cab b cert \<and> exact_names cert sans \<and> usable_for server cert \<and>
    pk_key_of_pem k (string_of_bytes kb) = Inr (ct_public_key cert)"
proof -
  from v obtain chain fs1 cert fs2 s a fs3 t pub
    where 1: "verify_signed_by k (path_join dir c) (path_join dir ca) fs = (Inr chain, fs1)"
    and ch: "chain_checked k ''Issued'' (path_join dir c) chain = Inr ()"
    and 2: "read_cert k ''Certificate parse error: '' (path_join dir c) fs1 = (Inr cert, fs2)"
    and e: "ct_eku cert = Inr (Some (s, a))" "if server then s else a \<and> \<not> s"
    and 3: "cert_san_set k (path_join dir c) fs2 = (Inr sans, fs3)"
    and 4: "read_to_string_at (path_join dir key) fs3 = (Inr t, fs')"
    and p: "pk_key_of_pem k t = Inr pub" "pub = ct_public_key cert"
    by (auto simp: verify_issued_cert_def io_simps result_simps require_eku_Inr split: if_splits)
  from verify_signed_by_holds [OF d(1,2,4,5) h(1,3) 1] obtain cert' caf where
    c: "pk_parse k b = Inr cert'" "pk_parse k cab = Inr caf" "chain = chain_of k cert' caf" "fs_nodes fs1 = fs_nodes fs"
    by blast
  from read_cert_holds [OF d(1,2) _ _ 2, of b] d(5) h(1) c(1,4) have c2: "cert' = cert" "fs_nodes fs2 = fs_nodes fs"
    by (auto simp: holds_def)
  from cert_san_set_holds [OF d(1,2) _ _ 3, of b cert] d(5) h(1) c(1) c2 have n: "exact_names cert sans" "fs_nodes fs3 = fs_nodes fs"
    by (auto simp: holds_def)
  from read_string_holds [OF d(1,3) _ _ 4, of kb] d(5) h(2) n(2) have "t = string_of_bytes kb" by (simp add: holds_def)
  with p c c2 n(1) e chain_checked_Inr [OF ch [unfolded c(3)]] show ?thesis
    by (auto simp: signed_leaf_def usable_for_def)
qed

lemma verify_signed_csr_Inr:
  assumes d: "literal dir S" "plain_name c" "plain_name ca" "real_dirs (fs_nodes fs) [] S"
    and h: "holds S fs c b" "holds S fs ca cab"
    and v: "verify_signed_csr k (path_join dir c) csr (path_join dir ca) sans fs = (Inr (), fs')"
  shows "\<exists>cert t fs3. signed_leaf k cab b cert \<and> exact_names cert sans \<and> usable_for False cert \<and> \<not> is_ca_cert cert \<and>
    fs_nodes fs3 = fs_nodes fs \<and> steady fs fs3 \<and> read_to_string_at csr fs3 = (Inr t, fs') \<and> pk_csr_key k t = Inr (ct_public_key cert)"
proof -
  from v obtain chain fs1 cert fs2 s a fs3 t pub
    where 1: "verify_signed_by k (path_join dir c) (path_join dir ca) fs = (Inr chain, fs1)"
    and ch: "chain_checked k ''Signed'' (path_join dir c) chain = Inr ()"
    and 2: "read_cert k ''Certificate parse error: '' (path_join dir c) fs1 = (Inr cert, fs2)"
    and nca: "\<not> is_ca_cert cert" and e: "ct_eku cert = Inr (Some (s, a))" "a \<and> \<not> s"
    and 3: "cert_san_set k (path_join dir c) fs2 = (Inr sans, fs3)"
    and 4: "read_to_string_at csr fs3 = (Inr t, fs')"
    and p: "pk_csr_key k t = Inr pub" "pub = ct_public_key cert"
    by (auto simp: verify_signed_csr_def io_simps result_simps require_eku_Inr split: if_splits)
  from verify_signed_by_holds [OF d h 1] obtain cert' caf where
    c: "pk_parse k b = Inr cert'" "pk_parse k cab = Inr caf" "chain = chain_of k cert' caf" "fs_nodes fs1 = fs_nodes fs"
    by blast
  from read_cert_holds [OF d(1,2) _ _ 2, of b] d(4) h(1) c(1,4) have c2: "cert' = cert" "fs_nodes fs2 = fs_nodes fs"
    by (auto simp: holds_def)
  from cert_san_set_holds [OF d(1,2) _ _ 3, of b cert] d(4) h(1) c(1) c2 have n: "exact_names cert sans" "fs_nodes fs3 = fs_nodes fs"
    by (auto simp: holds_def)
  have "steady fs fs3" using quietD [OF quiet_inspect(1) 1] quietD [OF quiet_certs(2) 2] quietD [OF quiet_inspect(2) 3]
    by (meson steady_trans)
  with p c c2 n e nca 4 chain_checked_Inr [OF ch [unfolded c(3)]] show ?thesis
    by (auto simp: signed_leaf_def usable_for_def)
qed

end
