(* ===== verification/Cert_Publish.thy ===== *)
theory Cert_Publish
  imports Cert_Staging
begin

text \<open>
  The runs from the outside: what the secured directory, the lock, the stage and the publication
  leave of the tree, composed into what a run can change when it fails, when it is only tried, and
  when it succeeds.
\<close>

unbundle bit_operations_syntax

section \<open>Trees that grow\<close>

text \<open>There is a root, and every node has its parent.\<close>

definition rooted :: "nodes \<Rightarrow> bool" where
  "rooted N \<longleftrightarrow> N [] \<noteq> None \<and> (\<forall>p. p \<noteq> [] \<and> N p \<noteq> None \<longrightarrow> N (butlast p) \<noteq> None)"

text \<open>Nodes stay and keep their kind.\<close>

definition grows :: "nodes \<Rightarrow> nodes \<Rightarrow> bool" where
  "grows N N' \<longleftrightarrow> (\<forall>p n. N p = Some n \<longrightarrow> (\<exists>n'. N' p = Some n' \<and> fn_kind n' = fn_kind n))"

lemma grows_refl [simp]: "grows N N"
  by (simp add: grows_def)

lemma grows_trans: "grows A B \<Longrightarrow> grows B C \<Longrightarrow> grows A C"
  unfolding grows_def by metis

lemma grows_some: "grows N N' \<Longrightarrow> N x \<noteq> None \<Longrightarrow> N' x \<noteq> None"
  by (auto simp: grows_def)

lemma grows_new: "N q = None \<Longrightarrow> grows N (N(q := x))"
  by (auto simp: grows_def)

lemma grows_update: "N q = Some n \<Longrightarrow> fn_kind n' = fn_kind n \<Longrightarrow> grows N (N(q \<mapsto> n'))"
  by (auto simp: grows_def)

lemma grows_real_dirs: "grows N N' \<Longrightarrow> real_dirs N cur q \<Longrightarrow> real_dirs N' cur q"
  unfolding grows_def real_dirs_def is_dir_def by metis

lemma rooted_new: "rooted N \<Longrightarrow> N (butlast q) \<noteq> None \<Longrightarrow> rooted (N(q \<mapsto> x))"
  by (auto simp: rooted_def)

lemma rooted_below:
  assumes "rooted N" and "N S = None" and "prefix S p"
  shows "N p = None"
proof -
  from assms(3) obtain r where "p = S @ r" by (auto simp: prefix_def)
  moreover have "N (S @ r) = None"
  proof (induction r rule: rev_induct)
    case (snoc x r)
    then show ?case using assms(1) [unfolded rooted_def, THEN conjunct2, rule_format, of "S @ r @ [x]"]
      by (cases "N (S @ r @ [x])") (auto simp: butlast_append)
  qed (use assms(2) in simp)
  ultimately show ?thesis by simp
qed

text \<open>A path that leads to a file that is no link still leads there when the tree has grown.\<close>

lemma walk_grows:
  assumes "walk k N False cur cs = Inr q" and "N q = Some n" and "\<not> is_symlink n" and "grows N N'"
  shows "walk k N' fl cur cs = Inr q"
  using assms
proof (induction k N False cur cs arbitrary: q rule: walk.induct)
  case (5 k N cur m cs)
  then obtain node where m: "N (cur @ [m]) = Some node" by (cases "N (cur @ [m])") auto
  with "5.prems"(4) obtain node' where m': "N' (cur @ [m]) = Some node'" "fn_kind node' = fn_kind node"
    by (auto simp: grows_def)
  show ?case
  proof (cases "fn_kind node")
    case Dir
    with 5 m m' show ?thesis by simp
  next
    case (Symlink t)
    show ?thesis
    proof (cases "cs = []")
      case True
      with 5 m Symlink have "q = cur @ [m]" by simp
      with 5 m Symlink show ?thesis by (simp add: is_symlink_def)
    next
      case False
      with 5 m m' Symlink show ?thesis by (auto split: if_splits)
    qed
  qed (use 5 m m' in \<open>auto split: if_splits\<close>)
qed auto

section \<open>The secured directory\<close>

lemma secure_loop_frame:
  assumes "secure_loop pr p cur cs fs = (r, fs')" and "real_dirs (fs_nodes fs) [] cur"
    and "Root_Dir \<notin> set cs" and "Cur_Dir \<notin> set cs"
  shows "steady fs fs' \<and> (\<forall>x. fs_nodes fs' x = fs_nodes fs x \<or>
    (fs_nodes fs x = None \<and> prefix x (cur @ path_names cs)))"
  using assms
proof (induction cs arbitrary: cur fs)
  case (Cons c cs)
  show ?case
  proof (cases c)
    case (Normal n)
    let ?q = "cur @ [n]"
    show ?thesis
    proof (cases "fs_nodes fs ?q")
      case (Some m)
      then have "lstat_pushed fs ?q = Inr m" using lstat_pushed_literal Cons.prems(2) by simp
      with Cons.prems(1) Normal have "fs' = fs \<or> (is_dir m \<and> secure_loop pr p ?q cs fs = (r, fs'))"
        by (auto split: if_splits)
      with Cons.IH [of ?q fs] real_dirs_step [OF Cons.prems(2) Some] Cons.prems(3,4) Normal show ?thesis by auto
    next
      case None
      then have "lstat_pushed fs ?q = Inl Not_Found" using lstat_pushed_literal Cons.prems(2) by simp
      then have e: "secure_loop pr p cur (c # cs) fs =
          and_do (io (create_dir pr 0x1C0 ?q)) (\<lambda>_. secure_loop pr p ?q cs) fs" by (simp add: Normal)
      obtain r1 fs1 where 1: "create_dir pr 0x1C0 ?q fs = (r1, fs1)" by force
      have s: "steady fs fs1" using 1 by (auto simp: create_dir_def tick_def Let_def steady_def set_node_def split: if_splits)
      show ?thesis
      proof (cases r1)
        case (Inl er)
        with 1 have "fs_nodes fs1 = fs_nodes fs" by (auto simp: create_dir_def tick_def Let_def split: if_splits)
        with e 1 Inl Cons.prems(1) s show ?thesis by (auto simp: and_do_def io_def)
      next
        case (Inr u)
        note n = create_dir_Inr [OF 1 [unfolded Inr]]
        have 2: "secure_loop pr p ?q cs fs1 = (r, fs')" using e 1 Inr Cons.prems(1) by (simp add: and_do_def io_def)
        have "real_dirs (fs_nodes fs1) [] cur"
          by (rule grows_real_dirs [OF _ Cons.prems(2)]) (simp add: n(1,2) grows_new)
        then have "real_dirs (fs_nodes fs1) [] ?q"
          by (rule real_dirs_step [where m = "new_dir pr"]) (simp_all add: n(1) new_dir_kind)
        from Cons.IH [OF 2 this] Cons.prems(3,4) have i: "steady fs1 fs'" "\<And>x. fs_nodes fs' x = fs_nodes fs1 x \<or>
            (fs_nodes fs1 x = None \<and> prefix x (?q @ path_names cs))" by auto
        have "fs_nodes fs' x = fs_nodes fs x \<or> (fs_nodes fs x = None \<and> prefix x (cur @ path_names (c # cs)))" for x
          using i(2) [of x] None by (cases "x = ?q") (auto simp: n(1) Normal)
        with steady_trans [OF s i(1)] show ?thesis by blast
      qed
    qed
  qed (use Cons.prems in \<open>auto simp: give_def\<close>)
qed (auto simp: give_def)

lemma update_node_frame:
  assumes "update_node f q fs = (r, fs')"
  shows "steady fs fs' \<and> (fs_nodes fs' = fs_nodes fs \<or> (\<exists>m. fs_nodes fs q = Some m \<and> fs_nodes fs' = (fs_nodes fs)(q \<mapsto> f m)))"
  using assms by (auto simp: update_node_def tick_def Let_def set_node_def steady_def split: if_splits option.splits)

lemma update_at_frame:
  assumes "update_at (update_node f) p fs = (r, fs')" and "literal p q" and "real_dirs (fs_nodes fs) [] q"
  shows "steady fs fs' \<and> (fs_nodes fs' = fs_nodes fs \<or> (\<exists>m. fs_nodes fs q = Some m \<and> fs_nodes fs' = (fs_nodes fs)(q \<mapsto> f m)))"
  using assms(1) update_node_frame [of f q fs r fs'] resolve_real [OF assms(2) [unfolded literal_def] assms(3)]
  by (simp add: update_at_def)

lemma harden_dir_frame:
  assumes "harden_dir p mode owner allowed fs = (r, fs')" and l: "literal p q" and d: "real_dirs (fs_nodes fs) [] q"
  shows "steady fs fs' \<and> (\<forall>x. x \<noteq> q \<longrightarrow> fs_nodes fs' x = fs_nodes fs x) \<and> grows (fs_nodes fs) (fs_nodes fs')"
proof -
  let ?m = "if acl_has_broad_perms fs p 0x2 = None then io (update_at (set_permissions mode) p) else give (Inr ())"
  let ?c = "\<lambda>_. io (update_at (chown (fst owner) (snd owner)) p)"
  have "fs' = fs \<or> and_do ?m ?c fs = (r, fs')"
    using assms(1) by (auto simp: harden_dir_def Let_def split: sum.splits if_splits)
  then show ?thesis
  proof
    assume a: "and_do ?m ?c fs = (r, fs')"
    obtain r1 fs1 where 1: "?m fs = (r1, fs1)" by force
    have 2: "steady fs fs1 \<and> (\<forall>x. x \<noteq> q \<longrightarrow> fs_nodes fs1 x = fs_nodes fs x) \<and> grows (fs_nodes fs) (fs_nodes fs1)"
    proof (cases "acl_has_broad_perms fs p 0x2 = None")
      case True
      with 1 have "update_at (update_node (\<lambda>n. n\<lparr>fn_mode := mode\<rparr>)) p fs = (fst (update_at (set_permissions mode) p fs), fs1)"
        by (auto simp: set_permissions_def io_def split: prod.splits sum.splits)
      from update_at_frame [OF this l d] show ?thesis by (auto simp: grows_def)
    qed (use 1 in \<open>auto simp: give_def\<close>)
    then have d1: "real_dirs (fs_nodes fs1) [] q" using grows_real_dirs d by blast
    show ?thesis
    proof (cases r1)
      case (Inr u)
      with a 1 have "io (update_at (chown (fst owner) (snd owner)) p) fs1 = (r, fs')" by (simp add: and_do_def)
      then have "update_at (update_node (\<lambda>n. n\<lparr>fn_uid := fst owner, fn_gid := snd owner\<rparr>)) p fs1 =
          (fst (update_at (chown (fst owner) (snd owner)) p fs1), fs')"
        by (auto simp: chown_def io_def split: prod.splits sum.splits)
      from update_at_frame [OF this l d1] have "steady fs1 fs' \<and> (\<forall>x. x \<noteq> q \<longrightarrow> fs_nodes fs' x = fs_nodes fs1 x) \<and>
          grows (fs_nodes fs1) (fs_nodes fs')" by (auto simp: grows_def)
      with 2 show ?thesis using steady_trans grows_trans by (metis (no_types, lifting))
    qed (use a 1 2 in \<open>simp add: and_do_def\<close>)
  qed simp
qed

text \<open>Only the directories of the path change, or appear.\<close>

lemma ensure_secure_dir_frame:
  assumes "ensure_secure_dir pr p mode owner allowed fs = (r, fs')"
  shows "steady fs fs'" and "\<not> prefix x (place p) \<Longrightarrow> fs_nodes fs' x = fs_nodes fs x"
    and "grows (fs_nodes fs) (fs_nodes fs')"
proof -
  have "steady fs fs' \<and> (\<forall>x. \<not> prefix x (place p) \<longrightarrow> fs_nodes fs' x = fs_nodes fs x) \<and> grows (fs_nodes fs) (fs_nodes fs')"
  proof (cases "is_absolute p")
    case True
    from components_absolute [OF True] obtain cs where c: "components p = Root_Dir # cs" "Root_Dir \<notin> set cs" "Cur_Dir \<notin> set cs" .
    then have pl: "place p = path_names cs" by (simp add: place_def)
    obtain r1 fs1 where 1: "secure_loop pr p [] cs fs = (r1, fs1)" by force
    note f = secure_loop_frame [OF 1 real_dirs_Nil c(2,3)]
    then have g: "grows (fs_nodes fs) (fs_nodes fs1)" unfolding grows_def by (metis option.distinct(1))
    show ?thesis
    proof (cases r1)
      case (Inr u)
      from secure_loop_grows [of pr p "[]" cs fs fs1] 1 c Inr obtain q where q: "cs = map Normal q"
        "real_dirs (fs_nodes fs1) [] q" by auto
      have h: "harden_dir p mode owner allowed fs1 = (r, fs')"
        using assms True 1 Inr c(1) by (simp add: ensure_secure_dir_def and_do_def)
      have l: "literal p q" using c(1) q(1) by (simp add: literal_def)
      from harden_dir_frame [OF h l q(2)] f g q(1) pl show ?thesis
        by (metis append_Nil grows_trans names_simps(5) prefix_order.order_refl steady_trans)
    next
      case (Inl e)
      with assms True 1 c(1) have "fs' = fs1" by (simp add: ensure_secure_dir_def and_do_def)
      with f g pl show ?thesis by auto
    qed
  qed (use assms in \<open>simp add: ensure_secure_dir_def give_def\<close>)
  then show "steady fs fs'" "\<not> prefix x (place p) \<Longrightarrow> fs_nodes fs' x = fs_nodes fs x"
    "grows (fs_nodes fs) (fs_nodes fs')" by auto
qed

text \<open>The directory after a success.\<close>

definition secured :: "string \<Rightarrow> path \<Rightarrow> file_system \<Rightarrow> bool" where
  "secured p D fs \<longleftrightarrow> literal p D \<and> real_dirs (fs_nodes fs) [] D"

lemma secured_grows: "secured p D fs \<Longrightarrow> grows (fs_nodes fs) (fs_nodes fs') \<Longrightarrow> secured p D fs'"
  by (auto simp: secured_def intro: grows_real_dirs)

lemma ensure_secure_dir_ok:
  assumes "ensure_secure_dir pr p mode owner allowed fs = (Inr (), fs')"
  shows "secured p (place p) fs'"
proof -
  from assms obtain fs1 where a: "is_absolute p" and 1: "secure_loop pr p [] (components p) fs = (Inr (), fs1)"
    and 2: "harden_dir p mode owner allowed fs1 = (Inr (), fs')"
    by (auto simp: ensure_secure_dir_def io_simps split: if_splits)
  from components_absolute [OF a] obtain cs where c: "components p = Root_Dir # cs" "Root_Dir \<notin> set cs" "Cur_Dir \<notin> set cs" .
  with secure_loop_grows [of pr p "[]" cs fs fs1] 1 obtain q where q: "cs = map Normal q"
    "real_dirs (fs_nodes fs1) [] q" by auto
  with c have l: "literal p q" by (simp add: literal_def)
  with harden_dir_frame [OF 2 l q(2)] q(2) show ?thesis
    by (auto simp: secured_def place_literal intro: grows_real_dirs)
qed

lemma rooted_step:
  assumes "rooted N" and "grows N N'" and "\<And>x. N x = None \<Longrightarrow> N' x \<noteq> None \<Longrightarrow> N' (butlast x) \<noteq> None"
  shows "rooted N'"
proof -
  note k = grows_some [OF assms(2)]
  show ?thesis unfolding rooted_def
  proof (intro conjI allI impI)
    show "N' [] \<noteq> None" using assms(1) k by (auto simp: rooted_def)
  next
    fix p assume p: "p \<noteq> [] \<and> N' p \<noteq> None"
    show "N' (butlast p) \<noteq> None"
    proof (cases "N p")
      case (Some n)
      with assms(1) p have "N (butlast p) \<noteq> None" by (simp add: rooted_def)
      with k show ?thesis by blast
    qed (use assms(3) p in blast)
  qed
qed

lemma prefix_butlast: "prefix x D \<Longrightarrow> prefix (butlast x) D"
  by (metis append_butlast_last_id butlast.simps(1) prefix_snocD prefix_order.le_less)

lemma ensure_secure_dir_rooted:
  assumes "ensure_secure_dir pr p mode owner allowed fs = (Inr (), fs')" and "rooted (fs_nodes fs)"
  shows "rooted (fs_nodes fs')"
proof (rule rooted_step [OF assms(2) ensure_secure_dir_frame(3) [OF assms(1)]])
  fix x assume x: "fs_nodes fs x = None" "fs_nodes fs' x \<noteq> None"
  then have "prefix x (place p)" using ensure_secure_dir_frame(2) [OF assms(1)] by metis
  then have p: "prefix (butlast x) (place p)" by (rule prefix_butlast)
  have "real_dirs (fs_nodes fs') [] (place p)" using ensure_secure_dir_ok [OF assms(1)] by (simp add: secured_def)
  moreover have "fs_nodes fs' [] \<noteq> None" using assms(2) grows_some [OF ensure_secure_dir_frame(3) [OF assms(1)]]
    by (simp add: rooted_def)
  ultimately show "fs_nodes fs' (butlast x) \<noteq> None" using p unfolding real_dirs_def by (cases "butlast x = []") auto
qed

section \<open>The lock\<close>

lemma literal_name: "literal p D \<Longrightarrow> D \<noteq> [] \<Longrightarrow> plain_name (last D) \<Longrightarrow> literal p (butlast D @ [last D])"
  by simp

lemma plain_lock: "plain_name ''.gcob.lock''"
  by (simp add: plain_name_def)

lemma resolve_literal: "literal p D \<Longrightarrow> real_dirs (fs_nodes fs) [] D \<Longrightarrow> resolve fl fs p = Inr D"
  using resolve_real unfolding literal_def by blast

lemma open_lock_frame:
  assumes "open_lock pr dir fs = (r, fs')" and s: "secured dir D fs"
  shows "steady fs fs' \<and> (fs_nodes fs' = fs_nodes fs \<or>
    (\<exists>n. fs_nodes fs (D @ [''.gcob.lock'']) = None \<and> fs_nodes fs D \<noteq> None \<and>
      fs_nodes fs' = (fs_nodes fs)(D @ [''.gcob.lock''] \<mapsto> n)))"
proof -
  let ?fs1 = "fs\<lparr>fs_calls := Suc (fs_calls fs)\<rparr>"
  have d: "resolve True ?fs1 dir = Inr D" using s resolve_literal [of dir D ?fs1] by (simp add: secured_def)
  show ?thesis
    using assms(1) d
    by (auto simp: open_lock_def tick_def Let_def set_node_def steady_def has_parent_dir_def
        split: if_splits sum.splits option.splits io_error.splits)
qed

lemma lock_dir_frame:
  assumes "lock_dir pr dir fs = (r, fs')" and "secured dir D fs"
  shows "steady fs fs' \<and> (fs_nodes fs' = fs_nodes fs \<or>
    (\<exists>n. fs_nodes fs (D @ [''.gcob.lock'']) = None \<and> fs_nodes fs D \<noteq> None \<and>
      fs_nodes fs' = (fs_nodes fs)(D @ [''.gcob.lock''] \<mapsto> n)))"
proof -
  obtain r1 fs1 where 1: "open_lock pr dir fs = (r1, fs1)" by force
  then have "fs_nodes fs' = fs_nodes fs1 \<and> steady fs1 fs'"
    using assms(1) by (auto simp: lock_dir_def and_do_def io_def steady_def split: sum.splits if_splits)
  with open_lock_frame [OF 1 assms(2)] show ?thesis using steady_trans [of fs fs1 fs'] by simp
qed

text \<open>What a lock file, new or old, does to the tree.\<close>

definition locked_tree :: "path \<Rightarrow> nodes \<Rightarrow> nodes \<Rightarrow> bool" where
  "locked_tree D N N' \<longleftrightarrow> grows N N' \<and> (rooted N \<longrightarrow> rooted N') \<and> (\<forall>x. x \<noteq> D @ [''.gcob.lock''] \<longrightarrow> N' x = N x)"

lemma lock_dir_tree:
  assumes "lock_dir pr dir fs = (r, fs')" and "secured dir D fs"
  shows "steady fs fs' \<and> locked_tree D (fs_nodes fs) (fs_nodes fs')"
  using lock_dir_frame [OF assms] by (auto simp: locked_tree_def grows_new intro!: rooted_new)

lemma with_lock_frame:
  assumes "with_lock pr dir body fs = (r, fs')" and s: "secured dir D fs"
  obtains (no_lock) e where "r = Inl e" "steady fs fs'" "locked_tree D (fs_nodes fs) (fs_nodes fs')"
    | (locked) fs1 fs2 where "steady fs fs1" "locked_tree D (fs_nodes fs) (fs_nodes fs1)" "secured dir D fs1"
      "body fs1 = (r, fs2)" "fs_nodes fs' = fs_nodes fs2" "steady fs2 fs'"
proof -
  obtain r1 fs1 where 1: "lock_dir pr dir fs = (r1, fs1)" by force
  note f = lock_dir_tree [OF 1 s]
  then have s1: "secured dir D fs1" using secured_grows [OF s] by (simp add: locked_tree_def)
  show thesis
  proof (cases r1)
    case (Inl e)
    with assms(1) 1 f no_lock show ?thesis by (auto simp: with_lock_def and_do_def)
  next
    case (Inr q)
    obtain r2 fs2 where b: "body fs1 = (r2, fs2)" by force
    with assms(1) 1 Inr have "r = r2" "fs' = unlock q fs2" by (auto simp: with_lock_def and_do_def)
    with locked [of fs1 fs2] f s1 b show ?thesis by (auto simp: unlock_def steady_def)
  qed
qed

section \<open>The stage\<close>

text \<open>The random part of a temporary name holds no slash.\<close>

definition plain_suffixes :: "pki \<Rightarrow> bool" where
  "plain_suffixes k \<longleftrightarrow> (\<forall>i. CHR ''/'' \<notin> set (pk_suffix k i))"

definition stage_name :: "string \<Rightarrow> bool" where
  "stage_name n \<longleftrightarrow> (\<exists>x. n = ''.gcob-stage-'' @ x)"

lemma create_stage_frame:
  assumes "create_stage k pr dir fs = (r, fs')" and s: "secured dir D fs" and "rooted (fs_nodes fs)" and "plain_suffixes k"
  shows "steady fs fs' \<and> (case r of Inl e \<Rightarrow> fs_nodes fs' = fs_nodes fs
    | Inr (S, stage) \<Rightarrow> \<exists>n d. stage_name n \<and> S = D @ [n] \<and> literal stage S \<and> fs_nodes fs S = None \<and> is_dir d \<and>
        (\<exists>x. fs_nodes fs D = Some x \<and> is_dir x) \<and> fs_nodes fs' = (fs_nodes fs)(S \<mapsto> d) \<and> staged_at {S} fs')"
proof -
  let ?n = "''.gcob-stage-'' @ pk_suffix k (fs_calls fs)"
  have d: "resolve True fs dir = Inr D" using s resolve_literal by (simp add: secured_def)
  obtain r1 fs1 where c: "create_dir pr (pk_dir_mode k) (D @ [?n]) fs = (r1, fs1)" by force
  then have st: "steady fs fs1" by (auto simp: create_dir_def tick_def Let_def set_node_def steady_def split: if_splits)
  have r: "case r1 of Inl e \<Rightarrow> r = Inl (Cert_Io e) | Inr _ \<Rightarrow> r = Inr (D @ [?n], path_join dir ?n)" "fs' = fs1"
    using assms(1) d c by (auto simp: create_stage_def Let_def and_do_def io_def give_def split: sum.splits)
  show ?thesis
  proof (cases r1)
    case (Inl e)
    with c have "fs_nodes fs1 = fs_nodes fs" by (auto simp: create_dir_def tick_def Let_def split: if_splits)
    with st r Inl show ?thesis by simp
  next
    case (Inr u)
    let ?d = "\<lparr>fn_kind = Dir, fn_mode = pk_dir_mode k AND NOT (umask pr), fn_uid = euid pr, fn_gid = egid pr, fn_acl = None\<rparr>"
    let ?S = "D @ [?n]"
    from c Inr have n: "fs_nodes fs ?S = None" "\<exists>x. fs_nodes fs D = Some x \<and> is_dir x"
      "fs_nodes fs1 = (fs_nodes fs)(?S \<mapsto> ?d)"
      by (auto simp: create_dir_def tick_def Let_def set_node_def has_parent_dir_def split: if_splits option.splits)
    have "plain_name ?n" using assms(4) by (simp add: plain_name_def plain_suffixes_def)
    then have l: "literal (path_join dir ?n) ?S" using s literal_join by (simp add: secured_def)
    have "real_dirs (fs_nodes fs1) [] D"
      using grows_real_dirs [OF grows_new [of "fs_nodes fs" ?S "Some ?d"]] n s by (simp add: secured_def)
    then have "real_dirs (fs_nodes fs1) [] ?S" by (simp add: real_dirs_snoc n(3) is_dir_def)
    moreover have "fs_nodes fs1 p = None" if "strict_prefix ?S p" for p
      using rooted_below [OF assms(3) n(1), of p] that by (auto simp: n(3) strict_prefix_def)
    ultimately have "staged_at {?S} fs1" by (auto simp: staged_at_def tidy_def within_def)
    moreover have "stage_name ?n" "is_dir ?d" by (auto simp: stage_name_def is_dir_def)
    ultimately have "\<exists>n d. stage_name n \<and> ?S = D @ [n] \<and> literal (path_join dir ?n) ?S \<and> fs_nodes fs ?S = None \<and> is_dir d \<and>
        (\<exists>x. fs_nodes fs D = Some x \<and> is_dir x) \<and> fs_nodes fs1 = (fs_nodes fs)(?S \<mapsto> d) \<and> staged_at {?S} fs1"
      using l n by (intro exI [of _ ?n] exI [of _ ?d]) blast
    with st r Inr show ?thesis by (simp only: sum.case prod.case)
  qed
qed

lemma with_stage_frame:
  assumes "with_stage k pr dir body fs = (r, fs')" and "secured dir D fs" and "rooted (fs_nodes fs)" and "plain_suffixes k"
  obtains (no_stage) e where "r = Inl e" "steady fs fs'" "fs_nodes fs' = fs_nodes fs"
    | (stage) n stage d fs1 fs2 where "stage_name n" "literal stage (D @ [n])" "fs_nodes fs (D @ [n]) = None"
      "is_dir d" "\<exists>x. fs_nodes fs D = Some x \<and> is_dir x" "steady fs fs1"
      "fs_nodes fs1 = (fs_nodes fs)(D @ [n] \<mapsto> d)" "staged_at {D @ [n]} fs1" "body stage fs1 = (r, fs2)"
      "fs' = remove_dir_all (D @ [n]) fs2"
proof -
  obtain r1 fs1 where 1: "create_stage k pr dir fs = (r1, fs1)" by force
  note c = create_stage_frame [OF 1 assms(2-4)]
  show thesis
  proof (cases r1)
    case (Inl e)
    with assms(1) 1 c no_stage show ?thesis by (auto simp: with_stage_def and_do_def)
  next
    case (Inr a)
    obtain S stage where a: "a = (S, stage)" by force
    obtain r2 fs2 where b: "body stage fs1 = (r2, fs2)" by force
    with assms(1) 1 Inr a have "r = r2" "fs' = remove_dir_all S fs2" by (auto simp: with_stage_def and_do_def)
    with c b Inr a show ?thesis by (auto intro: stage)
  qed
qed

lemma remove_dir_all_frame: "steady fs (remove_dir_all q fs)"
  "fs_nodes (remove_dir_all q fs) p = fs_nodes fs p \<or> (prefix q p \<and> fs_nodes (remove_dir_all q fs) p = None)"
  by (auto simp: remove_dir_all_def tick_def Let_def steady_def)

section \<open>The publication\<close>

lemma own_all_frame:
  assumes "\<forall>f \<in> set plan. within SS (pl_staged f)"
  shows "confined SS (own_all plan)"
  using assms
proof (induction plan)
  case (Cons f plan)
  have "confined SS (set_permissions m (pl_staged f))" "confined SS (chown u g (pl_staged f))" for m u g
    unfolding set_permissions_def chown_def
    by (rule confined_update; use Cons.prems in \<open>simp add: is_file_def\<close>)+
  with Cons show ?case by (auto simp: apply_owner_mode_def intro!: confined_rules)
qed (auto intro: confined_rules)

text \<open>It changes owners and modes only, and finds every file.\<close>

lemma apply_owner_mode_Inr:
  assumes "apply_owner_mode q mode owner fs = (Inr (), fs')"
  shows "\<exists>n. fs_nodes fs q = Some n \<and> fs_nodes fs' = (fs_nodes fs)(q \<mapsto> n\<lparr>fn_mode := mode, fn_uid := fst owner, fn_gid := snd owner\<rparr>)"
proof -
  from assms obtain fs1 where 1: "update_node (\<lambda>n. n\<lparr>fn_mode := mode\<rparr>) q fs = (Inr (), fs1)"
    and 2: "update_node (\<lambda>n. n\<lparr>fn_uid := fst owner, fn_gid := snd owner\<rparr>) q fs1 = (Inr (), fs')"
    by (auto simp: apply_owner_mode_def io_simps set_permissions_def chown_def)
  from update_node_Inr [OF 1] update_node_Inr [OF 2] show ?thesis by auto
qed

text \<open>The node of a staged file after \<open>own_all\<close>.\<close>

definition owned_node :: "planned_file \<Rightarrow> fs_node \<Rightarrow> fs_node" where
  "owned_node f n = n\<lparr>fn_mode := pl_mode f, fn_uid := fst (pl_owner f), fn_gid := snd (pl_owner f)\<rparr>"

lemma own_all_Inr:
  assumes "own_all plan fs = (Inr (), fs')" and "distinct (map pl_staged plan)"
  shows "(\<forall>f \<in> set plan. \<exists>n. fs_nodes fs (pl_staged f) = Some n \<and> fs_nodes fs' (pl_staged f) = Some (owned_node f n)) \<and>
    (\<forall>p. p \<notin> pl_staged ` set plan \<longrightarrow> fs_nodes fs' p = fs_nodes fs p)"
  using assms
proof (induction plan arbitrary: fs)
  case (Cons f plan)
  then obtain fs1 where 1: "apply_owner_mode (pl_staged f) (pl_mode f) (pl_owner f) fs = (Inr (), fs1)"
    and 2: "own_all plan fs1 = (Inr (), fs')" by (auto simp: io_simps)
  from apply_owner_mode_Inr [OF 1] obtain n where n: "fs_nodes fs (pl_staged f) = Some n"
    "fs_nodes fs1 = (fs_nodes fs)(pl_staged f \<mapsto> owned_node f n)" by (auto simp: owned_node_def)
  have i: "(\<forall>g \<in> set plan. \<exists>n. fs_nodes fs1 (pl_staged g) = Some n \<and> fs_nodes fs' (pl_staged g) = Some (owned_node g n)) \<and>
      (\<forall>p. p \<notin> pl_staged ` set plan \<longrightarrow> fs_nodes fs' p = fs_nodes fs1 p)"
    using Cons.IH [OF 2] Cons.prems(2) by simp
  have f: "pl_staged f \<notin> pl_staged ` set plan" using Cons.prems(2) by simp
  show ?case
  proof (intro conjI ballI allI impI)
    fix g assume g: "g \<in> set (f # plan)"
    show "\<exists>n. fs_nodes fs (pl_staged g) = Some n \<and> fs_nodes fs' (pl_staged g) = Some (owned_node g n)"
    proof (cases "g \<in> set plan")
      case True
      with f have "pl_staged g \<noteq> pl_staged f" by (metis image_eqI)
      with i True n(2) show ?thesis by auto
    qed (use g i f n in auto)
  next
    fix p assume "p \<notin> pl_staged ` set (f # plan)"
    with i n(2) show "fs_nodes fs' p = fs_nodes fs p" by simp
  qed
qed (simp add: io_simps)

end
