(* ===== verification/Cert_Runs.thy ===== *)
theory Cert_Runs
  imports Cert_Publish
begin

text \<open>
  The runs as a whole: a run that fails, or that is only tried, leaves the tree as it was, up to the
  secured directory, its lock and what is left of a stage; a run that succeeds has replaced exactly its
  targets, by certificates that were verified.
\<close>

section \<open>Publishing from a stage\<close>

text \<open>Names that do not start with a dot and end in \<open>m\<close>, which those of backups do not.\<close>

definition pem_target :: "path \<Rightarrow> bool" where
  "pem_target t \<longleftrightarrow> t \<noteq> [] \<and> last t \<noteq> [] \<and> hd (last t) \<noteq> CHR ''.'' \<and> last (last t) = CHR ''m''"

definition free_target :: "u64 \<Rightarrow> nodes \<Rightarrow> path \<Rightarrow> bool" where
  "free_target stamp N t \<longleftrightarrow> pem_target t \<and> leaf N t \<and> N (backup_path t stamp) = None"

definition plan_within :: "path set \<Rightarrow> path set \<Rightarrow> planned_file list \<Rightarrow> bool" where
  "plan_within SS T plan \<longleftrightarrow> distinct (map pl_staged plan) \<and> distinct (map pl_target plan) \<and>
     (\<forall>f \<in> set plan. within SS (pl_staged f) \<and> pl_target f \<in> T)"

lemma backup_not_pem: "\<not> pem_target (backup_path u stamp)"
proof -
  have "is_digit (last (fmt_word stamp))"
    using fmt_nat_digits [of "unat stamp"] last_in_set [OF fmt_nat_nonempty [of "unat stamp"]]
    unfolding fmt_word_def list_all_iff by blast
  moreover have "\<not> is_digit (CHR ''m'')" by (simp add: is_digit_def)
  ultimately have "last (fmt_word stamp) \<noteq> CHR ''m''" by metis
  then show ?thesis using fmt_nat_nonempty [of "unat stamp"]
    by (simp add: pem_target_def backup_path_def Let_def fmt_word_def)
qed

lemma backup_inj: "t \<noteq> [] \<Longrightarrow> u \<noteq> [] \<Longrightarrow> backup_path t stamp = backup_path u stamp \<Longrightarrow> t = u"
  by (simp add: backup_path_def Let_def) (metis append_butlast_last_id)

lemma within_parent:
  assumes "t \<noteq> []"
  shows "within SS t \<longleftrightarrow> (\<exists>S \<in> SS. prefix S (butlast t))"
proof -
  obtain ys y where t: "t = ys @ [y]" using assms by (cases t rule: rev_cases) auto
  have "\<not> prefix (ys @ [y]) ys" using prefix_length_le [of "ys @ [y]" ys] by auto
  then have "strict_prefix S t \<longleftrightarrow> prefix S ys" for S by (auto simp: t strict_prefix_def)
  then show ?thesis by (simp add: within_def t)
qed

lemma is_file_leaf: "is_file n \<Longrightarrow> N p = Some n \<Longrightarrow> leaf N p"
  by (auto simp: leaf_def is_file_def is_dir_def is_symlink_def split: file_kind.splits)

lemma staged_plan_ok:
  assumes p: "plan_within SS T plan" and st: "staged_at SS fs" and ex: "\<forall>f \<in> set plan. fs_nodes fs (pl_staged f) \<noteq> None"
    and t: "\<And>t. t \<in> T \<Longrightarrow> free_target stamp (fs_nodes fs) t \<and> in_dir (fs_nodes fs) t \<and> \<not> within SS t"
  shows "plan_ok (fs_nodes fs) stamp plan \<and> plan_ready (fs_nodes fs) plan"
proof -
  have f: "within SS (pl_staged f)" "pl_target f \<in> T" if "f \<in> set plan" for f using p that by (auto simp: plan_within_def)
  have ne: "pl_target f \<noteq> []" "pem_target (pl_target f)" if "f \<in> set plan" for f
    using t [OF f(2) [OF that]] by (auto simp: free_target_def pem_target_def)
  have b: "\<not> within SS (bak stamp f)" if "f \<in> set plan" for f
  proof -
    have "butlast (bak stamp f) = butlast (pl_target f)" "bak stamp f \<noteq> []" by (simp_all add: backup_path_def Let_def)
    with within_parent ne(1) [OF that] t [OF f(2) [OF that]] show ?thesis by metis
  qed
  have d1: "distinct (map (bak stamp) plan)"
  proof -
    have "inj_on (\<lambda>t. backup_path t stamp) (pl_target ` set plan)"
      using backup_inj ne(1) unfolding inj_on_def by blast
    then have "distinct (map (\<lambda>t. backup_path t stamp) (map pl_target plan))"
      using p by (auto simp: plan_within_def distinct_map inj_on_def comp_inj_on)
    then show ?thesis by (simp add: comp_def)
  qed
  have "pl_staged f \<noteq> pl_target g" "pl_staged f \<noteq> bak stamp g" "pl_target f \<noteq> bak stamp g" if "f \<in> set plan" "g \<in> set plan" for f g
    using f(1) [OF that(1)] t [OF f(2) [OF that(2)]] b [OF that(2)] ne(2) [OF that(1)] backup_not_pem by auto
  then have "distinct (map pl_staged plan @ map pl_target plan @ map (bak stamp) plan)"
    using p d1 by (auto simp: plan_within_def)
  moreover have "leaf (fs_nodes fs) (pl_staged f)" if "f \<in> set plan" for f
    using st f(1) [OF that] ex that is_file_leaf by (fastforce simp: staged_at_def tidy_def)
  ultimately show ?thesis using t f(2) ex by (auto simp: plan_ok_def plan_ready_def free_target_def)
qed

text \<open>At most one call of the run fails.\<close>

definition one_fault :: "file_system \<Rightarrow> bool" where
  "one_fault fs \<longleftrightarrow> (\<exists>k. \<forall>j. fs_faults fs j \<longrightarrow> j = k)"

lemma publish_failed:
  assumes "publish_files stamp plan fs = (Inl e, fs')" and "plan_ok (fs_nodes fs) stamp plan" "plan_ready (fs_nodes fs) plan"
    and "one_fault fs" and "plan_within SS T plan"
  shows "\<forall>p. \<not> within SS p \<longrightarrow> fs_nodes fs' p = fs_nodes fs p"
proof -
  have "one_failure plan fs" using assms(3,4) by (simp add: one_failure_def one_fault_def)
  from publish_files_cases [OF assms(2) this assms(1)] show ?thesis
    using assms(5) by (auto simp: undone_def plan_within_def)
qed

section \<open>Runs that end in a publication\<close>

text \<open>From the tree of \<open>fs\<close> a plan was staged and published, with the tree of \<open>fs'\<close> after it.\<close>

definition published_from :: "u64 \<Rightarrow> path set \<Rightarrow> path set \<Rightarrow> file_system \<Rightarrow> cert_error + 'a \<Rightarrow> file_system \<Rightarrow> bool" where
  "published_from stamp SS T fs r fs' \<longleftrightarrow> (\<exists>plan fs1 r1. plan_within SS T plan \<and> outside SS fs fs1 \<and> staged_at SS fs1 \<and>
     (\<forall>f \<in> set plan. fs_nodes fs1 (pl_staged f) \<noteq> None) \<and> publish_files stamp plan fs1 = (r1, fs') \<and>
     ((\<exists>e. r = Inl e) \<longrightarrow> (\<exists>e. r1 = Inl e)))"

lemma published_fromI:
  assumes "plan_within SS T plan" "outside SS fs fs1" "staged_at SS fs1" "\<forall>f \<in> set plan. fs_nodes fs1 (pl_staged f) \<noteq> None"
    and "publish_files stamp plan fs1 = (r1, fs')" "(\<exists>e. r = Inl e) \<longrightarrow> (\<exists>e. r1 = Inl e)"
  shows "published_from stamp SS T fs r fs'"
  unfolding published_from_def
  by (rule exI [of _ plan], rule exI [of _ fs1], rule exI [of _ r1], intro conjI) (fact assms)+

lemma published_from_trans:
  assumes "outside SS fs fs1" and "published_from stamp SS T fs1 r fs'"
  shows "published_from stamp SS T fs r fs'"
proof -
  from assms(2) obtain plan fs2 r1 where p: "plan_within SS T plan" "outside SS fs1 fs2" "staged_at SS fs2"
    "\<forall>f \<in> set plan. fs_nodes fs2 (pl_staged f) \<noteq> None" "publish_files stamp plan fs2 = (r1, fs')"
    "(\<exists>e. r = Inl e) \<longrightarrow> (\<exists>e. r1 = Inl e)" unfolding published_from_def by (elim exE conjE) rule
  show ?thesis by (rule published_fromI [OF p(1) outside_trans [OF assms(1) p(2)] p(3-6)])
qed

text \<open>A run \<open>m\<close> works in the stages \<open>SS\<close>, and then it may publish a plan to targets in \<open>T\<close> unless it is
  only tried.\<close>

definition publishes :: "u64 \<Rightarrow> path set \<Rightarrow> path set \<Rightarrow> bool \<Rightarrow> 'a io \<Rightarrow> bool" where
  "publishes stamp SS T dry m \<longleftrightarrow> (apart SS \<longrightarrow> (\<forall>fs r fs'. staged_at SS fs \<longrightarrow> m fs = (r, fs') \<longrightarrow>
     outside SS fs fs' \<or> (\<not> dry \<and> published_from stamp SS T fs r fs')))"

lemma publishes_confined: "confined SS m \<Longrightarrow> publishes stamp SS T dry m"
  unfolding publishes_def using confinedD [of SS m] by blast

lemma publishes_and_do:
  assumes "confined SS m" and "\<And>a. publishes stamp SS T dry (f a)"
  shows "publishes stamp SS T dry (and_do m f)"
  unfolding publishes_def
proof (intro impI allI)
  fix fs r fs' assume a: "apart SS" "staged_at SS fs" and r: "and_do m f fs = (r, fs')"
  obtain r1 fs1 where 1: "m fs = (r1, fs1)" by force
  have o: "outside SS fs fs1" "staged_at SS fs1" using confinedD [OF assms(1) a 1] by auto
  show "outside SS fs fs' \<or> (\<not> dry \<and> published_from stamp SS T fs r fs')"
  proof (cases r1)
    case (Inl e)
    with r 1 o show ?thesis by (simp add: and_do_def)
  next
    case (Inr x)
    with r 1 have "f x fs1 = (r, fs')" by (simp add: and_do_def)
    with assms(2) [of x, unfolded publishes_def] a(1) o(2)
    have "outside SS fs1 fs' \<or> (\<not> dry \<and> published_from stamp SS T fs1 r fs')" by blast
    then show ?thesis
    proof
      assume "outside SS fs1 fs'"
      with outside_trans [OF o(1)] show ?thesis by blast
    next
      assume "\<not> dry \<and> published_from stamp SS T fs1 r fs'"
      with published_from_trans [OF o(1)] show ?thesis by blast
    qed
  qed
qed

text \<open>After the change of owners, which must have succeeded.\<close>

lemma publishes_own:
  assumes "plan_within SS T plan"
    and "\<And>fs1 r fs'. g fs1 = (r, fs') \<Longrightarrow> fs' = fs1 \<or> (\<not> dry \<and>
      (\<exists>r1. publish_files stamp plan fs1 = (r1, fs') \<and> ((\<exists>e. r = Inl e) \<longrightarrow> (\<exists>e. r1 = Inl e))))"
  shows "publishes stamp SS T dry (and_do (own_all plan) (\<lambda>_. g))"
  unfolding publishes_def
proof (intro impI allI)
  fix fs r fs' assume a: "apart SS" "staged_at SS fs" and r: "and_do (own_all plan) (\<lambda>_. g) fs = (r, fs')"
  obtain r1 fs1 where 1: "own_all plan fs = (r1, fs1)" by force
  have "confined SS (own_all plan)" by (rule own_all_frame) (use assms(1) in \<open>simp add: plan_within_def\<close>)
  from confinedD [OF this a 1] have o: "outside SS fs fs1" "staged_at SS fs1" by auto
  show "outside SS fs fs' \<or> (\<not> dry \<and> published_from stamp SS T fs r fs')"
  proof (cases r1)
    case (Inl e)
    with r 1 o show ?thesis by (simp add: and_do_def)
  next
    case (Inr u)
    with r 1 have "g fs1 = (r, fs')" by (simp add: and_do_def)
    from assms(2) [OF this] show ?thesis
    proof
      assume "\<not> dry \<and> (\<exists>r1. publish_files stamp plan fs1 = (r1, fs') \<and> ((\<exists>e. r = Inl e) \<longrightarrow> (\<exists>e. r1 = Inl e)))"
      then obtain r2 where p: "\<not> dry" "publish_files stamp plan fs1 = (r2, fs')" "(\<exists>e. r = Inl e) \<longrightarrow> (\<exists>e. r2 = Inl e)"
        by (elim conjE exE) (rule that)
      have "own_all plan fs = (Inr (), fs1)" "distinct (map pl_staged plan)" using 1 Inr assms(1) by (simp_all add: plan_within_def)
      from own_all_Inr [OF this] have n: "\<forall>f \<in> set plan. fs_nodes fs1 (pl_staged f) \<noteq> None" by fastforce
      have "published_from stamp SS T fs r fs'" by (rule published_fromI [OF assms(1) o n p(2,3)])
      with p(1) show ?thesis by simp
    qed (use o in simp)
  qed
qed

lemma publishes_tail:
  assumes "plan_within SS T plan"
  shows "publishes (epoch_stamp k) SS T dry (and_do (own_all plan) (\<lambda>_. and_do (publish_unless k dry plan) (\<lambda>_. give (Inr x))))"
  by (rule publishes_own [OF assms])
    (auto simp: and_do_def publish_unless_def give_def io_def split: prod.splits sum.splits if_splits)

section \<open>What a run may leave behind\<close>

text \<open>A run in the directory \<open>D\<close> that publishes nothing loses no node and changes none but the directories
  on the way to \<open>D\<close>; new are at most these, the lock and the rest of a stage.\<close>

definition untouched :: "path \<Rightarrow> nodes \<Rightarrow> nodes \<Rightarrow> bool" where
  "untouched D N N' \<longleftrightarrow> grows N N' \<and> (\<forall>x. N' x = N x \<or> prefix x D \<or> x = D @ [''.gcob.lock''] \<or>
     (N x = None \<and> (\<exists>n. stage_name n \<and> prefix (D @ [n]) x)))"

lemma untouched_same: "N' = N \<Longrightarrow> untouched D N N'"
  by (simp add: untouched_def)

lemma untouched_trans:
  assumes "untouched D A B" and "untouched D B C"
  shows "untouched D A C"
  unfolding untouched_def
proof (intro conjI allI)
  show "grows A C" using assms grows_trans unfolding untouched_def by blast
  fix x
  have "B x = None \<Longrightarrow> A x = None" using assms(1) grows_some [of A B x] unfolding untouched_def by blast
  with assms show "C x = A x \<or> prefix x D \<or> x = D @ [''.gcob.lock''] \<or>
     (A x = None \<and> (\<exists>n. stage_name n \<and> prefix (D @ [n]) x))"
    unfolding untouched_def by metis
qed

lemma untouched_locked: "locked_tree D N N' \<Longrightarrow> untouched D N N'"
  by (auto simp: untouched_def locked_tree_def)

lemma untouched_ensure:
  assumes "ensure_secure_dir pr p mode owner allowed fs = (r, fs')"
  shows "untouched (place p) (fs_nodes fs) (fs_nodes fs')"
  using ensure_secure_dir_frame(2,3) [OF assms] by (auto simp: untouched_def)

text \<open>The run under its lock and in its stage, when it publishes nothing or fails.\<close>

definition targets_in :: "u64 \<Rightarrow> path \<Rightarrow> path set \<Rightarrow> nodes \<Rightarrow> bool" where
  "targets_in stamp D T N \<longleftrightarrow> (\<forall>t \<in> T. butlast t = D \<and> free_target stamp N t)"

text \<open>Entries whose names do not start with a dot.\<close>

definition visible_in :: "path \<Rightarrow> path \<Rightarrow> bool" where
  "visible_in D x \<longleftrightarrow> x \<noteq> [] \<and> butlast x = D \<and> last x \<noteq> [] \<and> hd (last x) \<noteq> CHR ''.''"

lemma visible_facts:
  assumes "visible_in D x"
  shows "x \<noteq> D @ [''.gcob.lock'']" and "stage_name n \<Longrightarrow> x \<noteq> D @ [n]" and "\<not> within {D @ [n]} x" and "\<not> prefix x D"
proof -
  obtain m where x: "x = D @ [m]" "m \<noteq> []" "hd m \<noteq> CHR ''.''"
    using assms by (cases x rule: rev_cases) (auto simp: visible_in_def)
  then show "x \<noteq> D @ [''.gcob.lock'']" "stage_name n \<Longrightarrow> x \<noteq> D @ [n]" by (auto simp: stage_name_def)
  have p: "\<not> prefix (D @ [y]) D" for y using prefix_length_le [of "D @ [y]" D] by auto
  then show "\<not> prefix x D" by (simp add: x)
  show "\<not> within {D @ [n]} x" using within_parent [of x "{D @ [n]}"] p [of n] by (simp add: x)
qed

lemma targets_visible:
  assumes "targets_in stamp D T N" and "t \<in> T"
  shows "visible_in D t" and "visible_in D (backup_path t stamp)"
  using assms by (auto simp: targets_in_def free_target_def pem_target_def visible_in_def backup_path_def Let_def)

lemma targets_cong:
  assumes "targets_in stamp D T N" and "\<And>x. visible_in D x \<Longrightarrow> N' x = N x"
  shows "targets_in stamp D T N'"
  using assms(1) targets_visible [OF assms(1)] assms(2)
  by (auto simp: targets_in_def free_target_def leaf_def)

lemma staged_outcome:
  assumes s: "with_stage k pr dir body fs = (r, fs')" "secured dir D fs" "rooted (fs_nodes fs)" "plain_suffixes k"
    and b: "\<And>stage n. literal stage (D @ [n]) \<Longrightarrow> publishes stamp {D @ [n]} T dry (body stage)"
    and t: "targets_in stamp D T (fs_nodes fs)" and one: "one_fault fs" and fail: "dry \<or> (\<exists>e. r = Inl e)"
  shows "untouched D (fs_nodes fs) (fs_nodes fs')"
  using s
proof (cases rule: with_stage_frame)
  case (no_stage e)
  then show ?thesis by (simp add: untouched_same)
next
  case (stage n stage d fs1 fs2)
  let ?S = "D @ [n]"
  have ap: "apart {?S}" by (simp add: apart_def)
  have w: "within {?S} p \<longleftrightarrow> prefix ?S p \<and> p \<noteq> ?S" for p by (auto simp: within_def strict_prefix_def)
  have o: "\<forall>p. \<not> within {?S} p \<longrightarrow> fs_nodes fs2 p = fs_nodes fs1 p"
  proof (cases "outside {?S} fs1 fs2")
    case False
    with b [OF stage(2), unfolded publishes_def] ap stage(8,9) fail
    have "published_from stamp {?S} T fs1 r fs2" and e: "\<exists>e. r = Inl e" by blast+
    then obtain plan fs3 r1 where p: "plan_within {?S} T plan" "outside {?S} fs1 fs3" "staged_at {?S} fs3"
      "\<forall>f \<in> set plan. fs_nodes fs3 (pl_staged f) \<noteq> None" "publish_files stamp plan fs3 = (r1, fs2)"
      "(\<exists>e. r = Inl e) \<longrightarrow> (\<exists>e. r1 = Inl e)" unfolding published_from_def by (elim exE conjE) rule
    have n1: "fs_nodes fs1 x = fs_nodes fs x" if "visible_in D x" for x
      using visible_facts(2) [OF that stage(1)] stage(7) by simp
    have n3: "fs_nodes fs3 x = fs_nodes fs x" if "visible_in D x" for x
      using n1 [OF that] visible_facts(3) [OF that, of n] p(2) by (simp add: outside_def)
    have t3: "targets_in stamp D T (fs_nodes fs3)" using targets_cong [OF t n3] .
    obtain y where y: "fs_nodes fs D = Some y" "is_dir y" using stage(5) by blast
    have "\<not> within {?S} D" using prefix_length_le [of ?S D] w [of D] by auto
    moreover have "D \<noteq> ?S" by simp
    ultimately have "fs_nodes fs3 D = Some y" using p(2) y stage(7) by (simp add: outside_def)
    then have "in_dir (fs_nodes fs3) x" if "x \<in> T" for x
      using targets_visible(1) [OF t3 that] y(2) by (auto simp: in_dir_def visible_in_def)
    then have "plan_ok (fs_nodes fs3) stamp plan \<and> plan_ready (fs_nodes fs3) plan"
      using t3 visible_facts(3) [OF targets_visible(1) [OF t3]]
      by (intro staged_plan_ok [OF p(1,3,4)]) (auto simp: targets_in_def)
    moreover have "one_fault fs3" using one stage(6) p(2) by (simp add: one_fault_def outside_def steady_def)
    moreover obtain e' where "r1 = Inl e'" using p(6) e by blast
    ultimately have "\<forall>q. \<not> within {?S} q \<longrightarrow> fs_nodes fs2 q = fs_nodes fs3 q"
      using publish_failed p(1,5) by blast
    with p(2) show ?thesis by (simp add: outside_def)
  qed (auto simp: outside_def)
  have x: "fs_nodes fs' x = fs_nodes fs x \<or> (fs_nodes fs x = None \<and> prefix ?S x)" for x
    using remove_dir_all_frame(2) [of ?S fs2 x] o [rule_format, of x] rooted_below [OF s(3) stage(3), of x] w stage(7,10)
    by (cases "prefix ?S x") auto
  then have "grows (fs_nodes fs) (fs_nodes fs')" unfolding grows_def by (metis option.distinct(1))
  with x stage(1) show ?thesis unfolding untouched_def by blast
qed

lemma locked_outcome:
  assumes r: "with_lock pr dir (with_stage k pr dir body) fs = (r, fs')" and s: "secured dir D fs" "rooted (fs_nodes fs)" "plain_suffixes k"
    and b: "\<And>stage n. literal stage (D @ [n]) \<Longrightarrow> publishes stamp {D @ [n]} T dry (body stage)"
    and t: "targets_in stamp D T (fs_nodes fs)" and one: "one_fault fs" and fail: "dry \<or> (\<exists>e. r = Inl e)"
  shows "untouched D (fs_nodes fs) (fs_nodes fs')"
  using r s(1)
proof (cases rule: with_lock_frame)
  case (no_lock e)
  then show ?thesis by (simp add: untouched_locked)
next
  case (locked fs1 fs2)
  have "fs_nodes fs1 x = fs_nodes fs x" if "visible_in D x" for x
    using locked(2) visible_facts(1) [OF that] by (simp add: locked_tree_def)
  then have t1: "targets_in stamp D T (fs_nodes fs1)" by (rule targets_cong [OF t])
  have r1: "rooted (fs_nodes fs1)" using locked(2) s(2) by (simp add: locked_tree_def)
  have o1: "one_fault fs1" using one locked(1) by (simp add: one_fault_def steady_def)
  have "untouched D (fs_nodes fs1) (fs_nodes fs2)"
    by (rule staged_outcome [OF locked(4,3) r1 s(3) b t1 o1 fail])
  with untouched_trans [OF untouched_locked [OF locked(2)]] locked(5) show ?thesis by simp
qed

text \<open>The tail of a run that secures its directory first, and may look around before it locks it.\<close>

lemma secured_outcome:
  assumes e: "ensure_secure_dir pr dir mode owner allowed fs = (Inr (), fs1)" and q: "fs_nodes fs2 = fs_nodes fs1" "steady fs1 fs2"
    and r: "with_lock pr dir (with_stage k pr dir body) fs2 = (r, fs')" and s: "rooted (fs_nodes fs)" "plain_suffixes k"
    and b: "\<And>stage n. literal dir (place dir) \<Longrightarrow> literal stage (place dir @ [n]) \<Longrightarrow> publishes stamp {place dir @ [n]} T dry (body stage)"
    and t: "targets_in stamp (place dir) T (fs_nodes fs)" and one: "one_fault fs" and fail: "dry \<or> (\<exists>e. r = Inl e)"
  shows "untouched (place dir) (fs_nodes fs) (fs_nodes fs')"
proof -
  note f = ensure_secure_dir_frame [OF e]
  have "fs_nodes fs2 x = fs_nodes fs x" if "visible_in (place dir) x" for x
    using f(2) visible_facts(4) [OF that] q(1) by simp
  then have t2: "targets_in stamp (place dir) T (fs_nodes fs2)" by (rule targets_cong [OF t])
  have o2: "one_fault fs2" using one f(1) q(2) by (simp add: one_fault_def steady_def)
  have s2: "secured dir (place dir) fs2" "rooted (fs_nodes fs2)"
    using ensure_secure_dir_ok [OF e] ensure_secure_dir_rooted [OF e s(1)] q(1) by (simp_all add: secured_def)
  have l: "literal dir (place dir)" using s2(1) by (simp add: secured_def)
  have "untouched (place dir) (fs_nodes fs2) (fs_nodes fs')"
    by (rule locked_outcome [OF r s2 s(2) b [OF l] t2 o2 fail])
  with untouched_trans [OF untouched_ensure [OF e]] q(1) show ?thesis by simp
qed

text \<open>Without success, or when it is only tried, \<open>m\<close> leaves the tree as it was.\<close>

definition leaves_tree :: "path \<Rightarrow> u64 \<Rightarrow> path set \<Rightarrow> bool \<Rightarrow> 'a io \<Rightarrow> bool" where
  "leaves_tree D stamp T dry m \<longleftrightarrow> (\<forall>fs r fs'. rooted (fs_nodes fs) \<longrightarrow> targets_in stamp D T (fs_nodes fs) \<longrightarrow> one_fault fs \<longrightarrow>
     m fs = (r, fs') \<longrightarrow> dry \<or> (\<exists>e. r = Inl e) \<longrightarrow> untouched D (fs_nodes fs) (fs_nodes fs'))"

lemma leaves_look:
  assumes "quiet m" and "\<And>a. leaves_tree D stamp T dry (f a)"
  shows "leaves_tree D stamp T dry (and_do m f)"
  unfolding leaves_tree_def
proof (intro allI impI)
  fix fs r fs'
  assume h: "rooted (fs_nodes fs)" "targets_in stamp D T (fs_nodes fs)" "one_fault fs" "and_do m f fs = (r, fs')"
    "dry \<or> (\<exists>e. r = Inl e)"
  obtain r1 fs1 where 1: "m fs = (r1, fs1)" by force
  have n: "fs_nodes fs1 = fs_nodes fs" "one_fault fs1"
    using quietD [OF assms(1) 1] h(3) by (auto simp: one_fault_def steady_def)
  show "untouched D (fs_nodes fs) (fs_nodes fs')"
  proof (cases r1)
    case (Inl e)
    with h(4) 1 n show ?thesis by (simp add: and_do_def untouched_same)
  next
    case (Inr x)
    with h(4) 1 have "f x fs1 = (r, fs')" by (simp add: and_do_def)
    from assms(2) [unfolded leaves_tree_def, rule_format, OF _ _ _ this h(5)] n h(1,2) show ?thesis by simp
  qed
qed

lemma leaves_secured:
  assumes "plain_suffixes k"
    and "\<And>fs1 r fs'. g fs1 = (r, fs') \<Longrightarrow> ((\<exists>e. r = Inl e) \<and> fs_nodes fs' = fs_nodes fs1) \<or>
      (\<exists>body fs2. fs_nodes fs2 = fs_nodes fs1 \<and> steady fs1 fs2 \<and> with_lock pr dir (with_stage k pr dir body) fs2 = (r, fs') \<and>
        (\<forall>stage n. literal dir (place dir) \<longrightarrow> literal stage (place dir @ [n]) \<longrightarrow>
           publishes stamp {place dir @ [n]} T dry (body stage)))"
  shows "leaves_tree (place dir) stamp T dry (and_do (ensure_secure_dir pr dir mode owner allowed) (\<lambda>_. g))"
  unfolding leaves_tree_def
proof (intro allI impI)
  fix fs r fs'
  assume h: "rooted (fs_nodes fs)" "targets_in stamp (place dir) T (fs_nodes fs)" "one_fault fs"
    "and_do (ensure_secure_dir pr dir mode owner allowed) (\<lambda>_. g) fs = (r, fs')" "dry \<or> (\<exists>e. r = Inl e)"
  obtain r1 fs1 where 1: "ensure_secure_dir pr dir mode owner allowed fs = (r1, fs1)" by force
  show "untouched (place dir) (fs_nodes fs) (fs_nodes fs')"
  proof (cases r1)
    case (Inl e)
    with h(4) 1 untouched_ensure [OF 1] show ?thesis by (simp add: and_do_def)
  next
    case (Inr u)
    with h(4) 1 have "g fs1 = (r, fs')" by (simp add: and_do_def)
    from assms(2) [OF this] show ?thesis
    proof
      assume "(\<exists>e. r = Inl e) \<and> fs_nodes fs' = fs_nodes fs1"
      with untouched_ensure [OF 1] show ?thesis by simp
    next
      assume "\<exists>body fs2. fs_nodes fs2 = fs_nodes fs1 \<and> steady fs1 fs2 \<and> with_lock pr dir (with_stage k pr dir body) fs2 = (r, fs') \<and>
        (\<forall>stage n. literal dir (place dir) \<longrightarrow> literal stage (place dir @ [n]) \<longrightarrow>
           publishes stamp {place dir @ [n]} T dry (body stage))"
      then obtain body fs2 where b: "fs_nodes fs2 = fs_nodes fs1" "steady fs1 fs2"
        "with_lock pr dir (with_stage k pr dir body) fs2 = (r, fs')"
        "\<And>stage n. literal dir (place dir) \<Longrightarrow> literal stage (place dir @ [n]) \<Longrightarrow>
           publishes stamp {place dir @ [n]} T dry (body stage)" by blast
      have u: "ensure_secure_dir pr dir mode owner allowed fs = (Inr (), fs1)" using 1 Inr by simp
      show ?thesis by (rule secured_outcome [OF u b(1-3) h(1) assms(1) b(4) h(2,3,5)])
    qed
  qed
qed

section \<open>The three runs\<close>

lemma plan_file_place:
  "literal stage S \<Longrightarrow> plain_name n \<Longrightarrow> literal dir D \<Longrightarrow> plain_name m \<Longrightarrow>
   plan_file (path_join stage n) (path_join dir m) mode owner fp =
   \<lparr>pl_staged = S @ [n], pl_target = D @ [m], pl_mode = mode, pl_owner = owner, pl_fingerprint = fp\<rparr>"
  by (simp add: plan_file_def place_literal literal_join)

lemma publishes_sign:
  assumes "literal (sr_output req) D" and "literal stage S"
  shows "publishes (epoch_stamp k) {S} {D @ [''client.pem'']} (sr_dry_run req)
    (sign_staged k pr req validated owner (path_join (sr_output req) ''client.pem'') stage)"
  unfolding sign_staged_def Let_def
  by (intro publishes_and_do confined_generate(3) [OF _ assms(2)] confined_writes(2) [OF _ assms(2)] confined_rules
      publishes_tail)
    (auto simp: plan_file_place [OF assms(2) _ assms(1)] plan_within_def within_def strict_prefix_def)

definition renew_targets :: "path \<Rightarrow> path set" where
  "renew_targets D = (\<lambda>n. D @ [n]) ` {''server.pem'', ''server-key.pem'', ''client.pem'', ''client-key.pem'', ''ca.pem''}"

lemma publishes_renew:
  assumes "literal (rq_cert_dir req) D" and "literal stage S"
  shows "publishes (epoch_stamp k) {S} (renew_targets D) (rq_dry_run req)
    (renew_staged k pr req validated owner identity install_ca stage)"
proof -
  obtain hostname ip where i: "identity = (hostname, ip)" by force
  show ?thesis
    unfolding renew_staged_def renew_plan_def Let_def i prod.case
    by (intro publishes_and_do confined_generate(1,2) [OF _ assms(2)] confined_writes(2) [OF _ assms(2)] confined_rules
        publishes_tail)
      (auto simp: plan_file_place [OF assms(2) _ assms(1)] plan_within_def within_def strict_prefix_def renew_targets_def)
qed

lemma sign_leaves_tree:
  assumes "plain_suffixes k"
  shows "leaves_tree (place (sr_output req)) (epoch_stamp k) {place (sr_output req) @ [''client.pem'']} (sr_dry_run req)
    (sign_csr_file k h req)"
proof -
  let ?target = "path_join (sr_output req) ''client.pem''"
  have main: "leaves_tree (place (sr_output req)) (epoch_stamp k) {place (sr_output req) @ [''client.pem'']} (sr_dry_run req)
     (and_do (ensure_secure_dir (proc h) (sr_output req) mode owner allowed) (\<lambda>_ fs.
        if exists_at fs ?target \<and> \<not> sr_force req then (Inl e, fs)
        else with_lock (proc h) (sr_output req) (with_stage k (proc h) (sr_output req)
          (sign_staged k (proc h) req validated owner ?target)) fs))" for mode owner allowed e validated
  proof (rule leaves_secured [OF assms], goal_cases)
    case (1 fs1 r fs')
    show ?case
    proof (cases "exists_at fs1 ?target \<and> \<not> sr_force req")
      case False
      with 1 have "with_lock (proc h) (sr_output req) (with_stage k (proc h) (sr_output req)
          (sign_staged k (proc h) req validated owner ?target)) fs1 = (r, fs')" by simp
      then show ?thesis
        by (intro disjI2 exI [of _ "sign_staged k (proc h) req validated owner ?target"] exI [of _ fs1] conjI allI impI
            publishes_sign) simp_all
    qed (use 1 in auto)
  qed
  show ?thesis unfolding sign_csr_file_def Let_def
    by (rule main | (rule leaves_look, (intro quiet_rules)[1]))+
qed

lemma renew_leaves_tree:
  assumes "plain_suffixes k"
  shows "leaves_tree (place (rq_cert_dir req)) (epoch_stamp k) (renew_targets (place (rq_cert_dir req))) (rq_dry_run req)
    (renew_certificates k h req)"
proof -
  let ?dir = "rq_cert_dir req"
  have main: "leaves_tree (place ?dir) (epoch_stamp k) (renew_targets (place ?dir)) (rq_dry_run req)
     (and_do (ensure_secure_dir (proc h) ?dir mode owner allowed) (\<lambda>_.
        and_do (pin_installed k req validated p) (\<lambda>install_ca. with_lock (proc h) ?dir
          (with_stage k (proc h) ?dir (renew_staged k (proc h) req validated owner identity install_ca)))))"
    for mode owner allowed validated p identity
  proof (rule leaves_secured [OF assms], goal_cases)
    case (1 fs1 r fs')
    obtain r1 fs2 where 2: "pin_installed k req validated p fs1 = (r1, fs2)" by force
    note q = quietD [OF quiet_pin_installed 2]
    show ?case
    proof (cases r1)
      case (Inl e)
      with 1 2 have "r = Inl e" "fs' = fs2" by (simp_all add: and_do_def)
      with q show ?thesis by simp
    next
      case (Inr install_ca)
      with 1 2 have "with_lock (proc h) ?dir (with_stage k (proc h) ?dir
          (renew_staged k (proc h) req validated owner identity install_ca)) fs2 = (r, fs')" by (simp add: and_do_def)
      with q show ?thesis
        by (intro disjI2 exI [of _ "renew_staged k (proc h) req validated owner identity install_ca"] exI [of _ fs2]
            conjI allI impI publishes_renew) simp_all
    qed
  qed
  show ?thesis unfolding renew_certificates_def Let_def
    by (rule main | (rule leaves_look, (intro quiet_rules)[1]))+
qed

end
