(* ===== verification/Cert_Example.thy ===== *)
theory Cert_Example
  imports Cert_Runs
begin

text \<open>
  A small machine with a node's directory, for the concrete runs: an authority \<open>A\<close> with key \<open>K\<close>, a
  request \<open>R\<close>, and packages that issue \<open>L\<close> for clients and \<open>V\<close> for servers.
\<close>

definition ex_cert :: "bool \<Rightarrow> bool \<Rightarrow> certificate" where
  "ex_cert ca server = \<lparr>ct_subject = (if ca then ''i'' else ''s''), ct_issuer = ''i'', ct_serial = ''1'',
  ct_not_before = 0, ct_not_after = 100, ct_basic_ca = Inr (if ca then Some True else None), ct_eku = Inr (Some (server, \<not> server)),
  ct_sans = Inr (Some [IP_Address [10, 0, 0, 7]]), ct_public_key = (if ca then [8] else [9]), ct_raw = []\<rparr>"

definition ex_pki :: pki where
  "ex_pki = \<lparr>pk_parse = (\<lambda>b. if b = [0x41] then Inr (ex_cert True False) else if b = [0x4C] then Inr (ex_cert False False)
      else if b = [0x56] then Inr (ex_cert False True) else Inl ''bad''),
    pk_verify = (\<lambda>_ _. True), pk_now = 50, pk_sub = (\<lambda>a b. Some (a - b)), pk_time_left = (\<lambda>_. None),
    pk_show_time = (\<lambda>_. ''''), pk_show_name = (\<lambda>_. ''''),
    pk_key_of_pem = (\<lambda>s. if s = ''K'' then Inr [8] else if s = ''S'' then Inr [9] else Inl ''bad''),
    pk_csr_key = (\<lambda>s. if s = ''R'' then Inr [9] else Inl ''bad''), pk_fingerprint = (\<lambda>_. ''f''),
    pk_show_list = (\<lambda>_. ''''), pk_show_set = (\<lambda>_. ''''), pk_issuer = (\<lambda>_. Inr ()),
    pk_generate = (\<lambda>_. Inr \<lparr>kp_public = [9], kp_pem = ''S''\<rparr>),
    pk_params = (\<lambda>_. Inr \<lparr>pa_names = [], pa_subject = [], pa_purposes = [], pa_usages = [], pa_is_ca = No_Ca,
      pa_not_before = 0, pa_not_after = 0\<rparr>),
    pk_sign = (\<lambda>p _ _. Inr (if pa_purposes p = [Server_Auth] then ''V'' else ''L'')),
    pk_request = (\<lambda>_ _. Inr []), pk_request_pem = (\<lambda>_. Inr ''R''),
    pk_suffix = (\<lambda>_. ''x''), pk_dir_mode = 0x1C0\<rparr>"

definition ex_dir :: fs_node where
  "ex_dir = \<lparr>fn_kind = Dir, fn_mode = 0x1C0, fn_uid = 0, fn_gid = 0, fn_acl = None\<rparr>"

definition ex_file :: "u32 \<Rightarrow> bytes \<Rightarrow> fs_node" where
  "ex_file m b = \<lparr>fn_kind = Regular b, fn_mode = m, fn_uid = 0, fn_gid = 0, fn_acl = None\<rparr>"

definition ex_tree :: file_system where
  "ex_tree = \<lparr>fs_nodes = [[] \<mapsto> ex_dir, [''cln''] \<mapsto> ex_dir, [''cln'', ''ca.pem''] \<mapsto> ex_file 0x1A4 [0x41],
     [''cln'', ''ca-key.pem''] \<mapsto> ex_file 0x180 [0x4B], [''csr''] \<mapsto> ex_file 0x1A4 [0x52]],
   fs_faults = (\<lambda>_. False), fs_calls = 0, fs_cwd = [], fs_listing = (\<lambda>_. []), fs_locked = {}\<rparr>"

definition ex_account :: admin_account where
  "ex_account = \<lparr>aa_name = ''root'', aa_uid = 0, aa_gid = 0, aa_home = ''/''\<rparr>"

definition ex_host :: host where
  "ex_host = \<lparr>pw_by_name = (\<lambda>_. Some ex_account), pw_by_uid = (\<lambda>_. Some ex_account),
     env_var = (\<lambda>_. None), proc = \<lparr>euid = 0, egid = 0, ruid = 0, umask = 0\<rparr>\<rparr>"

definition ex_sign :: "bool \<Rightarrow> sign_request" where
  "ex_sign dry = \<lparr>sr_csr = ''/csr'', sr_hostname = ''10.0.0.7'', sr_cln_dir = ''/cln'', sr_output = ''/out'',
  sr_force = False, sr_dry_run = dry, sr_expected_ca_fingerprint = None, sr_owner_override = None\<rparr>"

definition ex_renew :: "bool \<Rightarrow> renew_request" where
  "ex_renew dry = \<lparr>rq_cln_dir = ''/cln'', rq_cert_dir = ''/out'', rq_hostname = Some ''10.0.0.7'',
  rq_ip = Some ''10.0.0.7'', rq_init_ca = True, rq_rotate_ca = False, rq_api_user = ''gcob'', rq_allow_loopback = False,
  rq_dry_run = dry, rq_owner_override = None\<rparr>"

lemma ex_rooted: "rooted (fs_nodes ex_tree)"
  by (auto simp: rooted_def ex_tree_def split: if_splits)

lemma ex_plain: "plain_suffixes ex_pki"
  by (simp add: plain_suffixes_def ex_pki_def)

lemma ex_one_fault: "one_fault ex_tree"
  by (simp add: one_fault_def ex_tree_def)

lemma place_out: "place ''/out'' = [''out'']"
  by code_simp

lemma ex_free: "free_target (epoch_stamp ex_pki) (fs_nodes ex_tree) (place ''/out'' @ [''client.pem''])"
  by code_simp

lemma ex_targets: "targets_in (epoch_stamp ex_pki) (place ''/out'') (renew_targets (place ''/out'')) (fs_nodes ex_tree)"
  by (simp add: targets_in_def renew_targets_def) code_simp

end
