(* ===== verification/Cert_Success.thy ===== *)
theory Cert_Success
  imports Cert_Example
begin

text \<open>
  Runs that succeed: what they published was issued for the requested names by the authority of the
  node's directory, was verified, and is in place with its mode; what was there before is the backup.
\<close>

unbundle bit_operations_syntax

section \<open>Files of the start\<close>

definition file_at :: "file_system \<Rightarrow> string \<Rightarrow> bytes \<Rightarrow> bool" where
  "file_at fs p b \<longleftrightarrow> (\<exists>n. stat fs p = Inr n \<and> fn_kind n = Regular b)"

lemma file_at_cong: "fs_nodes fs' = fs_nodes fs \<Longrightarrow> steady fs fs' \<Longrightarrow> file_at fs' = file_at fs"
  by (intro ext) (simp add: file_at_def stat_def node_at_def resolve_def steady_def)

lemma read_at_file:
  assumes "read_at p fs = (Inr b, fs')"
  shows "file_at fs p b"
  using assms
  by (auto simp: read_at_def file_at_def is_file_def io_Inr read_to_end_def tick_def Let_def content_def
      split: sum.splits if_splits file_kind.splits)

lemma read_to_string_file:
  assumes "read_to_string_at p fs = (Inr t, fs')"
  shows "\<exists>b. file_at fs p b \<and> t = string_of_bytes b"
proof -
  from assms obtain b where "read_at p fs = (Inr b, fs')" "t = string_of_bytes b"
    by (auto simp: read_to_string_at_def io_simps split: if_splits)
  with read_at_file show ?thesis by blast
qed

lemma load_validated_ca_file:
  assumes "load_validated_ca k source fs = (Inr v, fs')"
  shows "\<exists>cab. file_at fs (cs_ca_file source) cab \<and> vc_ca_pem v = string_of_bytes cab"
proof -
  from assms obtain fs1 key pem where 1: "read_to_string_at (cs_ca_key_file source) fs = (Inr key, fs1)"
    and 2: "\<exists>fs2. read_to_string_at (cs_ca_file source) fs1 = (Inr pem, fs2)" and v: "vc_ca_pem v = pem"
    by (auto simp: load_validated_ca_def io_simps result_simps split: if_splits)
  from 2 read_to_string_file obtain cab where "file_at fs1 (cs_ca_file source) cab" "pem = string_of_bytes cab" by blast
  moreover have "file_at fs1 = file_at fs" using quietD [OF quiet_certs(1) 1] file_at_cong by blast
  ultimately show ?thesis using v by auto
qed

text \<open>A request that was checked is the same file when the tree has grown.\<close>

lemma checked_csr_stays:
  assumes "check_csr_file csr fs = (Inr (), fs1)" and "grows (fs_nodes fs) (fs_nodes fs')" and "steady fs fs'"
    and "file_at fs' csr b"
  shows "file_at fs csr b"
proof -
  from assms(1) obtain meta where m: "lstat fs csr = Inr meta" "is_file meta"
    by (auto simp: check_csr_file_def io_simps split: if_splits)
  then obtain q where q: "resolve False fs csr = Inr q" "fs_nodes fs q = Some meta"
    by (auto simp: lstat_def node_at_def and_then_Inr split: option.splits)
  have ns: "\<not> is_symlink meta" using m(2) by (auto simp: is_file_def is_symlink_def split: file_kind.splits)
  note w = walk_grows [OF q(1) [unfolded resolve_def] q(2) ns]
  from w [OF grows_refl, of True] q(2) have s: "stat fs csr = Inr meta"
    by (simp add: stat_def node_at_def resolve_def)
  from assms(2) q(2) obtain n' where n': "fs_nodes fs' q = Some n'" "fn_kind n' = fn_kind meta" by (auto simp: grows_def)
  from w [OF assms(2), of True] n'(1) assms(3) have "stat fs' csr = Inr n'"
    by (simp add: stat_def node_at_def resolve_def steady_def)
  with assms(4) s n'(2) show ?thesis by (simp add: file_at_def)
qed

section \<open>A file in the stage\<close>

lemma write_stage:
  assumes "literal stage S" "plain_name n" "staged_at {S} fs" "S \<noteq> []"
    and "write_atomic_impl k pr (path_join stage n) data mode owner fs = (Inr (), fs')"
  shows "\<exists>x. fn_kind x = Regular data \<and> fs_nodes fs' = (fs_nodes fs)(S @ [n] \<mapsto> x) \<and> staged_at {S} fs' \<and> steady fs fs'"
proof -
  have ap: "apart {S}" using assms(4) by (simp add: apart_def)
  have d: "real_dirs (fs_nodes fs) [] S" using assms(3) by (simp add: staged_at_def)
  have "outside {S} fs fs' \<and> staged_at {S} fs'"
    by (rule confinedD [OF confined_write [OF _ assms(1,2)] ap assms(3,5)]) simp
  moreover have "fn_kind (written mode u g data) = Regular data" for u g by (simp add: written_def)
  ultimately show ?thesis using write_atomic_Inr [OF assms(1,2) d assms(4,5)] by (auto simp: outside_def)
qed

lemma sign_csr_Inr:
  assumes "literal stage S" "staged_at {S} fs" "S \<noteq> []" and "sign_csr k pr csr hostname issuer stage fs = (Inr (), fs')"
  shows "\<exists>x data. fn_kind x = Regular data \<and> fs_nodes fs' = (fs_nodes fs)(S @ [''client.pem''] \<mapsto> x) \<and>
    staged_at {S} fs' \<and> steady fs fs'"
proof -
  from assms(4) obtain t fs1 data where 1: "read_to_string_at csr fs = (Inr t, fs1)"
    and 2: "write_atomic_impl k pr (path_join stage ''client.pem'') data 0x1A4 None fs1 = (Inr (), fs')"
    by (auto simp: sign_csr_def io_simps write_atomic_def)
  note q = quietD [OF quiet_certs(1) 1]
  have "staged_at {S} fs1" using assms(2) q by (simp add: staged_at_def)
  from write_stage [OF assms(1) _ this assms(3) 2] q steady_trans show ?thesis by fastforce
qed

section \<open>A published plan\<close>

lemma published_plan:
  assumes p: "plan_within SS T plan" and st: "staged_at SS fs" and ap: "apart SS" and r: "own_all plan fs = (Inr (), fs1)"
    and q: "publish_files stamp plan fs1 = (Inr bs, fs2)"
    and t: "\<And>t. t \<in> T \<Longrightarrow> free_target stamp (fs_nodes fs) t \<and> in_dir (fs_nodes fs) t \<and> \<not> within SS t \<and> \<not> within SS (backup_path t stamp)"
  shows "\<forall>f \<in> set plan. \<exists>n. fs_nodes fs (pl_staged f) = Some n \<and> fs_nodes fs2 (pl_target f) = Some (owned_node f n) \<and>
    fs_nodes fs2 (bak stamp f) = fs_nodes fs (pl_target f)"
proof -
  have d: "distinct (map pl_staged plan)" and w: "\<forall>f \<in> set plan. within SS (pl_staged f) \<and> pl_target f \<in> T"
    using p by (simp_all add: plan_within_def)
  note o = own_all_Inr [OF r d]
  have st1: "outside SS fs fs1" "staged_at SS fs1" using confinedD [OF own_all_frame ap st r] w by blast+
  have ex: "\<forall>f \<in> set plan. fs_nodes fs1 (pl_staged f) \<noteq> None" using o by fastforce
  have same: "fs_nodes fs1 x = fs_nodes fs x" if "\<not> within SS x" for x using st1(1) that by (simp add: outside_def)
  have t1: "free_target stamp (fs_nodes fs1) x \<and> in_dir (fs_nodes fs1) x \<and> \<not> within SS x" if "x \<in> T" for x
  proof -
    have x: "x \<noteq> []" using t [OF that] by (simp add: free_target_def pem_target_def)
    have "\<not> within SS (butlast x)" using t [OF that] within_extend [of SS "butlast x" x] x
      by (metis append_butlast_last_id prefixI)
    with t [OF that] same show ?thesis by (simp add: free_target_def in_dir_def leaf_def)
  qed
  from staged_plan_ok [OF p st1(2) ex t1] have ok: "plan_ok (fs_nodes fs1) stamp plan" by blast
  from publish_files_success [OF ok q] have b: "between (fs_nodes fs1) stamp plan plan (fs_nodes fs2)" .
  show ?thesis
  proof
    fix f assume f: "f \<in> set plan"
    with o obtain n where n: "fs_nodes fs (pl_staged f) = Some n" "fs_nodes fs1 (pl_staged f) = Some (owned_node f n)" by blast
    moreover have "fs_nodes fs2 (pl_target f) = fs_nodes fs1 (pl_staged f)" "fs_nodes fs2 (bak stamp f) = fs_nodes fs1 (pl_target f)"
      using b f by (simp_all add: between_def)
    moreover have "fs_nodes fs1 (pl_target f) = fs_nodes fs (pl_target f)" using same t w f by blast
    ultimately show "\<exists>n. fs_nodes fs (pl_staged f) = Some n \<and> fs_nodes fs2 (pl_target f) = Some (owned_node f n) \<and>
      fs_nodes fs2 (bak stamp f) = fs_nodes fs (pl_target f)" by auto
  qed
qed

text \<open>From a target of the start to the stage: lock and stage change no visible entry of the directory.\<close>

definition stage_ready :: "u64 \<Rightarrow> path \<Rightarrow> path set \<Rightarrow> path \<Rightarrow> file_system \<Rightarrow> bool" where
  "stage_ready stamp D T S fs \<longleftrightarrow> (\<exists>n. S = D @ [n] \<and> stage_name n) \<and> staged_at {S} fs \<and> (\<forall>p. strict_prefix S p \<longrightarrow> fs_nodes fs p = None) \<and>
     targets_in stamp D T (fs_nodes fs) \<and> (\<exists>y. fs_nodes fs D = Some y \<and> is_dir y)"

lemma reach_stage:
  assumes e: "ensure_secure_dir pr dir mode owner allowed fs = (Inr (), fs0)" and q: "fs_nodes fs1 = fs_nodes fs0" "steady fs0 fs1"
    and r: "with_lock pr dir (with_stage k pr dir body) fs1 = (Inr v, fs')"
    and s: "rooted (fs_nodes fs)" "plain_suffixes k" "targets_in stamp (place dir) T (fs_nodes fs)"
  obtains S stage fs2 fs3 where "literal dir (place dir)" "literal stage S" "stage_ready stamp (place dir) T S fs2"
    "grows (fs_nodes fs) (fs_nodes fs2)" "steady fs fs2" "\<And>x. visible_in (place dir) x \<Longrightarrow> fs_nodes fs2 x = fs_nodes fs x"
    "body stage fs2 = (Inr v, fs3)" "\<And>x. \<not> prefix S x \<Longrightarrow> fs_nodes fs' x = fs_nodes fs3 x"
proof -
  let ?D = "place dir"
  note f = ensure_secure_dir_frame [OF e]
  have s1: "secured dir ?D fs1" "rooted (fs_nodes fs1)"
    using ensure_secure_dir_ok [OF e] ensure_secure_dir_rooted [OF e s(1)] q(1) by (simp_all add: secured_def)
  from r s1(1) obtain fs2 fs3 where l: "steady fs1 fs2" "locked_tree ?D (fs_nodes fs1) (fs_nodes fs2)" "secured dir ?D fs2"
    and w: "with_stage k pr dir body fs2 = (Inr v, fs3)" and n: "fs_nodes fs' = fs_nodes fs3"
    by (cases rule: with_lock_frame) auto
  have r2: "rooted (fs_nodes fs2)" using l(2) s1(2) by (simp add: locked_tree_def)
  from w l(3) r2 s(2) obtain m stage d fs4 fs5 where st: "stage_name m" "literal stage (?D @ [m])" "fs_nodes fs2 (?D @ [m]) = None"
    "\<exists>x. fs_nodes fs2 ?D = Some x \<and> is_dir x" "steady fs2 fs4" "fs_nodes fs4 = (fs_nodes fs2)(?D @ [m] \<mapsto> d)"
    "staged_at {?D @ [m]} fs4" "body stage fs4 = (Inr v, fs5)" "fs3 = remove_dir_all (?D @ [m]) fs5"
    by (cases rule: with_stage_frame) auto
  have v: "fs_nodes fs4 x = fs_nodes fs x" if "visible_in ?D x" for x
    using visible_facts(1) [OF that] visible_facts(2) [OF that st(1)] visible_facts(4) [OF that] f(2) [of x] q(1) l(2) st(6)
    by (simp add: locked_tree_def)
  have "fs_nodes fs4 p = None" if "strict_prefix (?D @ [m]) p" for p
    using rooted_below [OF r2 st(3), of p] that st(6) by (auto simp: strict_prefix_def)
  moreover have "\<exists>y. fs_nodes fs4 ?D = Some y \<and> is_dir y" using st(4,6) by auto
  ultimately have "stage_ready stamp ?D T (?D @ [m]) fs4"
    using st(1,7) targets_cong [OF s(3) v] by (auto simp: stage_ready_def)
  moreover have "grows (fs_nodes fs) (fs_nodes fs4)"
    using f(3) l(2) q(1) grows_new [of "fs_nodes fs2" "?D @ [m]" "Some d"] st(3,6)
    unfolding locked_tree_def by (metis grows_trans)
  moreover have "steady fs fs4" using f(1) q(2) l(1) st(5) steady_trans by blast
  moreover have "fs_nodes fs' x = fs_nodes fs5 x" if "\<not> prefix (?D @ [m]) x" for x
    using remove_dir_all_frame(2) [of "?D @ [m]" fs5 x] that n st(9) by auto
  moreover have "literal dir ?D" using s1(1) by (simp add: secured_def)
  ultimately show thesis using that st(2,8) v by blast
qed

lemma stage_empty: "stage_ready stamp D T S fs \<Longrightarrow> fs_nodes fs (S @ [x]) = None"
  unfolding stage_ready_def by (metis strict_prefixI' append_Nil2 append_assoc)

text \<open>While the run works in its stage, the targets stay as they are.\<close>

lemma stage_target:
  assumes "stage_ready stamp D T S fs" and "t \<in> T" and "outside {S} fs fs'"
  shows "free_target stamp (fs_nodes fs') t \<and> in_dir (fs_nodes fs') t \<and> \<not> within {S} t \<and> \<not> within {S} (backup_path t stamp)"
    and "fs_nodes fs' t = fs_nodes fs t" and "fs_nodes fs' (backup_path t stamp) = fs_nodes fs (backup_path t stamp)"
proof -
  from assms obtain n y where n: "S = D @ [n]" and t: "targets_in stamp D T (fs_nodes fs)"
    and y: "fs_nodes fs D = Some y" "is_dir y" by (auto simp: stage_ready_def)
  have same: "fs_nodes fs' x = fs_nodes fs x" if "visible_in D x" for x
    using visible_facts(3) [OF that, of n] assms(3) n by (simp add: outside_def)
  note t' = targets_cong [OF t same] and v = targets_visible [OF t assms(2)]
  have "\<not> within {S} D" using prefix_length_le [of S D] n by (auto simp: within_def strict_prefix_def)
  then have "fs_nodes fs' D = Some y" using assms(3) y(1) by (simp add: outside_def)
  then have "in_dir (fs_nodes fs') t" using v(1) y(2) by (auto simp: in_dir_def visible_in_def)
  moreover have "free_target stamp (fs_nodes fs') t" using t' assms(2) by (simp add: targets_in_def)
  moreover have "\<not> within {S} t" "\<not> within {S} (backup_path t stamp)" using visible_facts(3) v n by blast+
  ultimately show "free_target stamp (fs_nodes fs') t \<and> in_dir (fs_nodes fs') t \<and> \<not> within {S} t \<and> \<not> within {S} (backup_path t stamp)"
    by blast
  show "fs_nodes fs' t = fs_nodes fs t" "fs_nodes fs' (backup_path t stamp) = fs_nodes fs (backup_path t stamp)"
    using same v by blast+
qed

lemma target_not_stage: "visible_in D x \<Longrightarrow> S = D @ [n] \<Longrightarrow> stage_name n \<Longrightarrow> \<not> prefix S x"
  using visible_facts(2,3) [of D x n] by (auto simp: within_def strict_prefix_def)

section \<open>A signed request\<close>

lemma sign_staged_published:
  assumes r: "sign_staged k pr req validated owner (path_join (sr_output req) ''client.pem'') stage fs = (Inr v, fs')"
    and st: "stage_ready (epoch_stamp k) D {D @ [''client.pem'']} S fs" "literal stage S" "literal (sr_output req) D"
    and dry: "\<not> sr_dry_run req"
  shows "\<exists>n b cert fs1 t. fs_nodes fs' (D @ [''client.pem'']) = Some n \<and> fn_kind n = Regular b \<and> fn_mode n = 0x1A4 \<and>
    fn_uid n = fst owner \<and> fn_gid n = snd owner \<and>
    fs_nodes fs' (backup_path (D @ [''client.pem'']) (epoch_stamp k)) = fs_nodes fs (D @ [''client.pem'']) \<and>
    signed_leaf k (bytes_of_string (vc_ca_pem validated)) b cert \<and> exact_names cert {san_token (sr_hostname req)} \<and>
    usable_for False cert \<and> \<not> is_ca_cert cert \<and> grows (fs_nodes fs) (fs_nodes fs1) \<and> steady fs fs1 \<and>
    file_at fs1 (sr_csr req) t \<and> pk_csr_key k (string_of_bytes t) = Inr (ct_public_key cert)"
proof -
  let ?c = "S @ [''client.pem'']" and ?ca = "S @ [''ca.pem'']" and ?cab = "bytes_of_string (vc_ca_pem validated)"
  let ?p = "path_join stage ''client.pem''" and ?T = "{D @ [''client.pem'']}"
  have S: "S \<noteq> []" "apart {S}" "staged_at {S} fs" "fs_nodes fs ?c = None" "fs_nodes fs ?ca = None"
    using st(1) stage_empty [OF st(1)] by (auto simp: stage_ready_def apart_def)
  let ?plan = "\<lambda>fp. [\<lparr>pl_staged = ?c, pl_target = D @ [''client.pem''], pl_mode = 0x1A4, pl_owner = owner, pl_fingerprint = fp\<rparr>]"
  from r dry obtain fs1 fs2 fs3 fs4 fs5 fp bs where 1: "sign_csr k pr (sr_csr req) (sr_hostname req) (vc_issuer validated) stage fs = (Inr (), fs1)"
    and 2: "write_atomic_impl k pr (path_join stage ''ca.pem'') ?cab 0x1A4 (Some owner) fs1 = (Inr (), fs2)"
    and 3: "verify_signed_csr k ?p (sr_csr req) (path_join stage ''ca.pem'') {san_token (sr_hostname req)} fs2 = (Inr (), fs3)"
    and 4: "cert_fingerprint k ?p fs3 = (Inr fp, fs4)" and 5: "own_all (?plan (Some fp)) fs4 = (Inr (), fs5)"
    and 6: "publish_files (epoch_stamp k) (?plan (Some fp)) fs5 = (Inr bs, fs')"
    by (auto simp: sign_staged_def Let_def io_simps write_atomic_owned_def publish_unless_def
        plan_file_place [OF st(2) _ st(3)])
  from sign_csr_Inr [OF st(2) S(3,1) 1] obtain x data where x: "fn_kind x = Regular data"
    "fs_nodes fs1 = (fs_nodes fs)(?c \<mapsto> x)" "staged_at {S} fs1" "steady fs fs1" by blast
  from write_stage [OF st(2) _ x(3) S(1) 2] obtain y where y: "fn_kind y = Regular ?cab"
    "fs_nodes fs2 = (fs_nodes fs1)(?ca \<mapsto> y)" "staged_at {S} fs2" "steady fs1 fs2" by auto
  have d: "real_dirs (fs_nodes fs2) [] S" using y(3) by (simp add: staged_at_def)
  have h: "holds S fs2 ''client.pem'' data" "holds S fs2 ''ca.pem'' ?cab" using x y by (auto simp: holds_def)
  from verify_signed_csr_Inr [OF st(2) plain_names(1,5) d h 3] obtain cert t fs6 where
    v: "signed_leaf k ?cab data cert" "exact_names cert {san_token (sr_hostname req)}" "usable_for False cert" "\<not> is_ca_cert cert"
    "fs_nodes fs6 = fs_nodes fs2" "steady fs2 fs6" "read_to_string_at (sr_csr req) fs6 = (Inr t, fs3)"
    "pk_csr_key k t = Inr (ct_public_key cert)" by blast
  from read_to_string_file [OF v(7)] obtain tb where t: "file_at fs6 (sr_csr req) tb" "t = string_of_bytes tb" by blast
  have n4: "fs_nodes fs4 = fs_nodes fs2"
    using quietD [OF quiet_inspect(3) 4] quietD [OF quiet_verify(2) 3] by simp
  have "steady fs fs6" using x(4) y(4) v(6) steady_trans by blast
  moreover have g: "grows (fs_nodes fs) (fs_nodes fs6)" using x(2) y(2) S(4,5) by (auto simp: v(5) grows_def)
  have "fs_nodes fs4 = (fs_nodes fs)(?c \<mapsto> x, ?ca \<mapsto> y)" using x(2) y(2) n4 by simp
  moreover have "steady fs fs4" using x(4) y(4) quietD [OF quiet_inspect(3) 4] quietD [OF quiet_verify(2) 3] steady_trans by blast
  moreover have s4: "staged_at {S} fs4" using y(3) n4 by (simp add: staged_at_def)
  ultimately have o: "outside {S} fs fs4" by (auto simp: outside_def within_def strict_prefix_def staged_at_def)
  have pw: "plan_within {S} ?T (?plan (Some fp))" by (auto simp: plan_within_def within_def strict_prefix_def)
  note tg = stage_target [OF st(1) _ o]
  from published_plan [OF pw s4 S(2) 5 6 tg(1)] obtain n where n: "fs_nodes fs4 ?c = Some n"
    "fs_nodes fs' (D @ [''client.pem'']) = Some (n\<lparr>fn_mode := 0x1A4, fn_uid := fst owner, fn_gid := snd owner\<rparr>)"
    "fs_nodes fs' (backup_path (D @ [''client.pem'']) (epoch_stamp k)) = fs_nodes fs4 (D @ [''client.pem''])"
    by (auto simp: owned_node_def)
  moreover have "n = x" using n(1) x(2) y(2) n4 by simp
  ultimately show ?thesis using v t g \<open>steady fs fs6\<close> x(1) tg(2)
    by (intro exI [of _ "n\<lparr>fn_mode := 0x1A4, fn_uid := fst owner, fn_gid := snd owner\<rparr>"] exI [of _ data] exI [of _ cert]
        exI [of _ fs6] exI [of _ tb]) simp
qed

lemma targets_one: "targets_in stamp D {D @ [n]} N \<longleftrightarrow> free_target stamp N (D @ [n])"
  by (simp add: targets_in_def)

text \<open>C11: when sign_csr_file succeeds and is not a dry run, client.pem in the output directory is a
  certificate that the authority in the node's directory signed, that is valid now, names exactly the
  requested host, is for clients only and no authority, and holds the public key of the request that
  was given; it has mode 0644, and the file that was there before is its backup.\<close>

theorem signed_certificate_published:
  assumes "sign_csr_file k h req fs = (Inr v, fs')" and "\<not> sr_dry_run req"
    and "rooted (fs_nodes fs)" and "plain_suffixes k"
    and "free_target (epoch_stamp k) (fs_nodes fs) (place (sr_output req) @ [''client.pem''])"
  shows "\<exists>n b cert cab t. fs_nodes fs' (place (sr_output req) @ [''client.pem'']) = Some n \<and> fn_kind n = Regular b \<and> fn_mode n = 0x1A4 \<and>
    file_at fs (path_join (sr_cln_dir req) ''ca.pem'') cab \<and> signed_leaf k cab b cert \<and>
    exact_names cert {san_token (sr_hostname req)} \<and> usable_for False cert \<and> \<not> is_ca_cert cert \<and>
    file_at fs (sr_csr req) t \<and> pk_csr_key k (string_of_bytes t) = Inr (ct_public_key cert) \<and>
    fs_nodes fs' (backup_path (place (sr_output req) @ [''client.pem'']) (epoch_stamp k)) =
      fs_nodes fs (place (sr_output req) @ [''client.pem''])"
proof -
  let ?D = "place (sr_output req)" and ?out = "sr_output req" and ?stamp = "epoch_stamp k"
  let ?target = "path_join ?out ''client.pem''" and ?t = "place (sr_output req) @ [''client.pem'']"
  from assms(1) obtain fs1 validated fs2 mode owner allowed fs3
    where c: "check_csr_file (sr_csr req) fs = (Inr (), fs1)"
      and l: "load_validated_ca k (cln_source_paths_new (sr_cln_dir req)) fs1 = (Inr validated, fs2)"
      and e: "ensure_secure_dir (proc h) ?out mode owner allowed fs2 = (Inr (), fs3)"
      and w: "with_lock (proc h) ?out (with_stage k (proc h) ?out (sign_staged k (proc h) req validated owner ?target)) fs3 = (Inr v, fs')"
    by (auto simp: sign_csr_file_def io_simps Let_def split: if_splits option.splits)
  have q: "fs_nodes fs2 = fs_nodes fs" "steady fs fs2" "fs_nodes fs1 = fs_nodes fs" "steady fs fs1"
    using quietD [OF quiet_check_csr_file c] quietD [OF quiet_load_validated_ca l] steady_trans [of fs fs1 fs2] by simp_all
  from load_validated_ca_file [OF l] obtain cab where cab: "file_at fs (path_join (sr_cln_dir req) ''ca.pem'') cab"
    "vc_ca_pem validated = string_of_bytes cab"
    using file_at_cong [OF q(3,4)] by (auto simp: cln_source_paths_new_def)
  have r2: "rooted (fs_nodes fs2)" "targets_in ?stamp ?D {?t} (fs_nodes fs2)" using assms(3,5) q(1) by (simp_all add: targets_one)
  obtain S stage fs4 fs5 where st: "literal ?out ?D" "literal stage S" "stage_ready ?stamp ?D {?t} S fs4"
    "grows (fs_nodes fs2) (fs_nodes fs4)" "steady fs2 fs4" "\<And>x. visible_in ?D x \<Longrightarrow> fs_nodes fs4 x = fs_nodes fs2 x"
    "sign_staged k (proc h) req validated owner ?target stage fs4 = (Inr v, fs5)"
    "\<And>x. \<not> prefix S x \<Longrightarrow> fs_nodes fs' x = fs_nodes fs5 x"
    by (rule reach_stage [OF e refl steady_refl w r2(1) assms(4) r2(2)]) blast
  from sign_staged_published [OF st(7,3,2,1) assms(2)] obtain n b cert fs6 t where
    p: "fs_nodes fs5 ?t = Some n" "fn_kind n = Regular b" "fn_mode n = 0x1A4"
    "fs_nodes fs5 (backup_path ?t ?stamp) = fs_nodes fs4 ?t"
    "signed_leaf k (bytes_of_string (vc_ca_pem validated)) b cert" "exact_names cert {san_token (sr_hostname req)}"
    "usable_for False cert" "\<not> is_ca_cert cert" "grows (fs_nodes fs4) (fs_nodes fs6)" "steady fs4 fs6"
    "file_at fs6 (sr_csr req) t" "pk_csr_key k (string_of_bytes t) = Inr (ct_public_key cert)" by blast
  have "grows (fs_nodes fs) (fs_nodes fs6)" using grows_trans [OF st(4) p(9)] q(1) by simp
  then have t: "file_at fs (sr_csr req) t"
    using checked_csr_stays [OF c _ _ p(11)] steady_trans [OF steady_trans [OF q(2) st(5)] p(10)] by blast
  note v = targets_visible [OF r2(2), of ?t, simplified]
  from st(3) obtain m where "S = ?D @ [m]" "stage_name m" by (auto simp: stage_ready_def)
  then have "fs_nodes fs' ?t = fs_nodes fs5 ?t" "fs_nodes fs' (backup_path ?t ?stamp) = fs_nodes fs5 (backup_path ?t ?stamp)"
    using st(8) target_not_stage v by blast+
  with p cab t st(6) [OF v(1)] q(1) show ?thesis
    by (intro exI [of _ n] exI [of _ b] exI [of _ cert] exI [of _ cab] exI [of _ t]) simp
qed

lemma ex_signed: "sign_csr_file ex_pki ex_host (ex_sign False) ex_tree =
    (Inr \<lparr>ss_ca_fingerprint = ''f'', ss_cert_fingerprint = ''f'', ss_path = ''/out/client.pem'', ss_dry_run = False\<rparr>,
     snd (sign_csr_file ex_pki ex_host (ex_sign False) ex_tree))"
  by (rule prod_eqI) (code_simp, simp)

theorem signed_certificate_published_witness:
  "\<exists>n. fs_nodes (snd (sign_csr_file ex_pki ex_host (ex_sign False) ex_tree)) [''out'', ''client.pem''] = Some n \<and> fn_mode n = 0x1A4"
  using signed_certificate_published [OF ex_signed _ ex_rooted ex_plain] ex_free
  by (auto simp: ex_sign_def place_out)

text \<open>C14: a run of sign_csr_file that fails at any point, with at most one fault of the system, or that
  is a dry run, loses no file and changes none: only the directories on the way to the output
  directory can be new or hardened, and new entries are at most its lock and the rest of a stage.\<close>

theorem unsuccessful_signing_changes_no_file:
  assumes "sign_csr_file k h req fs = (r, fs')" and "sr_dry_run req \<or> (\<exists>e. r = Inl e)"
    and "rooted (fs_nodes fs)" and "plain_suffixes k" and "one_fault fs"
    and "free_target (epoch_stamp k) (fs_nodes fs) (place (sr_output req) @ [''client.pem''])"
  shows "untouched (place (sr_output req)) (fs_nodes fs) (fs_nodes fs')"
  using sign_leaves_tree [OF assms(4), of req h, unfolded leaves_tree_def, rule_format, OF assms(3) _ assms(5,1,2)]
    assms(6) by (simp add: targets_one)

theorem unsuccessful_signing_changes_no_file_witness:
  "untouched [''out''] (fs_nodes ex_tree) (fs_nodes (snd (sign_csr_file ex_pki ex_host (ex_sign True) ex_tree)))"
  using unsuccessful_signing_changes_no_file [OF prod.collapse [symmetric] _ ex_rooted ex_plain ex_one_fault,
      of "ex_sign True" ex_host] ex_free
  by (simp add: ex_sign_def place_out)

end
