(* ===== verification/Cert_Renewal.thy ===== *)
theory Cert_Renewal
  imports Cert_Success
begin

text \<open>
  Runs of \<open>renew_certificates\<close>: what a successful one publishes, and that no other changes a file.
\<close>

section \<open>Certificates with their keys\<close>

text \<open>Certificate and key as a run leaves them: made for the names, signed by the authority of \<open>cab\<close>,
  valid now, and belonging together.\<close>

definition issued_pair :: "pki \<Rightarrow> bytes \<Rightarrow> string set \<Rightarrow> bool \<Rightarrow> bytes \<Rightarrow> bytes \<Rightarrow> bool" where
  "issued_pair k cab sans server b kb \<longleftrightarrow> (\<exists>cert. signed_leaf k cab b cert \<and> exact_names cert sans \<and> usable_for server cert \<and>
     pk_key_of_pem k (string_of_bytes kb) = Inr (ct_public_key cert))"

definition installed_pair :: "nodes \<Rightarrow> path \<Rightarrow> string \<Rightarrow> string \<Rightarrow> u32 \<times> u32 \<Rightarrow> (bytes \<Rightarrow> bytes \<Rightarrow> bool) \<Rightarrow> bool" where
  "installed_pair N D c key owner P \<longleftrightarrow> (\<exists>n b kn kb. N (D @ [c]) = Some n \<and> fn_kind n = Regular b \<and> fn_mode n = 0x1A4 \<and>
     N (D @ [key]) = Some kn \<and> fn_kind kn = Regular kb \<and> fn_mode kn = 0x180 \<and>
     (fn_uid kn, fn_gid kn) = owner \<and> P b kb)"

lemma write_pair:
  assumes "literal stage S" "staged_at {S} fs" "S \<noteq> []" "plain_name c" "plain_name key" "quiet m" "m fs = (Inr a, fs1)"
    and "write_atomic k pr (path_join stage c) cert 0x1A4 fs1 = (Inr (), fs2)"
    and "write_atomic k pr (path_join stage key) pem 0x180 fs2 = (Inr (), fs')"
  shows "\<exists>x y. fn_kind x = Regular cert \<and> fn_kind y = Regular pem \<and>
    fs_nodes fs' = (fs_nodes fs)(S @ [c] \<mapsto> x, S @ [key] \<mapsto> y) \<and> staged_at {S} fs' \<and> steady fs fs'"
proof -
  note q = quietD [OF assms(6,7)] and w = assms(8,9) [unfolded write_atomic_def]
  have "staged_at {S} fs1" using assms(2) q by (simp add: staged_at_def)
  from write_stage [OF assms(1,4) this assms(3) w(1)] obtain x where x: "fn_kind x = Regular cert"
    "fs_nodes fs2 = (fs_nodes fs1)(S @ [c] \<mapsto> x)" "staged_at {S} fs2" "steady fs1 fs2" by blast
  from write_stage [OF assms(1,5) x(3) assms(3) w(2)] obtain y where "fn_kind y = Regular pem"
    "fs_nodes fs' = (fs_nodes fs2)(S @ [key] \<mapsto> y)" "staged_at {S} fs'" "steady fs2 fs'" by blast
  with x q steady_trans show ?thesis by fastforce
qed

lemma generate_pair:
  assumes "literal stage S" "staged_at {S} fs" "S \<noteq> []"
  shows "generate_server_cert k pr issuer hostname ip stage fs = (Inr (), fs') \<Longrightarrow>
      \<exists>x y b kb. fn_kind x = Regular b \<and> fn_kind y = Regular kb \<and>
        fs_nodes fs' = (fs_nodes fs)(S @ [''server.pem''] \<mapsto> x, S @ [''server-key.pem''] \<mapsto> y) \<and> staged_at {S} fs' \<and> steady fs fs'"
    and "generate_client_cert k pr issuer hostname stage fs = (Inr (), fs') \<Longrightarrow>
      \<exists>x y b kb. fn_kind x = Regular b \<and> fn_kind y = Regular kb \<and>
        fs_nodes fs' = (fs_nodes fs)(S @ [''client.pem''] \<mapsto> x, S @ [''client-key.pem''] \<mapsto> y) \<and> staged_at {S} fs' \<and> steady fs fs'"
proof -
  assume "generate_server_cert k pr issuer hostname ip stage fs = (Inr (), fs')"
  then obtain key cert fs1 fs2 where "generate_key k fs = (Inr key, fs1)"
    "write_atomic k pr (path_join stage ''server.pem'') cert 0x1A4 fs1 = (Inr (), fs2)"
    "write_atomic k pr (path_join stage ''server-key.pem'') (bytes_of_string (kp_pem key)) 0x180 fs2 = (Inr (), fs')"
    by (auto simp: generate_server_cert_def io_simps)
  from write_pair [OF assms plain_names(3,4) quiet_reads(3) this] show "\<exists>x y b kb. fn_kind x = Regular b \<and> fn_kind y = Regular kb \<and>
    fs_nodes fs' = (fs_nodes fs)(S @ [''server.pem''] \<mapsto> x, S @ [''server-key.pem''] \<mapsto> y) \<and> staged_at {S} fs' \<and> steady fs fs'"
    by blast
next
  assume "generate_client_cert k pr issuer hostname stage fs = (Inr (), fs')"
  then obtain key cert fs1 fs2 where "generate_key k fs = (Inr key, fs1)"
    "write_atomic k pr (path_join stage ''client.pem'') cert 0x1A4 fs1 = (Inr (), fs2)"
    "write_atomic k pr (path_join stage ''client-key.pem'') (bytes_of_string (kp_pem key)) 0x180 fs2 = (Inr (), fs')"
    by (auto simp: generate_client_cert_def io_simps)
  from write_pair [OF assms plain_names(1,2) quiet_reads(3) this] show "\<exists>x y b kb. fn_kind x = Regular b \<and> fn_kind y = Regular kb \<and>
    fs_nodes fs' = (fs_nodes fs)(S @ [''client.pem''] \<mapsto> x, S @ [''client-key.pem''] \<mapsto> y) \<and> staged_at {S} fs' \<and> steady fs fs'"
    by blast
qed

section \<open>The stage of a renewal\<close>

lemma renew_staged_published:
  assumes r: "renew_staged k pr req validated owner (hostname, ip) install_ca stage fs = (Inr v, fs')"
    and st: "stage_ready (epoch_stamp k) D (renew_targets D) S fs" "literal stage S" "literal (rq_cert_dir req) D"
    and dry: "\<not> rq_dry_run req"
  shows "rs_identity v = (hostname, ip) \<and>
    installed_pair (fs_nodes fs') D ''server.pem'' ''server-key.pem'' owner
      (issued_pair k (bytes_of_string (vc_ca_pem validated)) {san_token hostname, san_token ip} True) \<and>
    installed_pair (fs_nodes fs') D ''client.pem'' ''client-key.pem'' owner
      (issued_pair k (bytes_of_string (vc_ca_pem validated)) {san_token hostname} False)"
proof -
  let ?cab = "bytes_of_string (vc_ca_pem validated)" and ?T = "renew_targets D"
  let ?st = "path_join stage" and ?s = "\<lambda>n. S @ [n]"
  have S: "S \<noteq> []" "apart {S}" "staged_at {S} fs" using st(1) stage_empty [OF st(1)] by (auto simp: stage_ready_def apart_def)
  let ?file = "\<lambda>n m fp. \<lparr>pl_staged = ?s n, pl_target = D @ [n], pl_mode = m, pl_owner = owner, pl_fingerprint = fp\<rparr>"
  let ?plan = "\<lambda>sfp cfp. [?file ''server.pem'' 0x1A4 (Some sfp), ?file ''server-key.pem'' 0x180 None,
    ?file ''client.pem'' 0x1A4 (Some cfp), ?file ''client-key.pem'' 0x180 None] @
    (if install_ca then [?file ''ca.pem'' 0x1A4 (Some (vc_fingerprint validated))] else [])"
  note pf = plan_file_place [OF st(2) _ st(3)]
  from r dry obtain fs1 fs2 fs3 fs4 fs5 fs6 fs7 fs8 sfp cfp bs
    where 1: "generate_server_cert k pr (vc_issuer validated) hostname ip stage fs = (Inr (), fs1)"
    and 2: "generate_client_cert k pr (vc_issuer validated) hostname stage fs1 = (Inr (), fs2)"
    and 3: "write_atomic_impl k pr (?st ''ca.pem'') ?cab 0x1A4 (Some owner) fs2 = (Inr (), fs3)"
    and 4: "verify_issued_cert k (?st ''server.pem'') (?st ''server-key.pem'') (?st ''ca.pem'') {san_token hostname, san_token ip} True fs3 = (Inr (), fs4)"
    and 5: "verify_issued_cert k (?st ''client.pem'') (?st ''client-key.pem'') (?st ''ca.pem'') {san_token hostname} False fs4 = (Inr (), fs5)"
    and 6: "cert_fingerprint k (?st ''server.pem'') fs5 = (Inr sfp, fs6)" "cert_fingerprint k (?st ''client.pem'') fs6 = (Inr cfp, fs7)"
    and 7: "own_all (?plan sfp cfp) fs7 = (Inr (), fs8)"
    and 8: "publish_files (epoch_stamp k) (?plan sfp cfp) fs8 = (Inr bs, fs')"
    and v: "rs_identity v = (hostname, ip)"
    by (auto simp: renew_staged_def renew_plan_def Let_def io_simps write_atomic_owned_def publish_unless_def pf simp del: own_all.simps
        split: if_splits)
  from generate_pair(1) [OF st(2) S(3,1) 1] obtain s sk sb skb where s: "fn_kind s = Regular sb" "fn_kind sk = Regular skb"
    "fs_nodes fs1 = (fs_nodes fs)(?s ''server.pem'' \<mapsto> s, ?s ''server-key.pem'' \<mapsto> sk)" "staged_at {S} fs1" "steady fs fs1" by blast
  from generate_pair(2) [OF st(2) s(4) S(1) 2] obtain c ck cb ckb where c: "fn_kind c = Regular cb" "fn_kind ck = Regular ckb"
    "fs_nodes fs2 = (fs_nodes fs1)(?s ''client.pem'' \<mapsto> c, ?s ''client-key.pem'' \<mapsto> ck)" "staged_at {S} fs2" "steady fs1 fs2" by blast
  from write_stage [OF st(2) _ c(4) S(1) 3] obtain y where y: "fn_kind y = Regular ?cab"
    "fs_nodes fs3 = (fs_nodes fs2)(?s ''ca.pem'' \<mapsto> y)" "staged_at {S} fs3" "steady fs2 fs3" by auto
  note q = quietD [OF quiet_verify(1) 4] quietD [OF quiet_verify(1) 5] quietD [OF quiet_inspect(3) 6(1)] quietD [OF quiet_inspect(3) 6(2)]
  have n: "fs_nodes fs4 = fs_nodes fs3" "fs_nodes fs7 = fs_nodes fs3" using q by simp_all
  have d: "real_dirs (fs_nodes fs3) [] S" "real_dirs (fs_nodes fs4) [] S" using y(3) n by (simp_all add: staged_at_def)
  have h: "holds S fs3 ''server.pem'' sb" "holds S fs3 ''server-key.pem'' skb" "holds S fs3 ''client.pem'' cb"
    "holds S fs3 ''client-key.pem'' ckb" "holds S fs3 ''ca.pem'' ?cab" using s c y by (auto simp: holds_def)
  then have h': "holds S fs4 ''client.pem'' cb" "holds S fs4 ''client-key.pem'' ckb" "holds S fs4 ''ca.pem'' ?cab"
    by (simp_all add: holds_def n)
  have isv: "issued_pair k ?cab {san_token hostname, san_token ip} True sb skb"
    using verify_issued_cert_Inr [OF st(2) plain_names(3,4,5) d(1) h(1,2,5) 4] by (simp add: issued_pair_def)
  have ic: "issued_pair k ?cab {san_token hostname} False cb ckb"
    using verify_issued_cert_Inr [OF st(2) plain_names(1,2,5) d(2) h' 5] by (simp add: issued_pair_def)
  have "steady fs fs7" using s(5) c(5) y(4) q steady_trans by meson
  moreover have s7: "staged_at {S} fs7" using y(3) n(2) by (simp add: staged_at_def)
  ultimately have o7: "outside {S} fs fs7" using s(3) c(3) y(2) n(2)
    by (auto simp: outside_def within_def strict_prefix_def staged_at_def)
  have pw: "plan_within {S} ?T (?plan sfp cfp)" by (auto simp: plan_within_def within_def strict_prefix_def renew_targets_def)
  note tg = stage_target [OF st(1) _ o7]
  note pp = published_plan [OF pw s7 S(2) 7 8 tg(1)]
  have at: "fs_nodes fs' (D @ [n]) = Some (x\<lparr>fn_mode := m, fn_uid := fst owner, fn_gid := snd owner\<rparr>)"
    if "?file n m fp \<in> set (?plan sfp cfp)" "fs_nodes fs7 (?s n) = Some x" for n m fp x
    using bspec [OF pp that(1)] that(2) by (auto simp: owned_node_def)
  have e: "fs_nodes fs7 (?s ''server.pem'') = Some s" "fs_nodes fs7 (?s ''server-key.pem'') = Some sk"
    "fs_nodes fs7 (?s ''client.pem'') = Some c" "fs_nodes fs7 (?s ''client-key.pem'') = Some ck"
    using s(3) c(3) y(2) n(2) by simp_all
  show ?thesis
    using v isv ic s(1,2) c(1,2) at [OF _ e(1)] at [OF _ e(2)] at [OF _ e(3)] at [OF _ e(4)] by (simp add: installed_pair_def)
qed

section \<open>Whole runs\<close>

text \<open>C12: when renew_certificates succeeds and is not a dry run, the directory holds a server certificate
  for exactly the host name and address of the summary and a client certificate for the host name,
  each valid now and signed by the authority in the node's directory as it was at the start, with mode
  0644 and beside it the private key that belongs to it, which has mode 0600 and the owner the run
  was made for.\<close>

theorem renewed_certificates_published:
  assumes "renew_certificates k h req fs = (Inr v, fs')" and "\<not> rq_dry_run req"
    and "rooted (fs_nodes fs)" and "plain_suffixes k"
    and "targets_in (epoch_stamp k) (place (rq_cert_dir req)) (renew_targets (place (rq_cert_dir req))) (fs_nodes fs)"
  shows "\<exists>api owner hostname ip cab. account_by_name h (rq_api_user req) = Inr api \<and>
    owner = (case rq_owner_override req of Some w \<Rightarrow> w | None \<Rightarrow> (aa_uid api, aa_gid api)) \<and>
    rs_identity v = (hostname, ip) \<and> file_at fs (path_join (rq_cln_dir req) ''ca.pem'') cab \<and>
    installed_pair (fs_nodes fs') (place (rq_cert_dir req)) ''server.pem'' ''server-key.pem'' owner
      (issued_pair k cab {san_token hostname, san_token ip} True) \<and>
    installed_pair (fs_nodes fs') (place (rq_cert_dir req)) ''client.pem'' ''client-key.pem'' owner
      (issued_pair k cab {san_token hostname} False)"
proof -
  let ?dir = "rq_cert_dir req" and ?stamp = "epoch_stamp k"
  let ?D = "place ?dir" and ?T = "renew_targets (place ?dir)"
  from assms(1) obtain api validated fs1 hostname ip fs2 mode owner allowed fs3 install_ca fs4
    where a: "account_by_name h (rq_api_user req) = Inr api"
      and w: "owner = (case rq_owner_override req of Some w \<Rightarrow> w | None \<Rightarrow> (aa_uid api, aa_gid api))"
      and l: "load_validated_ca k (cln_source_paths_new (rq_cln_dir req)) fs = (Inr validated, fs1)"
      and i: "renew_identity k req fs1 = (Inr (hostname, ip), fs2)"
      and e: "ensure_secure_dir (proc h) ?dir mode owner allowed fs2 = (Inr (), fs3)"
      and pin: "pin_installed k req validated (path_join ?dir ''ca.pem'') fs3 = (Inr install_ca, fs4)"
      and r: "with_lock (proc h) ?dir (with_stage k (proc h) ?dir
        (renew_staged k (proc h) req validated owner (hostname, ip) install_ca)) fs4 = (Inr v, fs')"
    by (cases "rq_owner_override req") (auto simp: renew_certificates_def io_simps Let_def)
  have q: "fs_nodes fs2 = fs_nodes fs" "steady fs fs2" "fs_nodes fs4 = fs_nodes fs3" "steady fs3 fs4"
    using quietD [OF quiet_load_validated_ca l] quietD [OF quiet_identity i] quietD [OF quiet_pin_installed pin] steady_trans
    by fastforce+
  from load_validated_ca_file [OF l] obtain cab where cab: "file_at fs (path_join (rq_cln_dir req) ''ca.pem'') cab"
    "vc_ca_pem validated = string_of_bytes cab" by (auto simp: cln_source_paths_new_def)
  have r2: "rooted (fs_nodes fs2)" "targets_in ?stamp ?D ?T (fs_nodes fs2)" using assms(3,5) q(1) by simp_all
  obtain S stage fs5 fs6 where st: "literal ?dir ?D" "literal stage S" "stage_ready ?stamp ?D ?T S fs5"
    "renew_staged k (proc h) req validated owner (hostname, ip) install_ca stage fs5 = (Inr v, fs6)"
    "\<And>x. \<not> prefix S x \<Longrightarrow> fs_nodes fs' x = fs_nodes fs6 x"
    by (rule reach_stage [OF e q(3,4) r r2(1) assms(4) r2(2)]) blast
  note p = renew_staged_published [OF st(4,3,2,1) assms(2)]
  from st(3) obtain m where m: "S = ?D @ [m]" "stage_name m" by (auto simp: stage_ready_def)
  have same: "fs_nodes fs' (?D @ [n]) = fs_nodes fs6 (?D @ [n])"
    if "n \<in> {''server.pem'', ''server-key.pem'', ''client.pem'', ''client-key.pem''}" for n
  proof -
    have "?D @ [n] \<in> ?T" using that by (auto simp: renew_targets_def)
    from targets_visible(1) [OF r2(2) this] show ?thesis using st(5) target_not_stage m by blast
  qed
  have "bytes_of_string (vc_ca_pem validated) = cab" by (simp add: cab(2))
  with p a w cab(1) same show ?thesis
    by (intro exI [of _ api] exI [of _ owner] exI [of _ hostname] exI [of _ ip] exI [of _ cab]) (simp add: installed_pair_def)
qed

lemma ex_renewed: "\<exists>v. renew_certificates ex_pki ex_host (ex_renew False) ex_tree =
    (Inr v, snd (renew_certificates ex_pki ex_host (ex_renew False) ex_tree)) \<and> rs_identity v = (''10.0.0.7'', ''10.0.0.7'')"
proof -
  have "(case fst (renew_certificates ex_pki ex_host (ex_renew False) ex_tree) of
    Inr v \<Rightarrow> rs_identity v = (''10.0.0.7'', ''10.0.0.7'') | Inl e \<Rightarrow> False)" by code_simp
  then show ?thesis by (auto simp: prod_eq_iff split: sum.splits)
qed

theorem renewed_certificates_published_witness:
  "\<exists>cab. installed_pair (fs_nodes (snd (renew_certificates ex_pki ex_host (ex_renew False) ex_tree))) [''out''] ''server.pem'' ''server-key.pem''
    (0, 0) (issued_pair ex_pki cab {''ip:10.0.0.7''} True)"
proof -
  obtain v where v: "renew_certificates ex_pki ex_host (ex_renew False) ex_tree =
    (Inr v, snd (renew_certificates ex_pki ex_host (ex_renew False) ex_tree))" "rs_identity v = (''10.0.0.7'', ''10.0.0.7'')"
    using ex_renewed by blast
  have "san_token ''10.0.0.7'' = ''ip:10.0.0.7''" "account_by_name ex_host ''gcob'' = Inr ex_account" by code_simp+
  with renewed_certificates_published [OF v(1) _ ex_rooted ex_plain] ex_targets v(2) show ?thesis
    by (auto simp: ex_renew_def place_out ex_account_def)
qed

text \<open>C15: a run of renew_certificates that fails at any point, with at most one fault of the system, or
  that is a dry run, loses none of the five files of the directory and changes no other: only the
  directories on the way can be new or hardened, and new entries are at most the lock and the rest of
  a stage.\<close>

theorem unsuccessful_renewal_changes_no_file:
  assumes "renew_certificates k h req fs = (r, fs')" and "rq_dry_run req \<or> (\<exists>e. r = Inl e)"
    and "rooted (fs_nodes fs)" and "plain_suffixes k" and "one_fault fs"
    and "targets_in (epoch_stamp k) (place (rq_cert_dir req)) (renew_targets (place (rq_cert_dir req))) (fs_nodes fs)"
  shows "untouched (place (rq_cert_dir req)) (fs_nodes fs) (fs_nodes fs')"
  by (rule renew_leaves_tree [OF assms(4), unfolded leaves_tree_def, rule_format, OF assms(3,6,5,1,2)])

theorem unsuccessful_renewal_changes_no_file_witness:
  "untouched [''out''] (fs_nodes ex_tree) (fs_nodes (snd (renew_certificates ex_pki ex_host (ex_renew True) ex_tree)))"
  using unsuccessful_renewal_changes_no_file [OF prod.collapse [symmetric] _ ex_rooted ex_plain ex_one_fault,
      of "ex_renew True" ex_host] ex_targets
  by (simp add: ex_renew_def place_out)

end
