(* ===== verification/Cert_Init_Frame.thy ===== *)
theory Cert_Init_Frame
  imports Cert_Renewal
begin

text \<open>
  The run of \<open>gcob init\<close> from the outside: it secures three directories, locks the one of HAProxy and
  works in two stages. Without success it leaves both trees as they were.
\<close>

section \<open>Two directories\<close>

text \<open>What a run in the directory \<open>D1\<close> of HAProxy and the directory \<open>D2\<close> of the service may change
  when it publishes nothing: as \<open>untouched\<close>, in both.\<close>

definition untouched_two :: "path \<Rightarrow> path \<Rightarrow> nodes \<Rightarrow> nodes \<Rightarrow> bool" where
  "untouched_two D1 D2 N N' \<longleftrightarrow> grows N N' \<and> (\<forall>x. N' x = N x \<or> prefix x (D1 @ [''ca-certs'']) \<or> prefix x D2 \<or>
     x = D1 @ [''.gcob.lock''] \<or> (N x = None \<and> (\<exists>n. stage_name n \<and> (prefix (D1 @ [n]) x \<or> prefix (D2 @ [n]) x))))"

definition kept :: "path \<Rightarrow> path \<Rightarrow> path \<Rightarrow> bool" where
  "kept D1 D2 x \<longleftrightarrow> \<not> prefix x (D1 @ [''ca-certs'']) \<and> \<not> prefix x D2 \<and> x \<noteq> D1 @ [''.gcob.lock''] \<and>
     (\<forall>n. stage_name n \<longrightarrow> \<not> prefix (D1 @ [n]) x \<and> \<not> prefix (D2 @ [n]) x)"

lemma untouched_two_kept: "untouched_two D1 D2 N N' \<Longrightarrow> kept D1 D2 x \<Longrightarrow> N' x = N x"
  unfolding untouched_two_def kept_def by metis

lemma untouched_two_trans:
  assumes "untouched_two D1 D2 A B" and "untouched_two D1 D2 B C"
  shows "untouched_two D1 D2 A C"
  unfolding untouched_two_def
proof (intro conjI allI)
  show "grows A C" using assms grows_trans unfolding untouched_two_def by blast
  fix x
  have "B x = None \<Longrightarrow> A x = None" using assms(1) grows_some [of A B x] unfolding untouched_two_def by blast
  with assms show "C x = A x \<or> prefix x (D1 @ [''ca-certs'']) \<or> prefix x D2 \<or> x = D1 @ [''.gcob.lock''] \<or>
     (A x = None \<and> (\<exists>n. stage_name n \<and> (prefix (D1 @ [n]) x \<or> prefix (D2 @ [n]) x)))"
    unfolding untouched_two_def by metis
qed

lemma untouched_two_simple:
  "N' = N \<Longrightarrow> untouched_two D1 D2 N N'"
  "locked_tree D1 N N' \<Longrightarrow> untouched_two D1 D2 N N'"
  by (auto simp: untouched_two_def locked_tree_def)

lemma untouched_two_ensure:
  assumes "ensure_secure_dir pr p mode owner allowed fs = (r, fs')" and "prefix (place p) (D1 @ [''ca-certs'']) \<or> place p = D2"
  shows "untouched_two D1 D2 (fs_nodes fs) (fs_nodes fs')"
proof -
  have "fs_nodes fs' x = fs_nodes fs x \<or> prefix x (D1 @ [''ca-certs'']) \<or> prefix x D2" for x
    using ensure_secure_dir_frame(2) [OF assms(1), of x] assms(2) prefix_order.order_trans [of x "place p"] by blast
  with ensure_secure_dir_frame(3) [OF assms(1)] show ?thesis unfolding untouched_two_def by blast
qed

text \<open>The eight files.\<close>

definition init_targets :: "path \<Rightarrow> path \<Rightarrow> path set" where
  "init_targets D1 D2 = {D1 @ [''ca-certs'', ''ca.pem''], D1 @ [''cert_server_concat.pem''], D1 @ [''cert_client_concat.pem'']} \<union>
     (\<lambda>n. D2 @ [n]) ` {''ca.pem'', ''server.pem'', ''server-key.pem'', ''client.pem'', ''client-key.pem''}"

lemma init_targets_kept:
  assumes "D1 \<parallel> D2" and "t \<in> init_targets D1 D2"
  shows "kept D1 D2 t" and "kept D1 D2 (backup_path t stamp)"
proof -
  have p: "\<not> prefix (D1 @ x) D2" "\<not> prefix (D2 @ x) D1" "\<not> prefix (D2 @ x) (D1 @ y)" "\<not> prefix (D1 @ x) (D2 @ y)" for x y
    using parallel_append [OF assms(1), of x "[]"] parallel_append [OF assms(1), of "[]" x]
      parallel_append [OF assms(1), of y x] parallel_append [OF assms(1), of x y] by (auto dest: parallelD1 parallelD2)
  then show "kept D1 D2 t" using assms(2) by (auto simp: kept_def init_targets_def stage_name_def)
  show "kept D1 D2 (backup_path t stamp)" using assms(2) p
    by (auto simp: kept_def init_targets_def stage_name_def backup_path_def Let_def butlast_append)
qed

text \<open>Both stages: the second is made in the tree of the first, and goes first.\<close>

definition stages_ready :: "path \<Rightarrow> path \<Rightarrow> path \<Rightarrow> path \<Rightarrow> file_system \<Rightarrow> bool" where
  "stages_ready D1 D2 S1 S2 fs \<longleftrightarrow> (\<exists>n. S1 = D1 @ [n] \<and> stage_name n) \<and> (\<exists>n. S2 = D2 @ [n] \<and> stage_name n) \<and>
     staged_at {S1, S2} fs \<and> (\<forall>p. strict_prefix S1 p \<or> strict_prefix S2 p \<longrightarrow> fs_nodes fs p = None)"

lemma apart_stages:
  assumes "D1 \<parallel> D2" and "stages_ready D1 D2 S1 S2 fs"
  shows "apart {S1, S2}" and "S1 \<noteq> S2" and "S1 \<noteq> []" and "S2 \<noteq> []"
proof -
  from assms(2) obtain n m where n: "S1 = D1 @ [n]" "S2 = D2 @ [m]" by (auto simp: stages_ready_def)
  then have "S1 \<parallel> S2" using parallel_append [OF assms(1)] by simp
  then show "apart {S1, S2}" "S1 \<noteq> S2" "S1 \<noteq> []" "S2 \<noteq> []"
    using n by (auto simp: apart_def strict_prefix_def parallel_def)
qed

lemma two_stages:
  assumes r: "with_stage k pr d1 (\<lambda>s1. with_stage k pr d2 (body s1)) fs = (r, fs')"
    and s: "secured d1 D1 fs" "secured d2 D2 fs" "rooted (fs_nodes fs)" "plain_suffixes k" "D1 \<parallel> D2"
  obtains (early) e where "r = Inl e" "untouched_two D1 D2 (fs_nodes fs) (fs_nodes fs')"
    | (staged) S1 S2 s1 s2 fs1 fs2 where "literal s1 S1" "literal s2 S2" "stages_ready D1 D2 S1 S2 fs1" "steady fs fs1"
      "fs_nodes fs S1 = None" "fs_nodes fs S2 = None" "\<And>x. x \<noteq> S1 \<Longrightarrow> x \<noteq> S2 \<Longrightarrow> fs_nodes fs1 x = fs_nodes fs x"
      "body s1 s2 fs1 = (r, fs2)"
      "\<And>x. fs_nodes fs' x = fs_nodes fs2 x \<or> ((prefix S1 x \<or> prefix S2 x) \<and> fs_nodes fs' x = None)"
  using r s(1,3,4)
proof (cases rule: with_stage_frame)
  case (no_stage e)
  then show thesis by (intro early) (simp_all add: untouched_two_simple)
next
  case (stage n1 s1 d fs1 fs2)
  let ?S1 = "D1 @ [n1]"
  have g: "grows (fs_nodes fs) (fs_nodes fs1)" by (simp add: stage(3,7) grows_new)
  have s2: "secured d2 D2 fs1" by (rule secured_grows [OF s(2) g])
  have r1: "rooted (fs_nodes fs1)" unfolding stage(7) by (rule rooted_new [OF s(3)]) (use stage(5) in auto)
  note rm = remove_dir_all_frame(2) [of ?S1 fs2, folded stage(10)]
  from stage(9) s2 r1 s(4) show thesis
  proof (cases rule: with_stage_frame)
    case (no_stage e)
    have "fs_nodes fs' x = fs_nodes fs x \<or> (fs_nodes fs x = None \<and> prefix ?S1 x)" for x
      using rm [of x] no_stage(3) stage(7) rooted_below [OF s(3) stage(3), of x] by (cases "prefix ?S1 x") auto
    then have "untouched_two D1 D2 (fs_nodes fs) (fs_nodes fs')"
      using stage(1) unfolding untouched_two_def grows_def by (metis option.distinct(1))
    with no_stage(1) show thesis by (rule early)
  next
    case (stage n2 s2 d' fs3 fs4)
    let ?S2 = "D2 @ [n2]"
    note b = \<open>fs_nodes fs1 = (fs_nodes fs)(?S1 \<mapsto> d)\<close> \<open>staged_at {?S1} fs1\<close>
    have pp: "?S1 \<parallel> ?S2" using parallel_append [OF s(5)] .
    then have ne: "?S1 \<noteq> ?S2" by (auto simp: parallel_def)
    have g2: "grows (fs_nodes fs1) (fs_nodes fs3)" by (simp add: stage(3,7) grows_new)
    have e: "fs_nodes fs3 p = None" if "strict_prefix ?S1 p \<or> strict_prefix ?S2 p" for p
    proof -
      have "fs_nodes fs1 p = None"
      proof (cases "strict_prefix ?S1 p")
        case True
        then show ?thesis using rooted_below [OF s(3) \<open>fs_nodes fs ?S1 = None\<close>, of p] b(1) by (auto simp: strict_prefix_def)
      qed (use that rooted_below [OF r1 stage(3), of p] in \<open>auto simp: strict_prefix_def\<close>)
      moreover have "p \<noteq> ?S2" using that pp by (auto simp: strict_prefix_def parallel_def)
      ultimately show ?thesis by (simp add: stage(7))
    qed
    then have "staged_at {?S1, ?S2} fs3"
      using stage(8) grows_real_dirs [OF g2] b(2) by (auto simp: staged_at_def tidy_def within_def)
    with e have "stages_ready D1 D2 ?S1 ?S2 fs3"
      using stage(1) \<open>stage_name n1\<close> by (simp add: stages_ready_def)
    moreover have "fs_nodes fs' x = fs_nodes fs4 x \<or> ((prefix ?S1 x \<or> prefix ?S2 x) \<and> fs_nodes fs' x = None)" for x
      using rm [of x] remove_dir_all_frame(2) [of ?S2 fs4 x] stage(10) by metis
    moreover have "fs_nodes fs ?S2 = None" using stage(3) b(1) ne by (auto split: if_splits)
    moreover have "fs_nodes fs3 x = fs_nodes fs x" if "x \<noteq> ?S1" "x \<noteq> ?S2" for x using that b(1) stage(7) by simp
    ultimately show thesis
      using staged [of s1 ?S1 s2 ?S2 fs3 fs4] stage(2,9) \<open>literal s1 ?S1\<close> \<open>fs_nodes fs ?S1 = None\<close>
        steady_trans [OF \<open>steady fs fs1\<close> stage(6)] by blast
  qed
qed

section \<open>A run without success, in its stages\<close>

lemma stages_targets:
  assumes p: "D1 \<parallel> D2" and r: "stages_ready D1 D2 S1 S2 fs" and T: "t \<in> init_targets D1 D2"
    and dirs: "real_dirs (fs_nodes fs) [] (D1 @ [''ca-certs''])" "real_dirs (fs_nodes fs) [] D2"
    and f: "free_target stamp (fs_nodes fs) t" and o: "outside {S1, S2} fs fs'"
  shows "free_target stamp (fs_nodes fs') t \<and> in_dir (fs_nodes fs') t \<and> \<not> within {S1, S2} t \<and> \<not> within {S1, S2} (backup_path t stamp)"
proof -
  have k: "\<not> within {S1, S2} x" if "kept D1 D2 x" for x
    using that r by (auto simp: within_def kept_def stages_ready_def strict_prefix_def)
  note kt = init_targets_kept [OF p T]
  have same: "fs_nodes fs' x = fs_nodes fs x" if "kept D1 D2 x" for x using o k [OF that] by (simp add: outside_def)
  have "free_target stamp (fs_nodes fs') t" using f same kt by (simp add: free_target_def leaf_def)
  moreover have "in_dir (fs_nodes fs') t"
  proof -
    have a: "apart {S1, S2}" "staged_at {S1, S2} fs" using apart_stages(1) [OF p r] r by (auto simp: stages_ready_def)
    have "D1 \<noteq> []" "D2 \<noteq> []" using p by (auto simp: parallel_def)
    then have "\<exists>y. fs_nodes fs x = Some y \<and> is_dir y" if "x \<in> {D1 @ [''ca-certs''], D1, D2}" for x
      using dirs that by (auto simp: real_dirs_def)
    moreover have "butlast t \<in> {D1 @ [''ca-certs''], D1, D2}" using T by (auto simp: init_targets_def butlast_append)
    ultimately obtain y where y: "fs_nodes fs (butlast t) = Some y" "is_dir y" by blast
    have "\<not> within {S1, S2} (butlast t)"
      using y a(2) by (auto simp: staged_at_def tidy_def is_file_def is_dir_def split: file_kind.splits)
    then show ?thesis using y o f by (auto simp: outside_def in_dir_def free_target_def pem_target_def)
  qed
  ultimately show ?thesis using k kt by blast
qed

lemma stages_outcome:
  assumes r: "with_stage k pr d1 (\<lambda>s1. with_stage k pr d2 (body s1)) fs = (r, fs')"
    and s: "secured d1 D1 fs" "secured d2 D2 fs" "rooted (fs_nodes fs)" "plain_suffixes k" "D1 \<parallel> D2"
    and d: "real_dirs (fs_nodes fs) [] (D1 @ [''ca-certs''])"
    and t: "\<forall>t \<in> init_targets D1 D2. free_target stamp (fs_nodes fs) t"
    and b: "\<And>s1 s2 S1 S2. literal s1 S1 \<Longrightarrow> literal s2 S2 \<Longrightarrow> S1 \<noteq> S2 \<Longrightarrow> publishes stamp {S1, S2} (init_targets D1 D2) dry (body s1 s2)"
    and one: "one_fault fs" and fail: "dry \<or> (\<exists>e. r = Inl e)"
  shows "untouched_two D1 D2 (fs_nodes fs) (fs_nodes fs')"
  using r s
proof (cases rule: two_stages)
  case (staged S1 S2 s1 s2 fs1 fs2)
  let ?SS = "{S1, S2}" and ?T = "init_targets D1 D2"
  note a = apart_stages [OF s(5) staged(3)]
  have st: "staged_at ?SS fs1" using staged(3) by (simp add: stages_ready_def)
  have k: "fs_nodes fs1 x = fs_nodes fs x" if "kept D1 D2 x" for x
    by (rule staged(7)) (use that staged(3) in \<open>auto simp: kept_def stages_ready_def\<close>)
  have g: "grows (fs_nodes fs) (fs_nodes fs1)" unfolding grows_def using staged(5-7) by (metis option.distinct(1))
  have d1: "real_dirs (fs_nodes fs1) [] (D1 @ [''ca-certs''])" "real_dirs (fs_nodes fs1) [] D2"
    using d s(2) grows_real_dirs [OF g] by (simp_all add: secured_def)
  have f1: "free_target stamp (fs_nodes fs1) x" if "x \<in> ?T" for x
    using t that k init_targets_kept [OF s(5) that] by (simp add: free_target_def leaf_def)
  have o: "\<forall>p. \<not> within ?SS p \<longrightarrow> fs_nodes fs2 p = fs_nodes fs1 p"
  proof (cases "outside ?SS fs1 fs2")
    case False
    with b [OF staged(1,2) a(2), unfolded publishes_def] a(1) st staged(8) fail
    have "published_from stamp ?SS ?T fs1 r fs2" and e: "\<exists>e. r = Inl e" by blast+
    then obtain plan fs3 r1 where p: "plan_within ?SS ?T plan" "outside ?SS fs1 fs3" "staged_at ?SS fs3"
      "\<forall>f \<in> set plan. fs_nodes fs3 (pl_staged f) \<noteq> None" "publish_files stamp plan fs3 = (r1, fs2)"
      "(\<exists>e. r = Inl e) \<longrightarrow> (\<exists>e. r1 = Inl e)" unfolding published_from_def by (elim exE conjE) rule
    have "plan_ok (fs_nodes fs3) stamp plan \<and> plan_ready (fs_nodes fs3) plan"
      using stages_targets [OF s(5) staged(3) _ d1 f1 p(2)] by (intro staged_plan_ok [OF p(1,3,4)]) blast
    moreover have "one_fault fs3" using one staged(4) p(2) by (simp add: one_fault_def outside_def steady_def)
    moreover obtain e' where "r1 = Inl e'" using p(6) e by blast
    ultimately have "\<forall>q. \<not> within ?SS q \<longrightarrow> fs_nodes fs2 q = fs_nodes fs3 q"
      using publish_failed p(1,5) by blast
    with p(2) show ?thesis by (simp add: outside_def)
  qed (auto simp: outside_def)
  have x: "fs_nodes fs' x = fs_nodes fs x \<or> (fs_nodes fs x = None \<and> (prefix S1 x \<or> prefix S2 x))" for x
  proof (cases "prefix S1 x \<or> prefix S2 x")
    case True
    then show ?thesis using rooted_below [OF s(3) staged(5), of x] rooted_below [OF s(3) staged(6), of x] by blast
  next
    case False
    then have "\<not> within ?SS x" "x \<noteq> S1" "x \<noteq> S2" by (auto simp: within_def strict_prefix_def)
    with o staged(7) staged(9) [of x] False show ?thesis by metis
  qed
  then have "grows (fs_nodes fs) (fs_nodes fs')" unfolding grows_def by (metis option.distinct(1))
  with x staged(3) show ?thesis unfolding untouched_two_def stages_ready_def by metis
qed

text \<open>From the three secured directories on.\<close>

lemma init_ready:
  assumes d: "literal d1 D1" "place d2 = D2"
    and 1: "ensure_secure_dir pr d1 m1 o1 a1 fs = (Inr (), fs1)"
    and 2: "ensure_secure_dir pr (path_join d1 ''ca-certs'') m2 o2 a2 fs1 = (Inr (), fs2)"
    and 3: "ensure_secure_dir pr d2 m3 o3 a3 fs2 = (Inr (), fs3)" and r: "rooted (fs_nodes fs)"
  shows "untouched_two D1 D2 (fs_nodes fs) (fs_nodes fs3)" and "rooted (fs_nodes fs3)" and "steady fs fs3"
    and "secured d1 D1 fs3" and "secured d2 D2 fs3" and "real_dirs (fs_nodes fs3) [] (D1 @ [''ca-certs''])"
proof -
  have l: "literal (path_join d1 ''ca-certs'') (D1 @ [''ca-certs''])" using literal_join [OF d(1)] by simp
  note p = place_literal [OF d(1)] place_literal [OF l]
  have "untouched_two D1 D2 (fs_nodes fs) (fs_nodes fs1)" "untouched_two D1 D2 (fs_nodes fs1) (fs_nodes fs2)"
    "untouched_two D1 D2 (fs_nodes fs2) (fs_nodes fs3)"
    using untouched_two_ensure [OF 1] untouched_two_ensure [OF 2] untouched_two_ensure [OF 3] p d(2) by simp_all
  then show "untouched_two D1 D2 (fs_nodes fs) (fs_nodes fs3)" using untouched_two_trans by blast
  show "rooted (fs_nodes fs3)"
    using ensure_secure_dir_rooted [OF 3] ensure_secure_dir_rooted [OF 2] ensure_secure_dir_rooted [OF 1 r] by blast
  note f = ensure_secure_dir_frame [OF 1] ensure_secure_dir_frame [OF 2] ensure_secure_dir_frame [OF 3]
  show "steady fs fs3" using f steady_trans by blast
  note s = ensure_secure_dir_ok [OF 1] ensure_secure_dir_ok [OF 2] ensure_secure_dir_ok [OF 3]
  show "secured d1 D1 fs3" using s(1) f(6,9) p(1) secured_grows grows_trans by metis
  show "secured d2 D2 fs3" using s(3) d(2) by simp
  show "real_dirs (fs_nodes fs3) [] (D1 @ [''ca-certs''])"
    using s(2) f(9) p(2) grows_real_dirs by (simp add: secured_def)
qed

section \<open>The plan\<close>

lemma publishes_init_tail:
  assumes "plan_within SS T plan"
  shows "publishes (epoch_stamp k) SS T (is_dry_run req) (provision_publish k confirm req validated plan)"
  unfolding provision_publish_def Let_def
  by (rule publishes_own [OF assms])
    (auto simp: and_do_def give_def io_def split: prod.splits sum.splits if_splits option.splits)

lemma and_do_assoc: "and_do (and_do m f) g = and_do m (\<lambda>a. and_do (f a) g)"
  by (rule ext) (simp add: and_do_def split: prod.split sum.split)

lemma and_do_give: "and_do (give (Inr a)) f = f a"
  by (rule ext) (simp add: and_do_def give_def)

definition init_plan :: "path \<Rightarrow> path \<Rightarrow> path \<Rightarrow> path \<Rightarrow> u32 \<times> u32 \<Rightarrow> u32 \<times> u32 \<Rightarrow> string option \<Rightarrow> string option \<Rightarrow> string option
    \<Rightarrow> string option \<Rightarrow> string option \<Rightarrow> planned_file list" where
  "init_plan D1 D2 S1 S2 ho ao fp sfp cfp afp bfp =
     (let file = \<lambda>s t m w f. \<lparr>pl_staged = s, pl_target = t, pl_mode = m, pl_owner = w, pl_fingerprint = f\<rparr> in
      [file (S1 @ [''ca.pem'']) (D1 @ [''ca-certs'', ''ca.pem'']) 0x1A4 ho fp,
       file (S1 @ [''server_concat.pem'']) (D1 @ [''cert_server_concat.pem'']) 0x1A0 ho sfp,
       file (S1 @ [''client_concat.pem'']) (D1 @ [''cert_client_concat.pem'']) 0x1A0 ho cfp,
       file (S2 @ [''ca.pem'']) (D2 @ [''ca.pem'']) 0x1A4 ao fp,
       file (S2 @ [''server.pem'']) (D2 @ [''server.pem'']) 0x1A4 ao afp,
       file (S2 @ [''server-key.pem'']) (D2 @ [''server-key.pem'']) 0x180 ao None,
       file (S2 @ [''client.pem'']) (D2 @ [''client.pem'']) 0x1A4 ao bfp,
       file (S2 @ [''client-key.pem'']) (D2 @ [''client-key.pem'']) 0x180 ao None])"

lemma init_plan_within:
  assumes "S1 \<noteq> S2" and "D1 \<parallel> D2"
  shows "plan_within {S1, S2} (init_targets D1 D2) (init_plan D1 D2 S1 S2 ho ao fp sfp cfp afp bfp)"
proof -
  have "D1 @ x \<noteq> D2 @ y" for x y using parallel_append [OF assms(2), of x y] by (auto simp: parallel_def)
  then show ?thesis using assms(1) within_child [of _ "{S1, S2}"]
    by (auto simp: plan_within_def init_plan_def init_targets_def)
qed

lemma provision_plan_places:
  assumes "literal s1 S1" "literal s2 S2" "literal (is_haproxy_cert_dir req) D1" "literal (is_api_certs_dir req) D2"
  shows "provision_plan k req validated ho ao s1 s2 =
    and_do (cert_fingerprint k (path_join s1 ''server.pem'')) (\<lambda>sfp.
    and_do (cert_fingerprint k (path_join s1 ''client.pem'')) (\<lambda>cfp.
    and_do (cert_fingerprint k (path_join s1 ''server.pem'')) (\<lambda>afp.
    and_do (cert_fingerprint k (path_join s2 ''client.pem'')) (\<lambda>bfp.
    give (Inr (init_plan D1 D2 S1 S2 ho ao (Some (vc_fingerprint validated)) (Some sfp) (Some cfp) (Some afp) (Some bfp)))))))"
proof -
  have c: "literal (path_join (is_haproxy_cert_dir req) ''ca-certs'') (D1 @ [''ca-certs''])"
    using literal_join [OF assms(3)] by simp
  have n: "plain_name ''server_concat.pem''" "plain_name ''client_concat.pem''" by simp_all
  note p = plan_file_place [OF assms(1) _ assms(3)] plan_file_place [OF assms(2) _ assms(4)] plan_file_place [OF assms(1) _ c]
  show ?thesis by (simp add: provision_plan_def Let_def server_paths_new_def p init_plan_def)
qed

lemma confined_stage:
  assumes "literal s1 S1" "literal s2 S2"
  shows "confined {S1, S2} (provision_stage k pr req validated ho ao s1 s2)"
  unfolding provision_stage_def Let_def
  by (intro confined_rules confined_generate [OF _ assms(1)] confined_generate [OF _ assms(2)] confined_writes(2) [OF _ assms(1)]
      confined_writes(2) [OF _ assms(2)] confined_copy [OF _ assms(2)]) simp_all

lemma publishes_init:
  assumes "literal s1 S1" "literal s2 S2" "literal (is_haproxy_cert_dir req) D1" "literal (is_api_certs_dir req) D2"
    and "S1 \<noteq> S2" "D1 \<parallel> D2"
  shows "publishes (epoch_stamp k) {S1, S2} (init_targets D1 D2) (is_dry_run req)
    (provision_staged k pr confirm req validated ho ao s1 s2)"
  unfolding provision_staged_def provision_plan_places [OF assms(1-4)] and_do_assoc and_do_give
  by (intro publishes_and_do confined_stage [OF assms(1,2)] confined_rules publishes_init_tail init_plan_within assms(5,6))

section \<open>The whole run\<close>

definition free_targets :: "u64 \<Rightarrow> path \<Rightarrow> path \<Rightarrow> nodes \<Rightarrow> bool" where
  "free_targets stamp D1 D2 N \<longleftrightarrow> (\<forall>t \<in> init_targets D1 D2. free_target stamp N t)"

lemma free_targets_step:
  "free_targets stamp D1 D2 N \<Longrightarrow> D1 \<parallel> D2 \<Longrightarrow> untouched_two D1 D2 N N' \<Longrightarrow> free_targets stamp D1 D2 N'"
  using init_targets_kept [of D1 D2] untouched_two_kept [of D1 D2 N N']
  by (simp add: free_targets_def free_target_def leaf_def)

lemma one_fault_step: "one_fault fs \<Longrightarrow> steady fs fs' \<Longrightarrow> one_fault fs'"
  by (simp add: one_fault_def steady_def)

lemma init_locked_outcome:
  assumes r: "with_lock pr d1 (with_stage k pr d1 (\<lambda>s1. with_stage k pr d2 (body s1))) fs = (r, fs')"
    and s: "secured d1 D1 fs" "secured d2 D2 fs" "rooted (fs_nodes fs)" "plain_suffixes k" "D1 \<parallel> D2"
      "real_dirs (fs_nodes fs) [] (D1 @ [''ca-certs''])" "free_targets stamp D1 D2 (fs_nodes fs)"
    and b: "\<And>s1 s2 S1 S2. literal s1 S1 \<Longrightarrow> literal s2 S2 \<Longrightarrow> S1 \<noteq> S2 \<Longrightarrow> publishes stamp {S1, S2} (init_targets D1 D2) dry (body s1 s2)"
    and one: "one_fault fs" and fail: "dry \<or> (\<exists>e. r = Inl e)"
  shows "untouched_two D1 D2 (fs_nodes fs) (fs_nodes fs')"
  using r s(1)
proof (cases rule: with_lock_frame)
  case (locked fs1 fs2)
  note u = untouched_two_simple(2) [OF locked(2), of D2]
  have g: "grows (fs_nodes fs) (fs_nodes fs1)" using u by (simp add: untouched_two_def)
  have r1: "rooted (fs_nodes fs1)" using locked(2) s(3) by (simp add: locked_tree_def)
  have t: "\<forall>t \<in> init_targets D1 D2. free_target stamp (fs_nodes fs1) t"
    using free_targets_step [OF s(7,5) u] by (simp add: free_targets_def)
  have "untouched_two D1 D2 (fs_nodes fs1) (fs_nodes fs2)"
    by (rule stages_outcome [OF locked(4,3) secured_grows [OF s(2) g] r1 s(4,5) grows_real_dirs [OF g s(6)] t b
        one_fault_step [OF one locked(1)] fail])
  with untouched_two_trans [OF u] locked(5) show ?thesis by simp
qed (simp add: untouched_two_simple)


text \<open>The state of a run before its lock, with the directories \<open>DS\<close> secured.\<close>

definition init_inv :: "path \<Rightarrow> path \<Rightarrow> u64 \<Rightarrow> (string \<times> path) set \<Rightarrow> file_system \<Rightarrow> bool" where
  "init_inv D1 D2 stamp DS fs \<longleftrightarrow> rooted (fs_nodes fs) \<and> one_fault fs \<and> free_targets stamp D1 D2 (fs_nodes fs) \<and>
     (\<forall>(d, D) \<in> DS. secured d D fs)"

definition leaves_two :: "path \<Rightarrow> path \<Rightarrow> u64 \<Rightarrow> (string \<times> path) set \<Rightarrow> bool \<Rightarrow> 'a io \<Rightarrow> bool" where
  "leaves_two D1 D2 stamp DS dry m \<longleftrightarrow> (\<forall>fs r fs'. init_inv D1 D2 stamp DS fs \<longrightarrow> m fs = (r, fs') \<longrightarrow>
     dry \<or> (\<exists>e. r = Inl e) \<longrightarrow> untouched_two D1 D2 (fs_nodes fs) (fs_nodes fs'))"

lemma leaves_two_step:
  assumes "\<And>fs r fs'. init_inv D1 D2 stamp DS fs \<Longrightarrow> m fs = (r, fs') \<Longrightarrow>
      untouched_two D1 D2 (fs_nodes fs) (fs_nodes fs') \<and> (\<forall>a. r = Inr a \<longrightarrow> init_inv D1 D2 stamp DS' fs')"
    and "\<And>a. leaves_two D1 D2 stamp DS' dry (f a)"
  shows "leaves_two D1 D2 stamp DS dry (and_do m f)"
  unfolding leaves_two_def
proof (intro allI impI)
  fix fs r fs'
  assume h: "init_inv D1 D2 stamp DS fs" "and_do m f fs = (r, fs')" "dry \<or> (\<exists>e. r = Inl e)"
  obtain r1 fs1 where 1: "m fs = (r1, fs1)" by force
  note s = assms(1) [OF h(1) 1]
  show "untouched_two D1 D2 (fs_nodes fs) (fs_nodes fs')"
  proof (cases r1)
    case (Inl e)
    with h(2) 1 s show ?thesis by (simp add: and_do_def)
  next
    case (Inr a)
    with h(2) 1 have "f a fs1 = (r, fs')" by (simp add: and_do_def)
    from assms(2) [unfolded leaves_two_def, rule_format, OF _ this h(3)] s Inr untouched_two_trans show ?thesis by blast
  qed
qed

lemma leaves_two_look:
  assumes "quiet m" and "\<And>a. leaves_two D1 D2 stamp DS dry (f a)"
  shows "leaves_two D1 D2 stamp DS dry (and_do m f)"
proof (rule leaves_two_step [OF _ assms(2)])
  fix fs r fs' assume i: "init_inv D1 D2 stamp DS fs" and m: "m fs = (r, fs')"
  note q = quietD [OF assms(1) m]
  then have "init_inv D1 D2 stamp DS fs'" using i one_fault_step by (auto simp: init_inv_def secured_def)
  with q show "untouched_two D1 D2 (fs_nodes fs) (fs_nodes fs') \<and> (\<forall>a. r = Inr a \<longrightarrow> init_inv D1 D2 stamp DS fs')"
    by (simp add: untouched_two_simple)
qed

lemma leaves_two_ensure:
  assumes "D1 \<parallel> D2" and "\<And>fs. init_inv D1 D2 stamp DS fs \<Longrightarrow> prefix (place p) (D1 @ [''ca-certs'']) \<or> place p = D2"
    and "\<And>a. leaves_two D1 D2 stamp (insert (p, place p) DS) dry (f a)"
  shows "leaves_two D1 D2 stamp DS dry (and_do (ensure_secure_dir pr p mode owner allowed) f)"
proof (rule leaves_two_step [OF _ assms(3)])
  fix fs r fs' assume i: "init_inv D1 D2 stamp DS fs" and m: "ensure_secure_dir pr p mode owner allowed fs = (r, fs')"
  note f = ensure_secure_dir_frame [OF m] and u = untouched_two_ensure [OF m assms(2) [OF i]]
  have "init_inv D1 D2 stamp (insert (p, place p) DS) fs'" if "r = Inr a" for a
  proof -
    have e: "ensure_secure_dir pr p mode owner allowed fs = (Inr (), fs')" using m that by simp
    show ?thesis
      using i ensure_secure_dir_rooted [OF e] ensure_secure_dir_ok [OF e] one_fault_step [OF _ f(1)] free_targets_step [OF _ assms(1) u]
        secured_grows [OF _ f(3)] by (auto simp: init_inv_def)
  qed
  with u show "untouched_two D1 D2 (fs_nodes fs) (fs_nodes fs') \<and>
    (\<forall>a. r = Inr a \<longrightarrow> init_inv D1 D2 stamp (insert (p, place p) DS) fs')" by blast
qed

lemma provision_leaves_tree:
  fixes req :: init_server_request
  defines "D1 \<equiv> place (is_haproxy_cert_dir req)" and "D2 \<equiv> place (is_api_certs_dir req)"
  assumes "plain_suffixes k" and "D1 \<parallel> D2"
  shows "leaves_two D1 D2 (epoch_stamp k) {} (is_dry_run req) (provision_server k h confirm req)"
proof -
  let ?d1 = "is_haproxy_cert_dir req" and ?d2 = "is_api_certs_dir req"
  let ?c1 = "path_join ?d1 ''ca-certs''"
  let ?DS = "{(?d2, place ?d2), (?c1, place ?c1), (?d1, place ?d1)}"
  have c: "place ?c1 = D1 @ [''ca-certs'']" if "init_inv D1 D2 s DS fs" "(?d1, place ?d1) \<in> DS" for s DS fs
    using place_literal [OF literal_join [of ?d1 D1]] that by (auto simp: init_inv_def secured_def D1_def)
  have main: "leaves_two D1 D2 (epoch_stamp k) ?DS (is_dry_run req)
     (with_lock pr ?d1 (with_stage k pr ?d1 (\<lambda>s1. with_stage k pr ?d2 (provision_staged k pr' confirm req validated ho ao s1))))"
    for pr pr' validated ho ao
    unfolding leaves_two_def
  proof (intro allI impI)
    fix fs r fs' assume i: "init_inv D1 D2 (epoch_stamp k) ?DS fs"
      and r: "with_lock pr ?d1 (with_stage k pr ?d1 (\<lambda>s1. with_stage k pr ?d2 (provision_staged k pr' confirm req validated ho ao s1))) fs = (r, fs')"
      and fail: "is_dry_run req \<or> (\<exists>e. r = Inl e)"
    have s: "secured ?d1 D1 fs" "secured ?d2 D2 fs" "rooted (fs_nodes fs)" "one_fault fs" "free_targets (epoch_stamp k) D1 D2 (fs_nodes fs)"
      "real_dirs (fs_nodes fs) [] (D1 @ [''ca-certs''])"
      using i c [OF i] by (auto simp: init_inv_def secured_def D1_def D2_def)
    have l: "literal ?d1 D1" "literal ?d2 D2" using s(1,2) by (simp_all add: secured_def)
    show "untouched_two D1 D2 (fs_nodes fs) (fs_nodes fs')"
      by (rule init_locked_outcome [OF r s(1-3) assms(3,4) s(6,5) publishes_init [OF _ _ l _ assms(4)] s(4) fail])
  qed
  have sp: "sp_haproxy_cert_dir (server_paths_new ?d1) = ?d1" "sp_haproxy_ca_dir (server_paths_new ?d1) = ?c1"
    by (simp_all add: server_paths_new_def Let_def)
  have e1: "prefix (place ?d1) (D1 @ [''ca-certs'']) \<or> place ?d1 = D2" "prefix (place ?d2) (D1 @ [''ca-certs'']) \<or> place ?d2 = D2"
    by (simp_all add: D1_def D2_def)
  have e2: "prefix (place ?c1) (D1 @ [''ca-certs'']) \<or> place ?c1 = D2" if "init_inv D1 D2 (epoch_stamp k) {(?d1, place ?d1)} fs" for fs
    using c [OF that] by simp
  show ?thesis
    unfolding provision_server_def Let_def sp
    by (rule leaves_two_look [OF quiet_give] leaves_two_look [OF quiet_load_validated_ca] leaves_two_look [OF quiet_pin_existing]
        leaves_two_ensure [OF assms(4) e1(1)] leaves_two_ensure [OF assms(4) e2] leaves_two_ensure [OF assms(4) e1(2)] main | assumption)+
qed

end
