(* ===== verification/Cert_Init.thy ===== *)
theory Cert_Init
  imports Cert_Init_Frame
begin

text \<open>
  Runs of \<open>provision_server\<close>: what a successful one publishes for HAProxy and for the service, and
  that no other changes a file.
\<close>

section \<open>What the stages hold\<close>

lemma staged_sub: "staged_at SS fs \<Longrightarrow> S \<in> SS \<Longrightarrow> staged_at {S} fs"
  unfolding staged_at_def tidy_def within_def by blast

lemma concat_cert_key_Inr:
  assumes "literal stage S" "staged_at {S} fs" "S \<noteq> []" "plain_name c" "plain_name key" "plain_name n"
    and "holds S fs c b" "holds S fs key kb"
    and "concat_cert_key k pr (path_join stage c) (path_join stage key) (path_join stage n) fs = (Inr (), fs')"
  shows "\<exists>x. fn_kind x = Regular (b @ kb) \<and> fs_nodes fs' = (fs_nodes fs)(S @ [n] \<mapsto> x)"
proof -
  from assms(9) obtain t1 t2 fs1 fs2 where 1: "read_to_string_at (path_join stage c) fs = (Inr t1, fs1)"
    and 2: "read_to_string_at (path_join stage key) fs1 = (Inr t2, fs2)"
    and 3: "write_atomic_impl k pr (path_join stage n) (bytes_of_string (t1 @ t2)) 0x180 None fs2 = (Inr (), fs')"
    by (auto simp: concat_cert_key_def io_simps write_atomic_def)
  note q = quietD [OF quiet_certs(1) 1] quietD [OF quiet_certs(1) 2]
  have d: "real_dirs (fs_nodes fs) [] S" "real_dirs (fs_nodes fs1) [] S" and s2: "staged_at {S} fs2"
    using assms(2) q by (simp_all add: staged_at_def)
  have "t1 = string_of_bytes b" by (rule read_string_holds [OF assms(1,4) d(1) assms(7) 1])
  moreover have "t2 = string_of_bytes kb"
    by (rule read_string_holds [OF assms(1,5) d(2) _ 2]) (use assms(8) q in \<open>simp add: holds_def\<close>)
  moreover have "bytes_of_string (x @ y) = bytes_of_string x @ bytes_of_string y" for x y by (simp add: bytes_of_string_def)
  ultimately show ?thesis using write_stage [OF assms(1,6) s2 assms(3) 3] q by auto
qed

lemma fs_copy_Inr:
  assumes "literal s1 S1" "literal s2 S2" "staged_at {S1} fs" "staged_at {S2} fs" "plain_name n" "holds S1 fs n b"
    and "fs_nodes fs (S2 @ [n]) = None" and "fs_copy pr (path_join s1 n) (path_join s2 n) fs = (Inr (), fs')"
  shows "\<exists>x. fn_kind x = Regular b \<and> fs_nodes fs' = (fs_nodes fs)(S2 @ [n] \<mapsto> x)"
proof -
  let ?fs1 = "fs\<lparr>fs_calls := Suc (fs_calls fs)\<rparr>"
  have d: "real_dirs (fs_nodes ?fs1) [] S1" "real_dirs (fs_nodes ?fs1) [] S2" using assms(3,4) by (simp_all add: staged_at_def)
  note l = literal_join [OF assms(1,5)] literal_join [OF assms(2,5)]
  obtain x where x: "fs_nodes ?fs1 (S1 @ [n]) = Some x" "fn_kind x = Regular b" using assms(6) by (auto simp: holds_def)
  have s: "stat ?fs1 (path_join s1 n) = Inr x" by (rule stat_literal(2) [OF l(1) d(1) x(1)]) (simp add: is_symlink_def x(2))
  have r: "resolve True ?fs1 (path_join s2 n) = Inl Not_Found" by (rule resolve_missing [OF l(2) d(2)]) (simp add: assms(7))
  have e: "entry_at ?fs1 (components (path_join s2 n)) = Inr (S2 @ [n])" by (rule entry_literal [OF l(2) d(2)])
  show ?thesis
    using assms(8) s r e x(2)
    by (auto simp: fs_copy_def tick_def Let_def set_node_def is_file_def split: if_splits
        intro!: exI [of _ "\<lparr>fn_kind = Regular b, fn_mode = fn_mode x, fn_uid = euid pr, fn_gid = egid pr, fn_acl = None\<rparr>"])
qed

lemma verify_quiet_step:
  "verify_issued_cert k c key ca sans sv fs = (Inr (), fs') \<Longrightarrow> fs_nodes fs' = fs_nodes fs"
  using quietD [OF quiet_verify(1)] by blast

text \<open>The stages when the preparation has succeeded.\<close>

definition stages_filled :: "pki \<Rightarrow> init_server_request \<Rightarrow> bytes \<Rightarrow> path \<Rightarrow> path \<Rightarrow> file_system \<Rightarrow> bool" where
  "stages_filled k req cab S1 S2 fs \<longleftrightarrow> (\<exists>sb skb cb ckb ab akb.
     issued_pair k cab {san_token (is_hostname req), san_token (is_ip req)} True sb skb \<and>
     issued_pair k cab {san_token (is_hostname req)} False cb ckb \<and>
     issued_pair k cab {san_token (is_hostname req)} False ab akb \<and>
     holds S1 fs ''ca.pem'' cab \<and> holds S1 fs ''server_concat.pem'' (sb @ skb) \<and> holds S1 fs ''client_concat.pem'' (cb @ ckb) \<and>
     holds S2 fs ''ca.pem'' cab \<and> holds S2 fs ''server.pem'' sb \<and> holds S2 fs ''server-key.pem'' skb \<and>
     holds S2 fs ''client.pem'' ab \<and> holds S2 fs ''client-key.pem'' akb)"

lemma provision_stage_Inr:
  assumes l: "literal s1 S1" "literal s2 S2" and a: "apart {S1, S2}" "S1 \<noteq> S2"
    and st: "staged_at {S1, S2} fs" "\<forall>p. strict_prefix S1 p \<or> strict_prefix S2 p \<longrightarrow> fs_nodes fs p = None"
    and r: "provision_stage k pr req validated ho ao s1 s2 fs = (Inr (), fs')"
  shows "stages_filled k req (bytes_of_string (vc_ca_pem validated)) S1 S2 fs'"
proof -
  let ?cab = "bytes_of_string (vc_ca_pem validated)" and ?h = "path_join s1" and ?a = "path_join s2"
  let ?ss = "{san_token (is_hostname req), san_token (is_ip req)}" and ?cs = "{san_token (is_hostname req)}"
  let ?x = "\<lambda>n. S1 @ [n]" and ?y = "\<lambda>n. S2 @ [n]"
  from r obtain f1 f2 f3 f4 f5 f6 f7 f8 f9 f10 f11
    where 1: "generate_server_cert k pr (vc_issuer validated) (is_hostname req) (is_ip req) s1 fs = (Inr (), f1)"
    and 2: "generate_client_cert k pr (vc_issuer validated) (is_hostname req) s1 f1 = (Inr (), f2)"
    and 3: "generate_client_cert k pr (vc_issuer validated) (is_hostname req) s2 f2 = (Inr (), f3)"
    and 4: "concat_cert_key k pr (?h ''server.pem'') (?h ''server-key.pem'') (?h ''server_concat.pem'') f3 = (Inr (), f4)"
    and 5: "concat_cert_key k pr (?h ''client.pem'') (?h ''client-key.pem'') (?h ''client_concat.pem'') f4 = (Inr (), f5)"
    and 6: "write_atomic_impl k pr (?h ''ca.pem'') ?cab 0x1A4 (Some ho) f5 = (Inr (), f6)"
    and 7: "write_atomic_impl k pr (?a ''ca.pem'') ?cab 0x1A4 (Some ao) f6 = (Inr (), f7)"
    and 8: "fs_copy pr (?h ''server.pem'') (?a ''server.pem'') f7 = (Inr (), f8)"
    and 9: "fs_copy pr (?h ''server-key.pem'') (?a ''server-key.pem'') f8 = (Inr (), f9)"
    and v: "verify_issued_cert k (?h ''server.pem'') (?h ''server-key.pem'') (?h ''ca.pem'') ?ss True f9 = (Inr (), f10)"
      "verify_issued_cert k (?h ''client.pem'') (?h ''client-key.pem'') (?h ''ca.pem'') ?cs False f10 = (Inr (), f11)"
      "verify_issued_cert k (?a ''client.pem'') (?a ''client-key.pem'') (?a ''ca.pem'') ?cs False f11 = (Inr (), fs')"
    by (auto simp: provision_stage_def Let_def io_simps write_atomic_owned_def)
  have ne: "S1 \<noteq> []" "S2 \<noteq> []" using a(1) by (simp_all add: apart_def)
  note wa = confined_writes(2) [unfolded write_atomic_owned_def] and g = confined_generate
  have s: "staged_at {S1, S2} f1" "staged_at {S1, S2} f2" "staged_at {S1, S2} f3" "staged_at {S1, S2} f4" "staged_at {S1, S2} f5"
      "staged_at {S1, S2} f6" "staged_at {S1, S2} f7" "staged_at {S1, S2} f8" "staged_at {S1, S2} f9"
  proof -
    show s1: "staged_at {S1, S2} f1" using confinedD [OF g(2) [OF _ l(1)] a(1) st(1) 1] by simp
    show s2: "staged_at {S1, S2} f2" using confinedD [OF g(1) [OF _ l(1)] a(1) s1 2] by simp
    show s3: "staged_at {S1, S2} f3" using confinedD [OF g(1) [OF _ l(2)] a(1) s2 3] by simp
    show s4: "staged_at {S1, S2} f4" using confinedD [OF g(4) [OF _ l(1)] a(1) s3 4] by simp
    show s5: "staged_at {S1, S2} f5" using confinedD [OF g(4) [OF _ l(1)] a(1) s4 5] by simp
    show s6: "staged_at {S1, S2} f6" using confinedD [OF confined_write [OF _ l(1)] a(1) s5 6] by simp
    show s7: "staged_at {S1, S2} f7" using confinedD [OF confined_write [OF _ l(2)] a(1) s6 7] by simp
    show s8: "staged_at {S1, S2} f8" using confinedD [OF confined_copy [OF _ l(2)] a(1) s7 8] by simp
    show "staged_at {S1, S2} f9" using confinedD [OF confined_copy [OF _ l(2)] a(1) s8 9] by simp
  qed
  note u1 = staged_sub [where S = S1, OF _ insertI1] and u2 = staged_sub [where S = S2, OF _ insertI2 [OF singletonI]]
  have em: "fs_nodes fs (?x n) = None" "fs_nodes fs (?y n) = None" for n using st(2) by (auto simp: strict_prefix_def)
  from generate_pair(1) [OF l(1) u1 [OF st(1)] ne(1) 1] obtain xs xk sb skb where p1: "fn_kind xs = Regular sb" "fn_kind xk = Regular skb"
    "fs_nodes f1 = (fs_nodes fs)(?x ''server.pem'' \<mapsto> xs, ?x ''server-key.pem'' \<mapsto> xk)" by blast
  from generate_pair(2) [OF l(1) u1 [OF s(1)] ne(1) 2] obtain xc xd cb ckb where p2: "fn_kind xc = Regular cb" "fn_kind xd = Regular ckb"
    "fs_nodes f2 = (fs_nodes f1)(?x ''client.pem'' \<mapsto> xc, ?x ''client-key.pem'' \<mapsto> xd)" by blast
  from generate_pair(2) [OF l(2) u2 [OF s(2)] ne(2) 3] obtain ya yb ab akb where p3: "fn_kind ya = Regular ab" "fn_kind yb = Regular akb"
    "fs_nodes f3 = (fs_nodes f2)(?y ''client.pem'' \<mapsto> ya, ?y ''client-key.pem'' \<mapsto> yb)" by blast
  note h = holds_def p1 p2 p3
  obtain x1 where p4: "fn_kind x1 = Regular (sb @ skb)" "fs_nodes f4 = (fs_nodes f3)(?x ''server_concat.pem'' \<mapsto> x1)"
    using concat_cert_key_Inr [OF l(1) u1 [OF s(3)] ne(1) _ _ _ _ _ 4, of sb skb] a(2) by (auto simp: h)
  obtain x2 where p5: "fn_kind x2 = Regular (cb @ ckb)" "fs_nodes f5 = (fs_nodes f4)(?x ''client_concat.pem'' \<mapsto> x2)"
    using concat_cert_key_Inr [OF l(1) u1 [OF s(4)] ne(1) _ _ _ _ _ 5, of cb ckb] a(2) by (auto simp: h p4)
  from write_stage [OF l(1) _ u1 [OF s(5)] ne(1) 6] obtain x3 where p6: "fn_kind x3 = Regular ?cab"
    "fs_nodes f6 = (fs_nodes f5)(?x ''ca.pem'' \<mapsto> x3)" by auto
  from write_stage [OF l(2) _ u2 [OF s(6)] ne(2) 7] obtain y3 where p7: "fn_kind y3 = Regular ?cab"
    "fs_nodes f7 = (fs_nodes f6)(?y ''ca.pem'' \<mapsto> y3)" by auto
  obtain y4 where p8: "fn_kind y4 = Regular sb" "fs_nodes f8 = (fs_nodes f7)(?y ''server.pem'' \<mapsto> y4)"
    using fs_copy_Inr [OF l u1 [OF s(7)] u2 [OF s(7)] _ _ _ 8, of sb] a(2) em by (auto simp: h p4 p5 p6 p7)
  obtain y5 where p9: "fn_kind y5 = Regular skb" "fs_nodes f9 = (fs_nodes f8)(?y ''server-key.pem'' \<mapsto> y5)"
    using fs_copy_Inr [OF l u1 [OF s(8)] u2 [OF s(8)] _ _ _ 9, of skb] a(2) em by (auto simp: h p4 p5 p6 p7 p8)
  have n: "fs_nodes f10 = fs_nodes f9" "fs_nodes f11 = fs_nodes f9" "fs_nodes fs' = fs_nodes f9"
    using verify_quiet_step v by metis+
  have d: "real_dirs (fs_nodes f9) [] S1" "real_dirs (fs_nodes f10) [] S1" "real_dirs (fs_nodes f11) [] S2"
    using s(9) n by (simp_all add: staged_at_def)
  have H: "holds S1 f9 ''server.pem'' sb" "holds S1 f9 ''server-key.pem'' skb" "holds S1 f9 ''ca.pem'' ?cab"
    "holds S1 f10 ''client.pem'' cb" "holds S1 f10 ''client-key.pem'' ckb" "holds S1 f10 ''ca.pem'' ?cab"
    "holds S2 f11 ''client.pem'' ab" "holds S2 f11 ''client-key.pem'' akb" "holds S2 f11 ''ca.pem'' ?cab"
    using a(2) by (auto simp: h p4 p5 p6 p7 p8 p9 n)
  have "issued_pair k ?cab ?ss True sb skb" "issued_pair k ?cab ?cs False cb ckb" "issued_pair k ?cab ?cs False ab akb"
    using verify_issued_cert_Inr [OF l(1) plain_names(3,4,5) d(1) H(1-3) v(1)]
      verify_issued_cert_Inr [OF l(1) plain_names(1,2,5) d(2) H(4-6) v(2)]
      verify_issued_cert_Inr [OF l(2) plain_names(1,2,5) d(3) H(7-9) v(3)] by (simp_all add: issued_pair_def)
  moreover have "holds S1 fs' ''ca.pem'' ?cab" "holds S1 fs' ''server_concat.pem'' (sb @ skb)"
    "holds S1 fs' ''client_concat.pem'' (cb @ ckb)" "holds S2 fs' ''ca.pem'' ?cab" "holds S2 fs' ''server.pem'' sb"
    "holds S2 fs' ''server-key.pem'' skb" "holds S2 fs' ''client.pem'' ab" "holds S2 fs' ''client-key.pem'' akb"
    using a(2) by (auto simp: h p4 p5 p6 p7 p8 p9 n)
  ultimately show ?thesis unfolding stages_filled_def by (intro exI conjI)
qed

section \<open>A run that succeeds\<close>

definition file_as :: "nodes \<Rightarrow> path \<Rightarrow> u32 \<Rightarrow> u32 \<times> u32 \<Rightarrow> bytes \<Rightarrow> bool" where
  "file_as N p mode owner b \<longleftrightarrow> (\<exists>n. N p = Some n \<and> fn_kind n = Regular b \<and> fn_mode n = mode \<and> (fn_uid n, fn_gid n) = owner)"

text \<open>The eight files of a run: for the server a certificate with its key, in one file for HAProxy and
  in two for the service, for clients one of each, and the authority.\<close>

definition provisioned :: "pki \<Rightarrow> init_server_request \<Rightarrow> bytes \<Rightarrow> u32 \<times> u32 \<Rightarrow> u32 \<times> u32 \<Rightarrow> path \<Rightarrow> path \<Rightarrow> nodes \<Rightarrow> bool" where
  "provisioned k req cab ho ao D1 D2 N \<longleftrightarrow> (\<exists>sb skb cb ckb ab akb.
     issued_pair k cab {san_token (is_hostname req), san_token (is_ip req)} True sb skb \<and>
     issued_pair k cab {san_token (is_hostname req)} False cb ckb \<and>
     issued_pair k cab {san_token (is_hostname req)} False ab akb \<and>
     file_as N (D1 @ [''ca-certs'', ''ca.pem'']) 0x1A4 ho cab \<and>
     file_as N (D1 @ [''cert_server_concat.pem'']) 0x1A0 ho (sb @ skb) \<and>
     file_as N (D1 @ [''cert_client_concat.pem'']) 0x1A0 ho (cb @ ckb) \<and>
     file_as N (D2 @ [''ca.pem'']) 0x1A4 ao cab \<and>
     file_as N (D2 @ [''server.pem'']) 0x1A4 ao sb \<and> file_as N (D2 @ [''server-key.pem'']) 0x180 ao skb \<and>
     file_as N (D2 @ [''client.pem'']) 0x1A4 ao ab \<and> file_as N (D2 @ [''client-key.pem'']) 0x180 ao akb)"

lemma provisioned_cong:
  assumes "\<And>x. x \<in> init_targets D1 D2 \<Longrightarrow> N' x = N x"
  shows "provisioned k req cab ho ao D1 D2 N' = provisioned k req cab ho ao D1 D2 N"
proof -
  have "file_as N' x = file_as N x" if "x \<in> init_targets D1 D2" for x
    using assms [OF that] by (intro ext) (simp add: file_as_def)
  then show ?thesis by (simp add: provisioned_def init_targets_def)
qed

lemma provision_publish_Inr:
  assumes "provision_publish k confirm req validated plan fs = (Inr v, fs')" and "\<not> is_dry_run req"
  obtains fs1 bs t where "own_all plan fs = (Inr (), fs1)" "publish_files (epoch_stamp k) plan fs1 = (Inr bs, fs')" "confirm t"
    "is_force req \<or> (\<forall>f \<in> set plan. \<not> path_exists fs1 (pl_target f))"
proof -
  let ?c = "\<lambda>fs. if is_force req then None else find (\<lambda>f. path_exists fs (pl_target f)) plan"
  from assms obtain fs1 bs where "own_all plan fs = (Inr (), fs1)" "publish_files (epoch_stamp k) plan fs1 = (Inr bs, fs')"
    "confirm (summary_text req validated plan)" "?c fs1 = None"
    by (auto simp: provision_publish_def Let_def io_simps split: option.splits if_splits)
  with that show thesis by (auto simp: find_None_iff split: if_splits)
qed

lemma provision_staged_Inr:
  assumes r: "provision_staged k pr confirm req validated ho ao s1 s2 fs = (Inr v, fs')" and dry: "\<not> is_dry_run req"
    and l: "literal s1 S1" "literal s2 S2" "literal (is_haproxy_cert_dir req) D1" "literal (is_api_certs_dir req) D2"
    and p: "D1 \<parallel> D2" "stages_ready D1 D2 S1 S2 fs"
    and d: "real_dirs (fs_nodes fs) [] (D1 @ [''ca-certs''])" "real_dirs (fs_nodes fs) [] D2"
    and f: "free_targets (epoch_stamp k) D1 D2 (fs_nodes fs)"
  shows "provisioned k req (bytes_of_string (vc_ca_pem validated)) ho ao D1 D2 (fs_nodes fs') \<and> (\<exists>t. confirm t) \<and>
    (\<forall>t \<in> init_targets D1 D2. fs_nodes fs' (backup_path t (epoch_stamp k)) = fs_nodes fs t \<and> (is_force req \<or> fs_nodes fs t = None))"
proof -
  let ?SS = "{S1, S2}" and ?T = "init_targets D1 D2" and ?stamp = "epoch_stamp k" and ?cab = "bytes_of_string (vc_ca_pem validated)"
  note a = apart_stages [OF p]
  have st: "staged_at ?SS fs" "\<forall>p. strict_prefix S1 p \<or> strict_prefix S2 p \<longrightarrow> fs_nodes fs p = None"
    using p(2) by (auto simp: stages_ready_def)
  obtain fs1 fs2 fp sfp cfp afp bfp where 1: "provision_stage k pr req validated ho ao s1 s2 fs = (Inr (), fs1)"
    and 2: "fs_nodes fs2 = fs_nodes fs1" "steady fs1 fs2"
    and 3: "provision_publish k confirm req validated (init_plan D1 D2 S1 S2 ho ao fp sfp cfp afp bfp) fs2 = (Inr v, fs')"
  proof -
    from r obtain fs1 plan fs2 where 1: "provision_stage k pr req validated ho ao s1 s2 fs = (Inr (), fs1)"
      and 2: "provision_plan k req validated ho ao s1 s2 fs1 = (Inr plan, fs2)"
      and 3: "provision_publish k confirm req validated plan fs2 = (Inr v, fs')" by (auto simp: provision_staged_def io_simps)
    note pp = provision_plan_places [OF l]
    have "quiet (provision_plan k req validated ho ao s1 s2)" unfolding pp by (intro quiet_rules)
    from quietD [OF this 2] have q: "fs_nodes fs2 = fs_nodes fs1" "steady fs1 fs2" by simp_all
    from 2 [unfolded pp] obtain sfp cfp afp bfp where
      "plan = init_plan D1 D2 S1 S2 ho ao (Some (vc_fingerprint validated)) (Some sfp) (Some cfp) (Some afp) (Some bfp)"
      by (auto simp: io_simps)
    with that 1 q 3 show thesis by blast
  qed
  let ?plan = "init_plan D1 D2 S1 S2 ho ao fp sfp cfp afp bfp"
  from confinedD [OF confined_stage [OF l(1,2)] a(1) st(1) 1] have o: "outside ?SS fs fs2" "staged_at ?SS fs2"
    using 2 by (auto simp: outside_def staged_at_def intro: steady_trans)
  have fill: "stages_filled k req ?cab S1 S2 fs2"
    using provision_stage_Inr [OF l(1,2) a(1,2) st 1] 2(1) by (simp add: stages_filled_def holds_def)
  obtain fs3 bs t where 4: "own_all ?plan fs2 = (Inr (), fs3)" "publish_files ?stamp ?plan fs3 = (Inr bs, fs')" "confirm t"
    "is_force req \<or> (\<forall>f \<in> set ?plan. \<not> path_exists fs3 (pl_target f))"
    using provision_publish_Inr [OF 3 dry] by blast
  have tg: "free_target ?stamp (fs_nodes fs2) t \<and> in_dir (fs_nodes fs2) t \<and> \<not> within ?SS t \<and> \<not> within ?SS (backup_path t ?stamp)"
    if "t \<in> ?T" for t
    by (rule stages_targets [OF p that d _ o(1)]) (use f that in \<open>simp add: free_targets_def\<close>)
  have pw: "plan_within ?SS ?T ?plan" by (rule init_plan_within [OF a(2) p(1)])
  note pub = published_plan [OF pw o(2) a(1) 4(1,2) tg]
  have ft: "pl_target ` set ?plan = ?T" by (auto simp: init_plan_def init_targets_def)
  have same: "fs_nodes fs2 x = fs_nodes fs x" if "x \<in> ?T" for x using tg [OF that] o(1) by (simp add: outside_def)
  have as: "file_as (fs_nodes fs') t m w b"
    if "\<exists>g. \<lparr>pl_staged = S @ [n], pl_target = t, pl_mode = m, pl_owner = w, pl_fingerprint = g\<rparr> \<in> set ?plan"
      "holds S fs2 n b" for S n t m w b
  proof -
    from that(1) obtain g where "\<lparr>pl_staged = S @ [n], pl_target = t, pl_mode = m, pl_owner = w, pl_fingerprint = g\<rparr> \<in> set ?plan" ..
    from bspec [OF pub this] that(2) show ?thesis by (auto simp: file_as_def owned_node_def holds_def)
  qed
  have "provisioned k req ?cab ho ao D1 D2 (fs_nodes fs')"
  proof -
    from fill obtain sb skb cb ckb ab akb where
      "issued_pair k ?cab {san_token (is_hostname req), san_token (is_ip req)} True sb skb"
      "issued_pair k ?cab {san_token (is_hostname req)} False cb ckb" "issued_pair k ?cab {san_token (is_hostname req)} False ab akb"
      and h: "holds S1 fs2 ''ca.pem'' ?cab" "holds S1 fs2 ''server_concat.pem'' (sb @ skb)" "holds S1 fs2 ''client_concat.pem'' (cb @ ckb)"
      "holds S2 fs2 ''ca.pem'' ?cab" "holds S2 fs2 ''server.pem'' sb" "holds S2 fs2 ''server-key.pem'' skb"
      "holds S2 fs2 ''client.pem'' ab" "holds S2 fs2 ''client-key.pem'' akb" unfolding stages_filled_def by blast
    moreover have "file_as (fs_nodes fs') (D1 @ [''ca-certs'', ''ca.pem'']) 0x1A4 ho ?cab"
      "file_as (fs_nodes fs') (D1 @ [''cert_server_concat.pem'']) 0x1A0 ho (sb @ skb)"
      "file_as (fs_nodes fs') (D1 @ [''cert_client_concat.pem'']) 0x1A0 ho (cb @ ckb)"
      "file_as (fs_nodes fs') (D2 @ [''ca.pem'']) 0x1A4 ao ?cab" "file_as (fs_nodes fs') (D2 @ [''server.pem'']) 0x1A4 ao sb"
      "file_as (fs_nodes fs') (D2 @ [''server-key.pem'']) 0x180 ao skb" "file_as (fs_nodes fs') (D2 @ [''client.pem'']) 0x1A4 ao ab"
      "file_as (fs_nodes fs') (D2 @ [''client-key.pem'']) 0x180 ao akb"
      by (rule as [OF _ h(1)] as [OF _ h(2)] as [OF _ h(3)] as [OF _ h(4)] as [OF _ h(5)] as [OF _ h(6)] as [OF _ h(7)] as [OF _ h(8)],
          force simp: init_plan_def)+
    ultimately show ?thesis unfolding provisioned_def by (intro exI conjI)
  qed
  moreover have "\<forall>x \<in> ?T. fs_nodes fs' (backup_path x ?stamp) = fs_nodes fs x \<and> (is_force req \<or> fs_nodes fs x = None)"
  proof
    fix x assume that: "x \<in> ?T"
    have "x \<in> pl_target ` set ?plan" using that ft by simp
    then obtain g where g: "g \<in> set ?plan" "pl_target g = x" by auto
    have "x \<notin> pl_staged ` set ?plan" using tg [OF that] pw by (auto simp: plan_within_def)
    then have n: "fs_nodes fs3 x = fs_nodes fs x" using own_all_Inr [OF 4(1)] pw same [OF that] by (auto simp: plan_within_def)
    have "leaf (fs_nodes fs3) x" using tg [OF that] n same [OF that] by (simp add: free_target_def leaf_def)
    then have "is_force req \<or> fs_nodes fs x = None" using 4(4) g n exists_leaf by auto
    moreover have "fs_nodes fs' (backup_path x ?stamp) = fs_nodes fs2 x" using bspec [OF pub g(1)] g(2) by blast
    ultimately show "fs_nodes fs' (backup_path x ?stamp) = fs_nodes fs x \<and> (is_force req \<or> fs_nodes fs x = None)"
      using same [OF that] by simp
  qed
  ultimately show ?thesis using 4(3) by (intro conjI exI [of _ t])
qed

text \<open>C13: when provision_server succeeds and is not a dry run, the run was confirmed, and HAProxy's
  directory and the service's hold the eight files of a run with their modes and owners: certificates
  for the server, made for exactly the host name and the address, and for clients, made for the host
  name, each valid now, signed by the authority in the node's directory and beside or joined with the
  private key that belongs to it. Without force nothing was there before, and what was replaced is
  its backup.\<close>

theorem provisioned_certificates_published:
  assumes "provision_server k h confirm req fs = (Inr v, fs')" and "\<not> is_dry_run req"
    and "rooted (fs_nodes fs)" and "plain_suffixes k"
    and "D1 = place (is_haproxy_cert_dir req)" and "D2 = place (is_api_certs_dir req)" and "D1 \<parallel> D2"
    and "free_targets (epoch_stamp k) D1 D2 (fs_nodes fs)"
  shows "\<exists>haproxy api ho ao cab. account_by_name h (is_haproxy_user req) = Inr haproxy \<and> account_by_name h (is_api_user req) = Inr api \<and>
    ho = (case is_haproxy_owner req of Some w \<Rightarrow> w | None \<Rightarrow> (0, aa_gid haproxy)) \<and>
    ao = (case is_api_owner req of Some w \<Rightarrow> w | None \<Rightarrow> (aa_uid api, aa_gid api)) \<and>
    file_at fs (path_join (is_cln_dir req) ''ca.pem'') cab \<and> provisioned k req cab ho ao D1 D2 (fs_nodes fs') \<and> (\<exists>t. confirm t) \<and>
    (\<forall>t \<in> init_targets D1 D2. fs_nodes fs' (backup_path t (epoch_stamp k)) = fs_nodes fs t \<and>
      (is_force req \<or> fs_nodes fs t = None))"
proof -
  let ?d1 = "is_haproxy_cert_dir req" and ?d2 = "is_api_certs_dir req" and ?stamp = "epoch_stamp k"
  let ?ho = "\<lambda>a. case is_haproxy_owner req of Some w \<Rightarrow> w | None \<Rightarrow> (0, aa_gid a)"
  let ?ao = "\<lambda>a. case is_api_owner req of Some w \<Rightarrow> w | None \<Rightarrow> (aa_uid a, aa_gid a)"
  have sp: "sp_haproxy_cert_dir (server_paths_new ?d1) = ?d1" "sp_haproxy_ca_dir (server_paths_new ?d1) = path_join ?d1 ''ca-certs''"
    by (simp_all add: server_paths_new_def Let_def)
  obtain haproxy api validated f1 f2 f3 f4 f5 m1 o1 a1 m2 o2 a2 m3 o3 a3 pr cas
    where a: "account_by_name h (is_haproxy_user req) = Inr haproxy" "account_by_name h (is_api_user req) = Inr api"
      and l: "load_validated_ca k (cln_source_paths_new (is_cln_dir req)) fs = (Inr validated, f1)"
      and e: "ensure_secure_dir pr ?d1 m1 o1 a1 f1 = (Inr (), f2)" "ensure_secure_dir pr (path_join ?d1 ''ca-certs'') m2 o2 a2 f2 = (Inr (), f3)"
        "ensure_secure_dir pr ?d2 m3 o3 a3 f3 = (Inr (), f4)"
      and pin: "pin_existing k req validated cas f4 = (Inr (), f5)"
      and r: "with_lock pr ?d1 (with_stage k pr ?d1 (\<lambda>s1. with_stage k pr ?d2 (\<lambda>s2.
        provision_staged k pr confirm req validated (?ho haproxy) (?ao api) s1 s2))) f5 = (Inr v, fs')"
    using assms(1) by (auto simp: provision_server_def io_simps Let_def sp simp del: pin_existing.simps) (rule that; assumption)
  note q = quietD [OF quiet_load_validated_ca l] quietD [OF quiet_pin_existing pin]
  have f: "free_targets ?stamp D1 D2 (fs_nodes f1)" "rooted (fs_nodes f1)" using assms(3,8) q by simp_all
  have l1: "literal ?d1 D1" using ensure_secure_dir_ok [OF e(1)] assms(5) by (simp add: secured_def)
  note i = init_ready [OF l1 assms(6) [symmetric] e f(2)]
  have s: "secured ?d1 D1 f5" "secured ?d2 D2 f5" "rooted (fs_nodes f5)" "real_dirs (fs_nodes f5) [] (D1 @ [''ca-certs''])"
    using i q by (simp_all add: secured_def)
  have u5: "untouched_two D1 D2 (fs_nodes fs) (fs_nodes f5)" using i(1) q by simp
  from r s(1) obtain f6 f7 where k: "locked_tree D1 (fs_nodes f5) (fs_nodes f6)" "secured ?d1 D1 f6"
    "with_stage k pr ?d1 (\<lambda>s1. with_stage k pr ?d2 (\<lambda>s2. provision_staged k pr confirm req validated (?ho haproxy) (?ao api) s1 s2)) f6 = (Inr v, f7)"
    "fs_nodes fs' = fs_nodes f7"
    by (cases rule: with_lock_frame) auto
  have g: "grows (fs_nodes f5) (fs_nodes f6)" and r6: "rooted (fs_nodes f6)" using k(1) s(3) by (simp_all add: locked_tree_def)
  have u6: "untouched_two D1 D2 (fs_nodes fs) (fs_nodes f6)" using untouched_two_trans [OF u5 untouched_two_simple(2) [OF k(1)]] .
  from k(3) k(2) secured_grows [OF s(2) g] r6 assms(4,7) obtain S1 S2 s1 s2 f8 f9 where
    st: "literal s1 S1" "literal s2 S2" "stages_ready D1 D2 S1 S2 f8" "fs_nodes f6 S1 = None" "fs_nodes f6 S2 = None"
      "\<And>x. x \<noteq> S1 \<Longrightarrow> x \<noteq> S2 \<Longrightarrow> fs_nodes f8 x = fs_nodes f6 x"
      "provision_staged k pr confirm req validated (?ho haproxy) (?ao api) s1 s2 f8 = (Inr v, f9)"
      "\<And>x. fs_nodes f7 x = fs_nodes f9 x \<or> ((prefix S1 x \<or> prefix S2 x) \<and> fs_nodes f7 x = None)"
    by (cases rule: two_stages) auto
  have l2: "literal ?d2 D2" using s(2) by (simp add: secured_def)
  have g8: "grows (fs_nodes f6) (fs_nodes f8)" unfolding grows_def using st(4-6) by (metis option.distinct(1))
  have d: "real_dirs (fs_nodes f8) [] (D1 @ [''ca-certs''])" "real_dirs (fs_nodes f8) [] D2"
    using s grows_real_dirs [OF grows_trans [OF g g8]] by (simp_all add: secured_def)
  have np: "\<not> prefix S1 x \<and> \<not> prefix S2 x" if "kept D1 D2 x" for x using that st(3) by (auto simp: kept_def stages_ready_def)
  have same: "fs_nodes f8 x = fs_nodes fs x" if "kept D1 D2 x" for x
    using st(6) [of x] np [OF that] untouched_two_kept [OF u6 that] by auto
  have fin: "fs_nodes fs' x = fs_nodes f9 x" if "kept D1 D2 x" for x using st(8) [of x] np [OF that] k(4) by auto
  note kt = init_targets_kept [OF assms(7)]
  have f8: "free_targets ?stamp D1 D2 (fs_nodes f8)"
    using assms(8) same kt by (simp add: free_targets_def free_target_def leaf_def)
  note P = provision_staged_Inr [OF st(7) assms(2) st(1,2) l1 l2 assms(7) st(3) d f8]
  obtain cab where cab: "file_at fs (path_join (is_cln_dir req) ''ca.pem'') cab" "vc_ca_pem validated = string_of_bytes cab"
    using load_validated_ca_file [OF l] by (auto simp: cln_source_paths_new_def)
  have "provisioned k req cab (?ho haproxy) (?ao api) D1 D2 (fs_nodes fs')"
    using P cab(2) provisioned_cong [of D1 D2 "fs_nodes fs'" "fs_nodes f9"] fin kt(1) by simp
  moreover have "\<forall>t \<in> init_targets D1 D2. fs_nodes fs' (backup_path t ?stamp) = fs_nodes fs t \<and> (is_force req \<or> fs_nodes fs t = None)"
    using P same fin kt by simp
  ultimately show ?thesis using a cab(1) P by blast
qed

definition ex_init :: "bool \<Rightarrow> init_server_request" where
  "ex_init dry = \<lparr>is_cln_dir = ''/cln'', is_hostname = ''10.0.0.7'', is_ip = ''10.0.0.7'', is_haproxy_cert_dir = ''/hap'',
     is_api_certs_dir = ''/out'', is_haproxy_user = ''haproxy'', is_api_user = ''gcob'', is_force = False, is_rotate_ca = False,
     is_dry_run = dry, is_haproxy_owner = None, is_api_owner = None\<rparr>"

lemma ex_init_free: "free_targets (epoch_stamp ex_pki) [''hap''] [''out''] (fs_nodes ex_tree)"
  by (simp add: free_targets_def init_targets_def) code_simp

lemma ex_init_places: "place ''/hap'' = [''hap'']" "[''hap''] \<parallel> [''out'']"
  by code_simp (simp add: parallel_def)

lemma ex_provisioned: "\<exists>v. provision_server ex_pki ex_host (\<lambda>_. True) (ex_init False) ex_tree =
    (Inr v, snd (provision_server ex_pki ex_host (\<lambda>_. True) (ex_init False) ex_tree))"
proof -
  have "\<not> (case fst (provision_server ex_pki ex_host (\<lambda>_. True) (ex_init False) ex_tree) of Inl e \<Rightarrow> True | Inr v \<Rightarrow> False)"
    by code_simp
  then show ?thesis by (auto simp: prod_eq_iff split: sum.splits)
qed

theorem provisioned_certificates_published_witness:
  "\<exists>cab. provisioned ex_pki (ex_init False) cab (0, 0) (0, 0) [''hap''] [''out'']
    (fs_nodes (snd (provision_server ex_pki ex_host (\<lambda>_. True) (ex_init False) ex_tree)))"
proof -
  obtain v where v: "provision_server ex_pki ex_host (\<lambda>_. True) (ex_init False) ex_tree =
    (Inr v, snd (provision_server ex_pki ex_host (\<lambda>_. True) (ex_init False) ex_tree))" using ex_provisioned by blast
  have "account_by_name ex_host ''gcob'' = Inr ex_account" "account_by_name ex_host ''haproxy'' = Inr ex_account" by code_simp+
  with provisioned_certificates_published [OF v _ ex_rooted ex_plain _ _ ex_init_places(2) ex_init_free] show ?thesis
    by (auto simp: ex_init_def place_out ex_init_places(1) ex_account_def)
qed

text \<open>C16: a run of provision_server that fails at any point, with at most one fault of the system, that
  is not confirmed, or that is a dry run, loses no file and changes none: only the three directories
  and those on the way to them can be new or hardened, and new entries are at most the lock in
  HAProxy's directory and the rest of the two stages.\<close>

theorem unsuccessful_init_changes_no_file:
  assumes "provision_server k h confirm req fs = (r, fs')" and "is_dry_run req \<or> (\<exists>e. r = Inl e)"
    and "rooted (fs_nodes fs)" and "plain_suffixes k" and "one_fault fs"
    and "D1 = place (is_haproxy_cert_dir req)" and "D2 = place (is_api_certs_dir req)" and "D1 \<parallel> D2"
    and "free_targets (epoch_stamp k) D1 D2 (fs_nodes fs)"
  shows "untouched_two D1 D2 (fs_nodes fs) (fs_nodes fs')"
  using provision_leaves_tree [OF assms(4), of req h confirm, unfolded leaves_two_def, rule_format, OF _ _ assms(1,2)] assms(3,5-9)
  by (simp add: init_inv_def)

theorem unsuccessful_init_changes_no_file_witness:
  "untouched_two [''hap''] [''out''] (fs_nodes ex_tree)
    (fs_nodes (snd (provision_server ex_pki ex_host (\<lambda>_. False) (ex_init False) ex_tree)))"
proof -
  have "case fst (provision_server ex_pki ex_host (\<lambda>_. False) (ex_init False) ex_tree) of Inl e \<Rightarrow> True | Inr v \<Rightarrow> False"
    by code_simp
  then have "\<exists>e. fst (provision_server ex_pki ex_host (\<lambda>_. False) (ex_init False) ex_tree) = Inl e" by (auto split: sum.splits)
  with unsuccessful_init_changes_no_file [OF prod.collapse [symmetric] _ ex_rooted ex_plain ex_one_fault,
      of "ex_init False" ex_host "\<lambda>_. False" "[''hap'']" "[''out'']"] ex_init_places ex_init_free
  show ?thesis by (simp add: ex_init_def place_out)
qed

end
