(* ===== verification/Cert_Handlers.thy ===== *)
theory Cert_Handlers
  imports Cert_Commands
begin

text \<open>
  The commands around the certificates: \<open>gcob certs list, show, verify, renew\<close> and \<open>gcob sign\<close>
  (\<open>cli/certs.rs\<close>), \<open>gcob init\<close> (\<open>cli/server.rs\<close>), their dispatch (\<open>main.rs\<close>) and \<open>gcob-client init\<close>
  (\<open>client_init.rs\<close>). A command yields the text on its standard output and, when it exits with
  status 1, the text on its standard error. \<open>show_io\<close> renders an error of the system.
\<close>

unbundle bit_operations_syntax

section \<open>Texts\<close>

type_synonym report = "string \<times> string option"

definition line :: "string \<Rightarrow> string" where
  "line s = s @ nl"

definition check_mark :: string where "check_mark = [CHR 0xE2, CHR 0x9C, CHR 0x93]"
definition cross_mark :: string where "cross_mark = [CHR 0xE2, CHR 0x9C, CHR 0x97]"
definition warning_sign :: string where "warning_sign = [CHR 0xE2, CHR 0x9A, CHR 0xA0]"
definition two_bars :: string where "two_bars = [CHR 0xE2, CHR 0x94, CHR 0x80, CHR 0xE2, CHR 0x94, CHR 0x80]"

definition show_bool :: "bool \<Rightarrow> string" where
  "show_bool b = (if b then ''true'' else ''false'')"

text \<open>\<open>{:<32}\<close> of an ASCII text\<close>

definition pad32 :: "string \<Rightarrow> string" where
  "pad32 s = s @ replicate (32 - length s) (CHR '' '')"

section \<open>gcob certs list\<close>

text \<open>The permissions of a key as \<open>list\<close> judges them.\<close>

definition key_status :: "u32 \<Rightarrow> string" where
  "key_status mode =
     (if mode = 0x100 then check_mark @ '' Read-only (0400)''
      else if mode AND 0x04 = 0 \<and> mode AND 0x02 = 0 \<and> mode AND 0x20 = 0 \<and> mode AND 0x10 = 0 \<and> mode AND 0x01 = 0
      then check_mark @ '' Restricted'' else cross_mark @ '' Insecure'')"

definition file_status :: "pki \<Rightarrow> (io_error \<Rightarrow> string) \<Rightarrow> string \<Rightarrow> string \<Rightarrow> file_system \<Rightarrow> string \<times> file_system" where
  "file_status k show_io dir name fs =
     (let p = path_join dir name; head = ''    '' @ pad32 name @ '' ''
      in if \<not> exists_at fs p then (line (head @ cross_mark @ '' Not found''), fs)
         else if ends_with ''-key.pem'' name
         then (case stat fs p of
             Inr meta \<Rightarrow> (line (head @ key_status (perm_bits meta)), fs)
           | Inl e \<Rightarrow> (line (head @ cross_mark @ '' '' @ show_io e), fs))
         else (case parse_cert k p fs of
             (Inr info, fs1) \<Rightarrow> (line (head @
               (if 0 < ci_days_remaining info
                then check_mark @ '' Valid ('' @ fmt_int (ci_days_remaining info) @ '' days)''
                else cross_mark @ '' Expired ('' @ fmt_int (- ci_days_remaining info) @ '' days ago)'')), fs1)
           | (Inl e, fs1) \<Rightarrow> (line (head @ cross_mark @ '' Parse error: '' @ display_cert_error show_io e), fs1)))"

fun file_statuses :: "pki \<Rightarrow> (io_error \<Rightarrow> string) \<Rightarrow> string \<Rightarrow> string list \<Rightarrow> file_system \<Rightarrow> string \<times> file_system" where
  "file_statuses k show_io dir [] fs = ('''', fs)"
| "file_statuses k show_io dir (name # names) fs =
     (let (t, fs1) = file_status k show_io dir name fs; (ts, fs2) = file_statuses k show_io dir names fs1 in (t @ ts, fs2))"

definition print_cert_status :: "pki \<Rightarrow> (io_error \<Rightarrow> string) \<Rightarrow> string \<Rightarrow> string \<Rightarrow> string list \<Rightarrow> file_system
    \<Rightarrow> string \<times> file_system" where
  "print_cert_status k show_io label dir files fs =
     (if \<not> exists_at fs dir then (line (''  '' @ label) @ line (''    (directory not found)'' @ nl), fs)
      else let (t, fs1) = file_statuses k show_io dir files fs in (line (''  '' @ label) @ t @ nl, fs1))"

text \<open>\<open>Error: \<dots>\<close> on the standard error\<close>

definition failed :: "(io_error \<Rightarrow> string) \<Rightarrow> string \<Rightarrow> cert_error \<Rightarrow> report" where
  "failed show_io out e = (out, Some (line (''Error: '' @ display_cert_error show_io e)))"

definition handle_list :: "pki \<Rightarrow> (io_error \<Rightarrow> string) \<Rightarrow> host \<Rightarrow> bool \<Rightarrow> file_system \<Rightarrow> report \<times> file_system" where
  "handle_list k show_io h server fs =
     (case check_gcob_access h of
        Inl e \<Rightarrow> (failed show_io '''' e, fs)
      | Inr _ \<Rightarrow>
          (let out = line (''Discovering certificates...'' @ nl)
           in if server \<and> \<not> is_server_env h fs
              then ((out, Some (line ''Error: Server certificates not available.'' @
                line ''The Core Lightning node must be running on this machine to list server certificates.'')), fs)
              else case default_cert_dir h of
                Inl e \<Rightarrow> (failed show_io out e, fs)
              | Inr client_dir \<Rightarrow>
                  (let (t1, fs1) = print_cert_status k show_io ''Client Certificates:'' client_dir
                         [''ca.pem'', ''client.pem'', ''client-key.pem''] fs
                   in if \<not> server then ((out @ t1, None), fs1)
                      else let (t2, fs2) = print_cert_status k show_io ''HAProxy Certificates:'' ''/etc/haproxy/certs''
                             [''ca-certs/ca.pem'', ''ca-certs/ca-key.pem'', ''cert_server_concat.pem'',
                              ''cert_client_concat.pem''] fs1;
                           home = (case env_var h ''HOME'' of Some d \<Rightarrow> d | None \<Rightarrow> ''/root'');
                           (t3, fs3) = print_cert_status k show_io ''CLN Certificates:'' (home @ ''/.lightning/bitcoin'')
                             [''ca.pem'', ''ca-key.pem'', ''server-key.pem''] fs2
                      in ((out @ t1 @ t2 @ t3, None), fs3))))"

section \<open>gcob certs show\<close>

definition show_info :: "cert_info \<Rightarrow> string" where
  "show_info info =
     line (''  File:       '' @ ci_file info) @ line (''  Subject:    '' @ ci_subject info) @
     line (''  Issuer:     '' @ ci_issuer info) @ line (''  Serial:     '' @ ci_serial info) @
     line (''  Not Before: '' @ ci_not_before info) @ line (''  Not After:  '' @ ci_not_after info) @
     line (''  Status:     '' @
       (if 0 < ci_days_remaining info
        then check_mark @ '' Valid ('' @ fmt_int (ci_days_remaining info) @ '' days remaining)''
        else cross_mark @ '' Expired ('' @ fmt_int (- ci_days_remaining info) @ '' days ago)'')) @
     line (''  Is CA:      '' @ show_bool (ci_is_ca info)) @
     (if ci_sans info = [] then line ''  SANs:       None''
      else line ''  SANs:'' @ concat (map (\<lambda>s. line (''    - '' @ s)) (ci_sans info)))"

definition handle_show :: "pki \<Rightarrow> (io_error \<Rightarrow> string) \<Rightarrow> host \<Rightarrow> string \<Rightarrow> file_system \<Rightarrow> report \<times> file_system" where
  "handle_show k show_io h cert_path fs =
     (case check_gcob_access h of
        Inl e \<Rightarrow> (failed show_io '''' e, fs)
      | Inr _ \<Rightarrow>
          (let out = line (''=== Certificate Details ==='' @ nl)
           in case parse_cert k cert_path fs of
                (Inr info, fs1) \<Rightarrow> ((out @ show_info info, None), fs1)
              | (Inl e, fs1) \<Rightarrow>
                  ((out, Some (line (''Error parsing certificate: '' @ display_cert_error show_io e))), fs1)))"

section \<open>gcob certs verify\<close>

text \<open>An item of a section prints its text and passes or fails.\<close>

type_synonym item = "file_system \<Rightarrow> (string \<times> bool) \<times> file_system"

fun run_items :: "item list \<Rightarrow> file_system \<Rightarrow> (string \<times> bool list) \<times> file_system" where
  "run_items [] fs = (('''', []), fs)"
| "run_items (item # items) fs =
     (let ((t, r), fs1) = item fs; ((ts, rs), fs2) = run_items items fs1 in ((t @ ts, r # rs), fs2))"

text \<open>Whether two files have the same content, when the second exists.\<close>

definition compare_ca :: "string option \<Rightarrow> string \<Rightarrow> file_system \<Rightarrow> string \<times> file_system" where
  "compare_ca client_cert_dir ca_path fs = (case client_cert_dir of
     None \<Rightarrow> ('''', fs)
   | Some dir \<Rightarrow>
       (let client_ca = path_join dir ''ca.pem''
        in if \<not> exists_at fs client_ca then ('''', fs)
           else let (a, fs1) = read_at ca_path fs; (b, fs2) = read_at client_ca fs1
                in (line (''        Compare: '' @
                  (case (a, b) of
                     (Inr x, Inr y) \<Rightarrow>
                       if x = y then check_mark @ '' Matches '' @ client_ca
                       else cross_mark @ '' Does NOT match '' @ client_ca
                   | _ \<Rightarrow> cross_mark @ '' Error reading files'')), fs2)))"

definition ca_item :: "pki \<Rightarrow> (io_error \<Rightarrow> string) \<Rightarrow> string \<Rightarrow> string option \<Rightarrow> string \<Rightarrow> item" where
  "ca_item k show_io label client_cert_dir ca_path fs =
     (if \<not> exists_at fs ca_path then ((line (label @ '': '' @ cross_mark @ '' Not found''), False), fs)
      else case parse_cert k ca_path fs of
        (Inl e, fs1) \<Rightarrow>
          ((line (label @ '': '' @ cross_mark @ '' Parse error: '' @ display_cert_error show_io e), False), fs1)
      | (Inr info, fs1) \<Rightarrow>
          (let (t, fs2) = compare_ca client_cert_dir ca_path fs1
           in ((line label @ line (''        Subject: '' @ ci_subject info) @
              line (''        Is CA:   '' @ show_bool (ci_is_ca info)) @
              line (''        Status:  '' @
                (if ci_is_ca info then check_mark @ '' Self-signed CA'' else cross_mark @ '' Not a CA certificate'')) @ t,
              ci_is_ca info), fs2)))"

definition show_sans :: "pki \<Rightarrow> string \<Rightarrow> file_system \<Rightarrow> string \<times> file_system" where
  "show_sans k p fs = (case parse_cert k p fs of
     (Inr info, fs1) \<Rightarrow>
       (if ci_sans info = [] then '''' else line ''        SANs:'' @ concat (map (\<lambda>s. line (''          - '' @ s)) (ci_sans info)), fs1)
   | (Inl _, fs1) \<Rightarrow> ('''', fs1))"

definition san_check :: "pki \<Rightarrow> (io_error \<Rightarrow> string) \<Rightarrow> string option \<Rightarrow> string \<Rightarrow> file_system \<Rightarrow> string \<times> file_system" where
  "san_check k show_io hostname p fs = (case hostname of
     None \<Rightarrow> ('''', fs)
   | Some n \<Rightarrow> (case check_san_match k p n fs of
       (Inr True, fs1) \<Rightarrow> (line (''        SAN Check: '' @ check_mark @ '' Matches '' @ quoted n), fs1)
     | (Inr False, fs1) \<Rightarrow> (line (''        SAN Check: '' @ cross_mark @ '' Does NOT match '' @ quoted n), fs1)
     | (Inl e, fs1) \<Rightarrow> (line (''        SAN Check: '' @ cross_mark @ '' Error: '' @ display_cert_error show_io e), fs1)))"

text \<open>\<open>hostname\<close> is given where the section checks names and prints the errors of the chain.\<close>

definition chain_item :: "pki \<Rightarrow> (io_error \<Rightarrow> string) \<Rightarrow> string \<Rightarrow> string option \<Rightarrow> string \<Rightarrow> string \<Rightarrow> item" where
  "chain_item k show_io label hostname cert_path ca_path fs =
     (if \<not> exists_at fs cert_path then ((line (nl @ label @ '': '' @ cross_mark @ '' Not found''), False), fs)
      else case verify_signed_by k cert_path ca_path fs of
        (Inl e, fs1) \<Rightarrow>
          ((line (nl @ label @ '': '' @ cross_mark @ '' Error: '' @ display_cert_error show_io e), False), fs1)
      | (Inr result, fs1) \<Rightarrow>
          (let (sans, fs2) = show_sans k cert_path fs1; (check, fs3) = san_check k show_io hostname cert_path fs2;
               errors = (if hostname = None then '''' else concat (map (\<lambda>e. line (''               Error: '' @ e)) (cr_errors result)))
           in ((line (nl @ label) @ line (''        Subject: '' @ cr_subject result) @
              line (''        Issuer:  '' @ cr_issuer result) @
              (if cr_signed_by_ca result then line (''        Chain:   '' @ check_mark @ '' Signed by CA'')
               else line (''        Chain:   '' @ cross_mark @ '' NOT signed by CA'') @ errors) @
              line (''        Expiry:  '' @
                (if cr_expired result then cross_mark @ '' Expired ('' @ fmt_int (- cr_days_remaining result) @ '' days ago)''
                 else check_mark @ '' Valid ('' @ fmt_int (cr_days_remaining result) @ '' days remaining)'')) @ sans @ check,
              cr_signed_by_ca result \<and> \<not> cr_expired result), fs3)))"

definition key_item :: "(io_error \<Rightarrow> string) \<Rightarrow> string \<Rightarrow> string \<Rightarrow> item" where
  "key_item show_io label p fs =
     (if \<not> exists_at fs p then ((line (nl @ label @ '': '' @ cross_mark @ '' Not found''), False), fs)
      else case stat fs p of
        Inl e \<Rightarrow> ((line (nl @ label @ '': '' @ cross_mark @ '' '' @ show_io e), False), fs)
      | Inr meta \<Rightarrow>
          (let mode = perm_bits meta
           in ((line (nl @ label) @ line (''        Permissions: '' @
              (if mode = 0x100 then check_mark @ '' 0400 (read-only)''
               else cross_mark @ '' '' @ fmt_mode mode @ '' (expected 0400)'')), mode = 0x100), fs)))"

definition verify_api_section :: "pki \<Rightarrow> (io_error \<Rightarrow> string) \<Rightarrow> string \<Rightarrow> file_system \<Rightarrow> (string \<times> bool list) \<times> file_system" where
  "verify_api_section k show_io cert_dir fs =
     (let ((t, rs), fs1) = run_items [ca_item k show_io ''  ca.pem'' None (path_join cert_dir ''ca.pem'')] fs
      in ((line (two_bars @ '' API Certificates ('' @ cert_dir @ '') '' @ two_bars @ nl) @ t, rs), fs1))"

definition verify_haproxy_section :: "pki \<Rightarrow> (io_error \<Rightarrow> string) \<Rightarrow> string \<Rightarrow> string \<Rightarrow> string \<Rightarrow> file_system
    \<Rightarrow> (string \<times> bool list) \<times> file_system" where
  "verify_haproxy_section k show_io haproxy_dir client_cert_dir hostname fs =
     (let ca_path = path_join (path_join haproxy_dir ''ca-certs'') ''ca.pem'';
          ((t, rs), fs1) = run_items
            [ca_item k show_io ''  [1/3] ca-certs/ca.pem'' (Some client_cert_dir) ca_path,
             chain_item k show_io ''  [2/3] cert_server_concat.pem'' (Some hostname) (path_join haproxy_dir ''cert_server_concat.pem'') ca_path,
             chain_item k show_io ''  [3/3] cert_client_concat.pem'' None (path_join haproxy_dir ''cert_client_concat.pem'') ca_path] fs
      in ((line (nl @ two_bars @ '' HAProxy Certificates ('' @ haproxy_dir @ '') '' @ two_bars @ nl) @ t, rs), fs1))"

definition verify_cln_section :: "pki \<Rightarrow> (io_error \<Rightarrow> string) \<Rightarrow> string \<Rightarrow> string \<Rightarrow> file_system
    \<Rightarrow> (string \<times> bool list) \<times> file_system" where
  "verify_cln_section k show_io cln_dir client_cert_dir fs =
     (let head = line (nl @ two_bars @ '' CLN Certificates ('' @ cln_dir @ '') '' @ two_bars @ nl)
      in if \<not> exists_at fs cln_dir
         then ((head @ line (''  '' @ warning_sign @ '' Skipped: Directory not found ('' @ cln_dir @ '')'') @
           line ''  Core Lightning node may not be installed on this server.'', []), fs)
         else let ((t, rs), fs1) = run_items
             [ca_item k show_io ''  [1/3] ca.pem'' (Some client_cert_dir) (path_join cln_dir ''ca.pem''),
              key_item show_io ''  [2/3] ca-key.pem'' (path_join cln_dir ''ca-key.pem''),
              key_item show_io ''  [3/3] server-key.pem'' (path_join cln_dir ''server-key.pem'')] fs
           in ((head @ t, rs), fs1))"

definition verify_ca_section :: "pki \<Rightarrow> (io_error \<Rightarrow> string) \<Rightarrow> string \<Rightarrow> file_system \<Rightarrow> (string \<times> bool list) \<times> file_system" where
  "verify_ca_section k show_io cert_dir = run_items [ca_item k show_io ''  [1/1] ca.pem'' None (path_join cert_dir ''ca.pem'')]"

definition verify_client_section :: "pki \<Rightarrow> (io_error \<Rightarrow> string) \<Rightarrow> string \<Rightarrow> string \<Rightarrow> file_system
    \<Rightarrow> (string \<times> bool list) \<times> file_system" where
  "verify_client_section k show_io cert_dir hostname = run_items
     [ca_item k show_io ''  [1/3] ca.pem'' None (path_join cert_dir ''ca.pem''),
      chain_item k show_io ''  [2/3] client.pem'' (Some hostname) (path_join cert_dir ''client.pem'') (path_join cert_dir ''ca.pem''),
      key_item show_io ''  [3/3] client-key.pem'' (path_join cert_dir ''client-key.pem'')]"

datatype verify_subcommand = Verify_Ca | Verify_Server | Verify_Client | Verify_All

type_synonym section_run = "file_system \<Rightarrow> (string \<times> bool list) \<times> file_system"

fun run_sections :: "section_run list \<Rightarrow> section_run" where
  "run_sections [] fs = (('''', []), fs)"
| "run_sections (s # ss) fs =
     (let ((t, rs), fs1) = s fs; ((ts, rss), fs2) = run_sections ss fs1 in ((t @ ts, rs @ rss), fs2))"

definition printed :: "string \<Rightarrow> section_run" where
  "printed t fs = ((t, []), fs)"

definition cln_sections :: "pki \<Rightarrow> (io_error \<Rightarrow> string) \<Rightarrow> string \<Rightarrow> string option \<Rightarrow> section_run" where
  "cln_sections k show_io cert_dir cln_dir = (case cln_dir of
     Some d \<Rightarrow> verify_cln_section k show_io (cs_dir (cln_source_paths_new d)) cert_dir
   | None \<Rightarrow> printed (line (''  (CLN certificates skipped: pass --cln-dir <PATH> to verify them)'' @ nl)))"

definition target_sections :: "pki \<Rightarrow> (io_error \<Rightarrow> string) \<Rightarrow> string \<Rightarrow> string \<Rightarrow> string option \<Rightarrow> bool
    \<Rightarrow> verify_subcommand \<Rightarrow> section_run list" where
  "target_sections k show_io cert_dir hostname cln_dir is_server target =
     (let haproxy = verify_haproxy_section k show_io (sp_haproxy_cert_dir server_paths_default) cert_dir hostname;
          cln = cln_sections k show_io cert_dir cln_dir
      in case target of
           Verify_Ca \<Rightarrow> [verify_ca_section k show_io cert_dir]
         | Verify_Server \<Rightarrow>
             if is_server then [haproxy, cln]
             else [printed (line (warning_sign @ '' Warning: '' @ quoted ''verify server'' @ '' is not applicable in client mode.'') @
               line ''  Server certificates are only available on server machines.'' @
               line (''  Use '' @ quoted ''gcob certs verify'' @ '' to verify client certificates.'' @ nl))]
         | Verify_Client \<Rightarrow> [verify_client_section k show_io cert_dir hostname]
         | Verify_All \<Rightarrow>
             verify_client_section k show_io cert_dir hostname #
             (if is_server then [verify_api_section k show_io cert_dir, haproxy, cln] else []))"

definition handle_verify :: "pki \<Rightarrow> (io_error \<Rightarrow> string) \<Rightarrow> host \<Rightarrow> string \<Rightarrow> string option \<Rightarrow> string option
    \<Rightarrow> verify_subcommand option \<Rightarrow> file_system \<Rightarrow> report \<times> file_system" where
  "handle_verify k show_io h cert_dir expected_hostname cln_dir target fs =
     (case check_gcob_access h of
        Inl e \<Rightarrow> (failed show_io '''' e, fs)
      | Inr _ \<Rightarrow>
          (let hostname = (case expected_hostname of Some n \<Rightarrow> n | None \<Rightarrow> ''localhost'');
               is_server = is_server_env h fs;
               sections = target_sections k show_io cert_dir hostname cln_dir is_server
                 (case target of Some t \<Rightarrow> t | None \<Rightarrow> Verify_All);
               ((t, results), fs1) = run_sections sections fs
           in ((line (''=== Certificate Verification ('' @ (if is_server then ''Server'' else ''Client'') @ '' Mode) ==='' @ nl) @ t @
              line (nl @ ''Verification complete: '' @ fmt_nat (length (filter id results)) @ ''/'' @
                fmt_nat (length results) @ '' passed''), None), fs1)))"

end
