(* ===== verification/Cert_Cli.thy ===== *)
theory Cert_Cli
  imports Cert_Handlers
begin

text \<open>
  The commands that issue certificates and the dispatch of all of them: \<open>certs renew\<close>, \<open>sign\<close>
  (\<open>cli/certs.rs\<close>), \<open>init\<close> (\<open>cli/server.rs\<close>), and \<open>gcob-client init\<close>
  (\<open>client_init.rs\<close>). What the standard input answers is the parameter \<open>answer\<close>.
\<close>

section \<open>gcob certs renew\<close>

record renew_args =
  ra_force :: bool
  ra_server_hostname :: "string option"
  ra_server_ip :: "string option"
  ra_cln_dir :: string
  ra_init_ca :: bool
  ra_rotate_ca :: bool
  ra_api_user :: string
  ra_allow_loopback :: bool
  ra_dry_run :: bool

definition show_files :: "published_file list \<Rightarrow> string" where
  "show_files files = concat (map (\<lambda>f. line (''  '' @ show_path (pf_path f) @ '' (mode '' @ fmt_mode (pf_mode f) @ '')'' @
     (case pf_fingerprint f of Some fp \<Rightarrow> '' sha256:'' @ fp | None \<Rightarrow> ''''))) files)"

definition dry_run_line :: string where
  "dry_run_line = line ''=== Dry run complete: no files were written ===''"

text \<open>The days left when the installed certificate is good for more than 30.\<close>

definition still_valid :: "pki \<Rightarrow> string \<Rightarrow> file_system \<Rightarrow> int option \<times> file_system" where
  "still_valid k server_path fs =
     (if exists_at fs server_path
      then (case days_until_expiry k server_path fs of
          (Inr days, fs1) \<Rightarrow> (if 30 < days then Some days else None, fs1)
        | (Inl _, fs1) \<Rightarrow> (None, fs1))
      else (None, fs))"

definition renew_request_of :: "string \<Rightarrow> renew_args \<Rightarrow> renew_request" where
  "renew_request_of cert_dir args =
     \<lparr>rq_cln_dir = ra_cln_dir args, rq_cert_dir = cert_dir, rq_hostname = ra_server_hostname args,
      rq_ip = ra_server_ip args, rq_init_ca = ra_init_ca args, rq_rotate_ca = ra_rotate_ca args,
      rq_api_user = ra_api_user args, rq_allow_loopback = ra_allow_loopback args,
      rq_dry_run = ra_dry_run args, rq_owner_override = None\<rparr>"

definition renew_report :: "renew_summary \<Rightarrow> string" where
  "renew_report summary =
     nl @ (if rs_dry_run summary then dry_run_line else line ''=== Certificates renewed ==='') @ nl @
     line (''  Identity:       '' @ fst (rs_identity summary) @ '' ('' @ snd (rs_identity summary) @ '')'') @
     line (''  CA fingerprint: '' @ rs_ca_fingerprint summary) @ show_files (rs_files summary)"

definition handle_renew :: "pki \<Rightarrow> (io_error \<Rightarrow> string) \<Rightarrow> host \<Rightarrow> string \<Rightarrow> renew_args \<Rightarrow> file_system
    \<Rightarrow> report \<times> file_system" where
  "handle_renew k show_io h cert_dir args fs =
     (case require_server h fs ''certs renew'' of
        Inl e \<Rightarrow> (('''', Some (line (''Error: '' @ e))), fs)
      | Inr _ \<Rightarrow>
          (case check_gcob_access h of
             Inl e \<Rightarrow> (failed show_io '''' e, fs)
           | Inr _ \<Rightarrow>
               (let out = line (''=== Renewing Certificates ==='' @ nl);
                    (valid, fs1) = (if ra_force args then (None, fs)
                      else still_valid k (path_join cert_dir ''server.pem'') fs)
                in case valid of
                     Some days \<Rightarrow>
                       ((out @ line (''Server certificate is still valid for '' @ fmt_int days @ '' days.'') @
                         line (''Use `--force` to renew anyway.'' @ nl), None), fs1)
                   | None \<Rightarrow>
                       (case renew_certificates k h (renew_request_of cert_dir args) fs1 of
                          (Inr summary, fs2) \<Rightarrow> ((out @ renew_report summary, None), fs2)
                        | (Inl e, fs2) \<Rightarrow> (failed show_io out e, fs2)))))"

section \<open>gcob sign\<close>

record sign_args =
  sa_csr :: string
  sa_hostname :: string
  sa_cln_dir :: string
  sa_output :: string
  sa_force :: bool
  sa_dry_run :: bool
  sa_expected_ca_fingerprint :: "string option"

definition sign_request_of :: "sign_args \<Rightarrow> sign_request" where
  "sign_request_of args =
     \<lparr>sr_csr = sa_csr args, sr_hostname = sa_hostname args, sr_cln_dir = sa_cln_dir args,
      sr_output = sa_output args, sr_force = sa_force args, sr_dry_run = sa_dry_run args,
      sr_expected_ca_fingerprint = sa_expected_ca_fingerprint args, sr_owner_override = None\<rparr>"

definition sign_report :: "sign_args \<Rightarrow> sign_summary \<Rightarrow> string" where
  "sign_report args summary =
     nl @ (if ss_dry_run summary then dry_run_line else line ''=== Certificate signed successfully ==='') @ nl @
     line (''  Subject:        '' @ sa_hostname args) @ line (''  CA fingerprint: '' @ ss_ca_fingerprint summary) @
     line (''  Cert:           '' @ ss_path summary @ '' sha256:'' @ ss_cert_fingerprint summary) @ nl @
     line ''Send to client:'' @ line (''  '' @ sa_cln_dir args @ ''/ca.pem'') @ line (''  '' @ ss_path summary)"

text \<open>The error is returned to \<open>main\<close>, which prints it.\<close>

definition handle_sign :: "pki \<Rightarrow> host \<Rightarrow> sign_args \<Rightarrow> file_system \<Rightarrow> (string \<times> (cert_error + unit)) \<times> file_system" where
  "handle_sign k h args fs =
     (case check_gcob_access h of
        Inl e \<Rightarrow> (('''', Inl e), fs)
      | Inr _ \<Rightarrow>
          (let out = line (''=== Signing Client Certificate ==='' @ nl)
           in case sign_csr_file k h (sign_request_of args) fs of
                (Inl e, fs1) \<Rightarrow> ((out, Inl e), fs1)
              | (Inr summary, fs1) \<Rightarrow> ((out @ sign_report args summary, Inr ()), fs1)))"

section \<open>gcob init\<close>

record init_server_args =
  ia_force :: bool
  ia_no_confirm :: bool
  ia_hostname :: "string option"
  ia_ip :: "string option"
  ia_cln_dir :: string
  ia_haproxy_user :: string
  ia_api_user :: string
  ia_haproxy_cert_dir :: string
  ia_api_certs_dir :: "string option"
  ia_rotate_ca :: bool
  ia_allow_loopback :: bool
  ia_dry_run :: bool

text \<open>What the host answers about itself.\<close>

record detected =
  dt_hostname :: "cert_error + string"
  dt_ip :: "cert_error + string"

text \<open>\<open>[y/N]\<close>: the answer counts in any case of its letters and with white space around it. No letter
  outside ASCII has a lower case among those of the words, so \<open>to_lowercase\<close> can be that of ASCII.\<close>

definition said_yes :: "string \<Rightarrow> bool" where
  "said_yes answer \<longleftrightarrow> to_ascii_lowercase (trim answer) \<in> {''y'', ''yes''}"

definition confirm_init :: "bool \<Rightarrow> string \<Rightarrow> string \<Rightarrow> bool" where
  "confirm_init no_confirm answer summary \<longleftrightarrow> no_confirm \<or> said_yes answer"

definition init_identity :: "init_server_args \<Rightarrow> detected \<Rightarrow> cert_error + string \<times> string" where
  "init_identity args d =
     and_then (resolve_server_identity (dt_hostname d) (dt_ip d) (ia_hostname args) (ia_ip args) ''localhost'') (\<lambda>identity.
     and_then (case ri_ip identity of
         Some ip \<Rightarrow> Inr ip
       | None \<Rightarrow> if ia_allow_loopback args then Inr ''127.0.0.1''
           else Inl (other_error ''Cannot detect the server IP; pass --ip <IP>'')) (\<lambda>ip.
     and_then (validate_hostname (ri_hostname identity) (ia_allow_loopback args)) (\<lambda>_.
     and_then (validate_unicast_ip ip (ia_allow_loopback args)) (\<lambda>_.
     Inr (ri_hostname identity, ip)))))"

definition init_request :: "host \<Rightarrow> init_server_args \<Rightarrow> detected \<Rightarrow> cert_error + init_server_request" where
  "init_request h args d =
     and_then (check_gcob_access h) (\<lambda>_.
     and_then (init_identity args d) (\<lambda>(hostname, ip).
     and_then (case ia_api_certs_dir args of Some dir \<Rightarrow> Inr dir
       | None \<Rightarrow> and_then (client_paths_default h) (\<lambda>p. Inr (cp_cert_dir p))) (\<lambda>api_certs_dir.
     Inr \<lparr>is_cln_dir = ia_cln_dir args, is_hostname = hostname, is_ip = ip,
       is_haproxy_cert_dir = ia_haproxy_cert_dir args, is_api_certs_dir = api_certs_dir,
       is_haproxy_user = ia_haproxy_user args, is_api_user = ia_api_user args, is_force = ia_force args,
       is_rotate_ca = ia_rotate_ca args, is_dry_run = ia_dry_run args, is_haproxy_owner = None, is_api_owner = None\<rparr>)))"

definition init_report :: "bool \<Rightarrow> init_server_request \<Rightarrow> provision_summary \<Rightarrow> string" where
  "init_report dry_run req summary =
     nl @ (if dry_run then dry_run_line else line ''=== Server certificates provisioned ==='') @ nl @
     line (''CA fingerprint (SHA-256): '' @ ps_ca_fingerprint summary) @ show_files (ps_files summary) @ nl @
     line (''Point CLN_CERT_DIR at '' @ is_api_certs_dir req @ '' before starting '' @ quoted ''gcob serve'' @ ''.'') @
     line ''To sign external client CSRs:'' @ line ''  gcob sign --csr <file.csr> --hostname <CLIENT_HOST>''"

text \<open>The output before the report: the summary and the prompt are printed when the run asks. The text
  of the prompt is left out of the output.\<close>

definition handle_init_server :: "pki \<Rightarrow> host \<Rightarrow> detected \<Rightarrow> string \<Rightarrow> init_server_args \<Rightarrow> file_system
    \<Rightarrow> (string \<times> (cert_error + unit)) \<times> file_system" where
  "handle_init_server k h d answer args fs =
     (case init_request h args d of
        Inl e \<Rightarrow> (('''', Inl e), fs)
      | Inr req \<Rightarrow>
          (case provision_server k h (confirm_init (ia_no_confirm args) answer) req fs of
             (Inl e, fs1) \<Rightarrow> (('''', Inl e), fs1)
           | (Inr summary, fs1) \<Rightarrow> ((init_report (ia_dry_run args) req summary, Inr ()), fs1)))"

section \<open>The dispatch\<close>

definition usage :: string where
  "usage =
     line (''Manage mTLS certificates for gcob.'' @ nl) @ line ''USAGE:'' @
     line ''    gcob certs list                  List certificate status'' @
     line ''    gcob certs show --cert <FILE>    Show detailed certificate info'' @
     line ''    gcob certs verify                Verify chain of trust and SANs'' @
     line (''    gcob certs renew                 Renew expired certificates'' @ nl) @ line ''EXAMPLES:'' @
     line ''    gcob certs list                  # Show all certificates'' @
     line ''    gcob certs verify                # Verify with localhost'' @
     line ''    gcob certs verify --hostname my-server  # Verify with custom hostname'' @
     line (''    gcob certs show --cert /home/<admin>/.certs/client.pem'' @ nl) @ line ''SAN CHECK:'' @
     line ''    Verify that certificate SANs match the expected hostname.'' @
     line ''    Supported SAN types: DNS, IP Address''"

datatype certs_command =
    Certs_List bool
  | Certs_Show "string option"
  | Certs_Verify "string option" "string option" "verify_subcommand option"
  | Certs_Renew renew_args

definition in_cert_dir :: "(io_error \<Rightarrow> string) \<Rightarrow> host \<Rightarrow> (string \<Rightarrow> file_system \<Rightarrow> report \<times> file_system)
    \<Rightarrow> file_system \<Rightarrow> report \<times> file_system" where
  "in_cert_dir show_io h f fs = (case default_cert_dir h of Inl e \<Rightarrow> (failed show_io '''' e, fs) | Inr dir \<Rightarrow> f dir fs)"

fun certs_dispatch :: "pki \<Rightarrow> (io_error \<Rightarrow> string) \<Rightarrow> host \<Rightarrow> certs_command \<Rightarrow> file_system \<Rightarrow> report \<times> file_system" where
  "certs_dispatch k show_io h (Certs_List server) = handle_list k show_io h server"
| "certs_dispatch k show_io h (Certs_Show (Some p)) = handle_show k show_io h p"
| "certs_dispatch k show_io h (Certs_Show None) =
     in_cert_dir show_io h (\<lambda>dir. handle_show k show_io h (path_join dir ''server.pem''))"
| "certs_dispatch k show_io h (Certs_Verify hostname cln_dir target) =
     in_cert_dir show_io h (\<lambda>dir. handle_verify k show_io h dir hostname cln_dir target)"
| "certs_dispatch k show_io h (Certs_Renew args) = in_cert_dir show_io h (\<lambda>dir. handle_renew k show_io h dir args)"

section \<open>gcob-client init\<close>

definition render_summary :: "client_init_plan \<Rightarrow> bool \<Rightarrow> string" where
  "render_summary plan overwrite =
     line (''=== gcob-client CSR generation ==='' @ nl) @ line (''  Hostname: '' @ ip_hostname plan) @
     (case ip_ip plan of Some ip \<Rightarrow> line (''  IP:       '' @ ip) | None \<Rightarrow> '''') @
     line (''  Output:   '' @ ip_cert_dir plan) @
     (if overwrite then line ''  Mode:     Overwrite existing CSR'' else '''') @ nl"

definition render_files :: "client_init_plan \<Rightarrow> string" where
  "render_files plan =
     line ''Files:'' @ line (''  '' @ ip_cert_dir plan @ ''/client.csr      (send to server)'') @
     line (''  '' @ ip_cert_dir plan @ ''/client-key.pem  (keep secret)'') @ nl"

definition render_next_steps :: "client_init_plan \<Rightarrow> string" where
  "render_next_steps plan =
     line ''Next steps:'' @ line ''  1. Send client.csr to the server:'' @
     line (''     scp '' @ ip_cert_dir plan @ ''/client.csr user@server:/tmp/'' @ nl) @
     line ''  2. On the server, sign the CSR:'' @
     line (''     gcob sign --csr /tmp/client.csr --hostname '' @ ip_hostname plan @ '' --cln-dir <CLN_DIR> --output <DIR>'' @ nl) @
     line ''  3. Server will return: ca.pem + client.pem'' @ line (''     Place them in: '' @ ip_cert_dir plan @ ''/'')"

definition said_no :: "string \<Rightarrow> bool" where
  "said_no answer \<longleftrightarrow> to_ascii_lowercase (trim answer) \<in> {''n'', ''no''}"

definition prompt :: string where
  "prompt = ''Proceed? [Y/n] ''"

text \<open>\<open>None\<close> when the fuel of the change of owners does not suffice.\<close>

definition run_cli :: "nat \<Rightarrow> pki \<Rightarrow> host \<Rightarrow> detected \<Rightarrow> (string \<Rightarrow> string \<Rightarrow> string \<Rightarrow> unit io) \<Rightarrow> string
    \<Rightarrow> string option \<Rightarrow> string option \<Rightarrow> string option \<Rightarrow> bool \<Rightarrow> bool \<Rightarrow> file_system
    \<Rightarrow> ((string \<times> (cert_error + unit)) \<times> file_system) option" where
  "run_cli fuel k h d setfacl answer hostname ip output force no_confirm fs =
     (case client_plan h (dt_hostname d) (dt_ip d) hostname ip output of
        Inl e \<Rightarrow> Some (('''', Inl e), fs)
      | Inr plan \<Rightarrow>
          (let csr_exists = exists_at fs (path_join (ip_cert_dir plan) ''client.csr'');
               out = render_summary plan (force \<and> csr_exists) @ (if no_confirm then '''' else prompt)
           in if \<not> no_confirm \<and> said_no answer then Some ((out @ line ''Aborted.'', Inr ()), fs)
              else let out = out @ line ''[1/2] Generating CSR...''
                   in case client_run fuel k h setfacl plan force False fs of
                        None \<Rightarrow> None
                      | Some (Inl e, fs1) \<Rightarrow> Some ((out, Inl e), fs1)
                      | Some (Inr _, fs1) \<Rightarrow>
                          Some ((out @ line ''[2/2] CSR generated successfully'' @ nl @ render_files plan @
                            render_next_steps plan, Inr ()), fs1)))"

end
