(* ===== verification/Cert_Gaps.thy ===== *)
theory Cert_Gaps
  imports Cert_Init Cert_Cli
begin

text \<open>
  Where the certificate commands disagree: the keys they publish have a mode their own verification
  refuses, and an address is compared as it was typed with its canonical text.
\<close>

section \<open>The mode of a published key\<close>

lemma key_item_mode:
  assumes "literal dir D" and "plain_name n" and "real_dirs (fs_nodes fs) [] D"
    and "fs_nodes fs (D @ [n]) = Some x" and "is_file x"
  shows "snd (fst (key_item show_io label (path_join dir n) fs)) \<longleftrightarrow> perm_bits x = 0x100"
proof -
  have "\<not> is_symlink x" using assms(5) by (auto simp: is_file_def is_symlink_def split: file_kind.splits)
  then have s: "stat fs (path_join dir n) = Inr x"
    using stat_literal(2) [OF literal_join [OF assms(1,2)] assms(3,4)] by simp
  then have "exists_at fs (path_join dir n)" by (simp add: exists_at_def stat_def split: sum.splits)
  with s show ?thesis by (simp add: key_item_def Let_def)
qed

lemma renewed_key_fails_verification:
  assumes "installed_pair (fs_nodes fs) D c key owner P" and "literal dir D" and "plain_name key" and "real_dirs (fs_nodes fs) [] D"
  shows "\<not> snd (fst (key_item show_io label (path_join dir key) fs))"
proof -
  from assms(1) obtain x kb where x: "fs_nodes fs (D @ [key]) = Some x" "fn_kind x = Regular kb" "fn_mode x = 0x180"
    by (auto simp: installed_pair_def)
  then have "is_file x" "perm_bits x \<noteq> 0x100" by (simp_all add: is_file_def perm_bits_def)
  with key_item_mode [OF assms(2-4) x(1)] show ?thesis by blast
qed

section \<open>Addresses in capital letters\<close>

definition capital_hex :: "char \<Rightarrow> bool" where
  "capital_hex c \<longleftrightarrow> 65 \<le> (of_char c :: nat) \<and> (of_char c :: nat) \<le> 70"

lemma fmt_hex_small: "c \<in> set (fmt_hex n) \<Longrightarrow> \<not> capital_hex c"
proof (induction n rule: fmt_hex.induct)
  case (1 n)
  have d: "n mod 16 < 16" by simp
  show ?case using 1 d
    by (subst (asm) fmt_hex.simps) (auto simp: Let_def digit_char_def capital_hex_def split: if_splits)
qed

lemma fmt_nat_small: "c \<in> set (fmt_nat n) \<Longrightarrow> \<not> capital_hex c"
  using fmt_nat_digits [of n] by (auto simp: list_all_iff is_digit_def capital_hex_def)

lemma join_set: "set (join s xs) \<subseteq> insert s (\<Union>x \<in> set xs. set x)"
  by (induction s xs rule: join.induct) auto

lemma fmt_ip_small: "c \<in> set (fmt_ip a) \<Longrightarrow> \<not> capital_hex c"
proof -
  have p: "\<not> capital_hex (CHR '':'')" "\<not> capital_hex (CHR ''.'')" "\<not> capital_hex (CHR ''f'')" by (simp_all add: capital_hex_def)
  have v4: "\<not> capital_hex c" if "c \<in> set (fmt_ipv4 x y z w)" for c x y z w
    using that p fmt_nat_small by (auto simp: fmt_ipv4_def fmt_word_def)
  have g: "\<not> capital_hex c" if "c \<in> set (fmt_groups gs)" for c gs
    using that p join_set [of "CHR '':''" "map (\<lambda>g. fmt_hex (unat g)) gs"] fmt_hex_small by (auto simp: fmt_groups_def)
  assume "c \<in> set (fmt_ip a)"
  then show ?thesis using v4 g p
    by (cases a) (auto simp: fmt_ipv6_def split: if_splits prod.splits)
qed

text \<open>An address given with capital letters is never among the names of a certificate as they are
  rendered, so no certificate passes the checks of a run that was asked for it.\<close>

lemma capital_address_never_verifies:
  assumes "parse_ip s \<noteq> None" and "c \<in> set s" and "capital_hex c"
  shows "\<not> exact_names cert (insert (san_token s) sans)"
proof
  assume "exact_names cert (insert (san_token s) sans)"
  then obtain ns where "san_token s \<in> tokens_of ns" by (auto simp: exact_names_def)
  then obtain n where n: "name_token n = Some (san_token s)"
    by (auto simp: tokens_of_def map_filter_def split: option.splits)
  have "san_token s = ''ip:'' @ s" using assms(1) by (auto simp: san_token_def)
  with n obtain ip where "s = fmt_ip ip" by (cases n) auto
  with fmt_ip_small assms(2,3) show False by blast
qed

lemma parse_capital_address: "parse_ip ''FD00::'' \<noteq> None"
proof -
  note d = read_octet_def read_number_def read_separator_def is_digit_in_def digit_of_def value_in_def Let_def
    is_digit_def is_upper_def is_lower_def
  have v4: "read_ipv4_addr ''FD00::'' = None" by (simp add: read_ipv4_addr_def d)
  have n: "read_separator (CHR '':'') 0 (read_number 16 4 True 65536) ''FD00::'' = Some (64768, ''::'')"
    "read_separator (CHR '':'') (Suc 0) (read_number 16 4 True 65536) ''::'' = None"
    "read_separator (CHR '':'') 0 (read_number 16 4 True 65536) '''' = None" by (simp_all add: d)
  have i: "read_separator (CHR '':'') 0 read_ipv4_addr ''FD00::'' = None" "read_separator (CHR '':'') (Suc 0) read_ipv4_addr ''::'' = None"
    "read_separator (CHR '':'') 0 read_ipv4_addr '''' = None" by (simp_all add: d read_ipv4_addr_def)
  have "read_groups (Suc 0) (Suc 6) ''::'' = ([], False, ''::'')" unfolding read_groups.simps(2) by (simp add: n i)
  then have s: "read_groups (Suc 0) 7 ''::'' = ([], False, ''::'')" by simp
  have "read_groups 0 (Suc 7) ''FD00::'' = ([0xFD00], False, ''::'')" unfolding read_groups.simps(2) by (simp add: n i s)
  then have "read_groups 0 8 ''FD00::'' = ([0xFD00], False, ''::'')" by simp
  moreover have "read_groups 0 (Suc 5) '''' = ([], False, '''')" unfolding read_groups.simps(2) by (simp add: n i)
  then have "read_groups 0 6 '''' = ([], False, '''')" by simp
  ultimately have "read_ipv6_addr ''FD00::'' = Some (0xFD00 # replicate 7 0, '''')" by (simp add: read_ipv6_addr_def)
  with v4 show ?thesis by (simp add: parse_ip_def)
qed

lemma capital_address_example: "\<not> exact_names cert {san_token ''FD00::'', san_token ''node.example''}"
  by (rule capital_address_never_verifies [OF parse_capital_address, where c = "CHR ''D''"]) (simp_all add: capital_hex_def)

end
