(* ===== verification/Event_Bridge.thy ===== *)
theory Event_Bridge
  imports Router_Eviction Cln_Subscribers
begin

text \<open>
  The bridge between the notifications of the node and the router (\<open>events/subscribers/mod.rs\<close>):
  five subscribers run as tasks of their own and send to one channel, and one loop dispatches what
  it receives. What the loop receives is any interleaving of what the runs send.
\<close>

section \<open>The bridge\<close>

text \<open>What the five runs are fed with: the results of their subscriptions and their polls.\<close>

record bridge_input =
  bi_payment :: "(bool \<times> bool \<times> bool \<times> bool) \<times> payment_poll list"
  bi_invoice :: "(bool \<times> bool) \<times> invoice_poll list"
  bi_channel :: "(bool \<times> bool) \<times> channel_poll list"
  bi_peer :: "(bool \<times> bool) \<times> peer_poll list"
  bi_system :: "bool \<times> warning_note message list"

text \<open>A run that stops or panics ends its own task only.\<close>

definition bridge_runs :: "(bytes \<Rightarrow> string) \<Rightarrow> bridge_input \<Rightarrow> event list list" where
  "bridge_runs hex i =
     [fst (payment_run hex (fst (bi_payment i)) (snd (bi_payment i))),
      fst (invoice_run hex (fst (bi_invoice i)) (snd (bi_invoice i))),
      fst (channel_run hex (fst (bi_channel i)) (snd (bi_channel i))),
      fst (peer_run hex (fst (bi_peer i)) (snd (bi_peer i))),
      fst (system_run (fst (bi_system i)) (snd (bi_system i)))]"

definition bridge_topics :: "string list" where
  "bridge_topics = [''payment'', ''invoice'', ''channel'', ''peer'', ''system'']"

fun merges :: "'a list list \<Rightarrow> 'a list set" where
  "merges [] = {[]}"
| "merges (xs # xss) = (\<Union>ys \<in> merges xss. shuffles xs ys)"

text \<open>The loop of the dispatcher.\<close>

fun dispatch_all :: "'w try_send \<Rightarrow> event list \<Rightarrow> 'w \<times> event_router \<Rightarrow> 'w \<times> event_router" where
  "dispatch_all try_send [] st = st"
| "dispatch_all try_send (ev # evs) st = dispatch_all try_send evs (dispatch try_send (event_topic ev) ev st)"

definition start_all :: "'w try_send \<Rightarrow> (bytes \<Rightarrow> string) \<Rightarrow> bridge_input \<Rightarrow> event list
    \<Rightarrow> 'w \<times> event_router \<Rightarrow> 'w \<times> event_router \<Rightarrow> bool" where
  "start_all try_send hex i received st st' \<longleftrightarrow> received \<in> merges (bridge_runs hex i) \<and> dispatch_all try_send received st = st'"

section \<open>The runs and their topics\<close>

lemma branch_topics:
  "invoice_branch hex p = Send e \<Longrightarrow> event_topic e = ''invoice''"
  "channel_branch hex p' = Send e \<Longrightarrow> event_topic e = ''channel''"
  "peer_branch hex p'' = Send e \<Longrightarrow> event_topic e = ''peer''"
  "on_message warning_event m = Send e \<Longrightarrow> event_topic e = ''system''"
  by ((cases p; auto simp: on_message_Send event_defs), (cases p'; auto simp: on_message_Send event_defs),
    (cases p''; auto simp: on_message_Send event_defs), auto simp: on_message_Send event_defs)

lemma bridge_runs_topics:
  "list_all2 (\<lambda>t es. list_all (\<lambda>e. event_topic e = t) es) bridge_topics (bridge_runs hex i)"
proof -
  have "list_all (\<lambda>e. event_topic e = ''payment'') (fst (payment_run hex oks ps))" for oks ps
    using payment_run_topic by blast
  moreover have "list_all (\<lambda>e. event_topic e = ''invoice'') (fst (invoice_run hex oks1 ps1))" for oks1 ps1
    unfolding invoice_run_def by (cases oks1) (auto intro!: run_subscriber_all dest: branch_topics)
  moreover have "list_all (\<lambda>e. event_topic e = ''channel'') (fst (channel_run hex oks2 ps2))" for oks2 ps2
    unfolding channel_run_def by (cases oks2) (auto intro!: run_subscriber_all dest: branch_topics)
  moreover have "list_all (\<lambda>e. event_topic e = ''peer'') (fst (peer_run hex oks3 ps3))" for oks3 ps3
    unfolding peer_run_def by (cases oks3) (auto intro!: run_subscriber_all dest: branch_topics)
  moreover have "list_all (\<lambda>e. event_topic e = ''system'') (fst (system_run ok ps4))" for ok ps4
    unfolding system_run_def by (auto intro!: run_subscriber_all dest: branch_topics)
  ultimately show ?thesis by (simp add: bridge_topics_def bridge_runs_def)
qed

text \<open>Of an interleaving, each run finds back its own events in its own order.\<close>

lemma filter_shuffle:
  assumes "zs \<in> shuffles xs ys"
  shows "filter P zs \<in> shuffles (filter P xs) (filter P ys)"
  using assms by (induction xs ys arbitrary: zs rule: shuffles.induct) (auto simp: Cons_in_shuffles_iff)

lemma merges_filter:
  assumes "list_all2 (\<lambda>t es. list_all (\<lambda>e. f e = t) es) ts runs" and "distinct ts" and "zs \<in> merges runs" and "j < length ts"
  shows "filter (\<lambda>e. f e = ts ! j) zs = runs ! j"
  using assms
proof (induction ts runs arbitrary: zs j rule: list_all2_induct)
  case (Cons t ts es runs)
  from Cons.prems obtain ys where ys: "ys \<in> merges runs" "zs \<in> shuffles es ys" by auto
  note rest = Cons.IH [OF _ ys(1)]
  have other: "filter (\<lambda>e. f e = u) es = (if u = t then es else [])" for u
    using Cons.hyps(1) by (auto simp: list_all_iff filter_empty_conv filter_id_conv)
  have split: "filter (\<lambda>e. f e = u) zs \<in> shuffles (filter (\<lambda>e. f e = u) es) (filter (\<lambda>e. f e = u) ys)" for u
    using filter_shuffle [OF ys(2)] .
  have none: "filter (\<lambda>e. f e = t) ys = []"
  proof -
    have "set ys = (\<Union>r \<in> set runs. set r)" using ys(1)
    proof (induction runs arbitrary: ys)
      case (Cons r rs)
      then show ?case by (auto simp: set_shuffles)
    qed simp
    moreover have "f e \<in> set ts" if "e \<in> set r" "r \<in> set runs" for e r
    proof -
      from that(2) obtain n where "n < length runs" "runs ! n = r" by (auto simp: in_set_conv_nth)
      with list_all2_nthD2 [OF Cons.hyps(2)] list_all2_lengthD [OF Cons.hyps(2)] that(1) have "f e = ts ! n" "n < length ts"
        by (auto simp: list_all_iff)
      then show ?thesis by simp
    qed
    ultimately show ?thesis using Cons.prems(1) by (auto simp: filter_empty_conv)
  qed
  show ?case
  proof (cases j)
    case 0
    then show ?thesis using split [of t] other [of t] none by simp
  next
    case (Suc n)
    with Cons.prems have n: "n < length ts" "ts ! n \<noteq> t" by auto
    then show ?thesis using split [of "ts ! n"] other [of "ts ! n"] rest [of n] Cons.prems(1) Suc by simp
  qed
qed simp

section \<open>Channels with room\<close>

text \<open>Every channel takes every event: the world is what each channel holds.\<close>

definition room :: "(nat \<Rightarrow> event list) try_send" where
  "room w c ev = (w(c := w c @ [ev]), Sent)"

definition sole_reader :: "event_router \<Rightarrow> string \<Rightarrow> nat \<Rightarrow> bool" where
  "sole_reader r topic c \<longleftrightarrow> (\<forall>t. count_list (map sub_sender (topic_list r t)) c = (if t = topic then 1 else 0))"

lemma room_sent: "room w c ev = (w(c := w c @ [ev]), Sent)"
  by (simp add: room_def)

lemma room_deliver:
  "deliver room ev ss (w, r, []) = (w', r', rm) \<Longrightarrow>
   rm = [] \<and> subscribers r' = subscribers r \<and> w' c = w c @ replicate (count_list (map sub_sender ss) c) ev"
proof (induction ss arbitrary: w r)
  case (Cons s ss)
  define r1 where "r1 = bump_delivered (set_counter (sub_drops s) 0 r)"
  have "deliver room ev ss (w(sub_sender s := w (sub_sender s) @ [ev]), r1, []) = (w', r', rm)"
    using Cons.prems room_sent [of w "sub_sender s" ev] by (simp add: account_def r1_def)
  from Cons.IH [OF this] show ?case
    by (auto simp: r1_def bump_delivered_def set_counter_def replicate_app_Cons_same)
qed simp

lemma room_dispatch:
  assumes "dispatch room topic ev (w, r) = (w', r')"
  shows "subscribers r' = subscribers r" and "w' c = w c @ replicate (count_list (map sub_sender (topic_list r topic)) c) ev"
proof -
  have "subscribers r' = subscribers r \<and> w' c = w c @ replicate (count_list (map sub_sender (topic_list r topic)) c) ev"
  proof (cases "topic_list r topic = []")
    case False
    obtain w1 r1 rm where d: "deliver room ev (topic_list r topic) (w, bump_dispatched r, []) = (w1, r1, rm)"
      by (metis prod_cases3)
    from room_deliver [OF d] False d assms show ?thesis by (auto simp: dispatch_def remove_failed_def bump_dispatched_def)
  qed (use assms in \<open>simp add: dispatch_def\<close>)
  then show "subscribers r' = subscribers r" "w' c = w c @ replicate (count_list (map sub_sender (topic_list r topic)) c) ev" by simp_all
qed

lemma sole_reader_cong: "subscribers r' = subscribers r \<Longrightarrow> sole_reader r' = sole_reader r"
  by (intro ext) (simp add: sole_reader_def topic_list_def)

lemma room_dispatch_all:
  assumes "sole_reader r topic c"
  shows "fst (dispatch_all room evs (w, r)) c = w c @ filter (\<lambda>e. event_topic e = topic) evs"
  using assms
proof (induction evs arbitrary: w r)
  case (Cons ev evs)
  obtain w1 r1 where d: "dispatch room (event_topic ev) ev (w, r) = (w1, r1)" by force
  have "sole_reader r1 topic c" using sole_reader_cong [OF room_dispatch(1) [OF d]] Cons.prems by simp
  from Cons.IH [OF this] show ?case
    using room_dispatch(2) [OF d, of c] Cons.prems d by (auto simp: sole_reader_def)
qed simp

text \<open>C9: as long as the channels have room, a channel that is subscribed once to one of the five topics
  receives exactly the events that the subscriber of that topic sends, all of them and in their
  order, however the five subscribers interleave and whichever of them stops or panics.\<close>

theorem channel_receives_its_run:
  assumes "start_all room hex i received (w, r) st'" and "j < length bridge_topics"
    and "sole_reader r (bridge_topics ! j) c"
  shows "fst st' c = w c @ bridge_runs hex i ! j"
proof -
  have "filter (\<lambda>e. event_topic e = bridge_topics ! j) received = bridge_runs hex i ! j"
    using merges_filter [OF bridge_runs_topics _ _ assms(2)] assms(1) by (simp add: start_all_def bridge_topics_def)
  with room_dispatch_all [OF assms(3), of received w] assms(1) show ?thesis by (simp add: start_all_def)
qed

text \<open>One warning reaches a channel that was subscribed to the system events.\<close>

definition ex_input :: bridge_input where
  "ex_input = \<lparr>bi_payment = ((True, True, True, True), [Poll_Failure Stream_End]), bi_invoice = ((True, False), []),
     bi_channel = ((True, True), []), bi_peer = ((True, True), []),
     bi_system = (True, [Message \<lparr>wn_timestamp = ''1'', wn_source = ''s'', wn_log = ''l''\<rparr>])\<rparr>"

definition ex_router :: event_router where
  "ex_router = snd (subscribe new_router ''system'' ''sub-1'' 7)"

lemma ex_runs: "bridge_runs hex ex_input = [[], [], [], [], [System (Warning ''cln-warn-1'' 0 ''s'' ''l'')]]"
  by (simp add: bridge_runs_def ex_input_def payment_run_def invoice_run_def channel_run_def peer_run_def system_run_def
      run_subscriber_def on_message_def warning_event_def)

lemma ex_reader: "sole_reader ex_router ''system'' 7"
  by (simp add: sole_reader_def ex_router_def subscribe_def new_router_def with_limits_def topic_list_def subscriber_count_def
      default_router_limits_def hmap_simps)

theorem channel_receives_its_run_witness:
  "fst (dispatch_all room [System (Warning ''cln-warn-1'' 0 ''s'' ''l'')] (\<lambda>_. [], ex_router)) 7 =
    [System (Warning ''cln-warn-1'' 0 ''s'' ''l'')]"
  using channel_receives_its_run [of "\<lambda>_. []" ex_input "[System (Warning ''cln-warn-1'' 0 ''s'' ''l'')]" "\<lambda>_. []" ex_router _ 4 7]
    ex_reader
  by (simp add: start_all_def ex_runs bridge_topics_def)

end
