(* ===== verification/Late_Subscription.thy ===== *)
theory Late_Subscription
  imports Service_Properties
begin

text \<open>
  The order of a payment and the subscription to its outcome: what is dispatched before a stream has
  subscribed does not reach it.
\<close>

section \<open>Channels are handed out once\<close>






section \<open>A dispatch that began earlier\<close>









end
