(* ===== verification/Server_Start.thy ===== *)
theory Server_Start
  imports Service_Properties
begin

text \<open>
  What \<open>run\<close> of \<open>grpc/server.rs\<close> builds from its limits before it serves, and the snapshot of the
  gauges that it logs: the limits of the environment bound every state the service can reach.
\<close>

section \<open>The start\<close>



section \<open>The snapshot of the gauges\<close>



section \<open>The limits do not move\<close>








section \<open>Clients that are tracked and not idle\<close>



section \<open>A started service\<close>






end
