(* ===== verification/Client_Main.thy ===== *)
theory Client_Main
  imports Client_Cli Cert_Cli Cert_Example
begin

text \<open>
  \<open>main\<close> of \<open>gcob-client\<close> (\<open>bin/gcob/main.rs\<close>) from its parsed arguments on, and the connection it
  opens (\<open>bin/gcob/connection.rs\<close>). The connection itself, what the server answers, and the clock are
  parameters; an error of \<open>anyhow\<close> is its outermost text.
\<close>

section \<open>The arguments\<close>

datatype client_command =
    Cmd_Init "string option" "string option" "string option" bool bool
  | Cmd_Info
  | Cmd_Invoice string string "string option" "u64 option"
  | Cmd_Xpay string "string option"
  | Cmd_Watch watch_target

record client_args =
  cl_host :: string
  cl_port :: u16
  cl_cert :: "string option"
  cl_key :: "string option"
  cl_ca :: "string option"
  cl_rune :: "string option"
  cl_client_id :: "string option"
  cl_command :: client_command

section \<open>The connection\<close>

record tls_config =
  tls_ca :: bytes
  tls_cert :: bytes
  tls_key :: bytes
  tls_domain :: string

definition read_pem :: "string \<Rightarrow> string \<Rightarrow> file_system \<Rightarrow> (string + bytes) \<times> file_system" where
  "read_pem what p fs = (case read_at p fs of
     (Inl _, fs1) \<Rightarrow> (Inl (''Failed to read '' @ what @ '': '' @ p), fs1)
   | (Inr b, fs1) \<Rightarrow> (Inr b, fs1))"

definition admin_certs :: "(io_error \<Rightarrow> string) \<Rightarrow> host \<Rightarrow> string + string" where
  "admin_certs show_io h = (case client_paths_default h of
     Inl e \<Rightarrow> Inl (display_cert_error show_io e) | Inr p \<Rightarrow> Inr (cp_cert_dir p))"

text \<open>All three paths are resolved before the first file is read.\<close>

definition client_tls :: "(io_error \<Rightarrow> string) \<Rightarrow> host \<Rightarrow> client_args \<Rightarrow> file_system \<Rightarrow> (string + tls_config) \<times> file_system" where
  "client_tls show_io h args fs =
     (let cert_dir = env_var h ''CLN_CERT_DIR''; admin = admin_certs show_io h;
          paths = and_then (resolve_path (cl_ca args) cert_dir ''ca.pem'' admin) (\<lambda>ca_path.
            and_then (resolve_path (cl_cert args) cert_dir ''client.pem'' admin) (\<lambda>cert_path.
            and_then (resolve_path (cl_key args) cert_dir ''client-key.pem'' admin) (\<lambda>key_path.
            Inr (ca_path, cert_path, key_path))))
      in case paths of
           Inl e \<Rightarrow> (Inl e, fs)
         | Inr (ca_path, cert_path, key_path) \<Rightarrow>
             (case read_pem ''CA certificate'' ca_path fs of
                (Inl e, fs1) \<Rightarrow> (Inl e, fs1)
              | (Inr ca, fs1) \<Rightarrow>
                  (case read_pem ''client certificate'' cert_path fs1 of
                     (Inl e, fs2) \<Rightarrow> (Inl e, fs2)
                   | (Inr cert, fs2) \<Rightarrow>
                       (case read_pem ''client key'' key_path fs2 of
                          (Inl e, fs3) \<Rightarrow> (Inl e, fs3)
                        | (Inr key, fs3) \<Rightarrow>
                            (Inr \<lparr>tls_ca = ca, tls_cert = cert, tls_key = key,
                               tls_domain = tls_domain_name (cl_host args)\<rparr>, fs3)))))"

definition endpoint_uri :: "client_args \<Rightarrow> string" where
  "endpoint_uri args = ''https://'' @ cl_host args @ '':'' @ fmt_word (cl_port args)"

definition client_connect :: "(string \<Rightarrow> tls_config \<Rightarrow> string + 'ch) \<Rightarrow> (io_error \<Rightarrow> string) \<Rightarrow> host \<Rightarrow> client_args
    \<Rightarrow> file_system \<Rightarrow> (string + 'ch) \<times> file_system" where
  "client_connect open_channel show_io h args fs =
     (case client_tls show_io h args fs of
        (Inl e, fs1) \<Rightarrow> (Inl e, fs1)
      | (Inr tls, fs1) \<Rightarrow> (open_channel (endpoint_uri args) tls, fs1))"

section \<open>main\<close>

text \<open>What an open channel answers, and the texts of the clock.\<close>

record ('ch, 'a, 'b, 'f) remote =
  rm_info :: "'ch \<Rightarrow> string + ('a, 'b, 'f) getinfo_response"
  rm_invoice :: "'ch \<Rightarrow> invoice_request \<Rightarrow> string + stream_item list"
  rm_xpay :: "'ch \<Rightarrow> xpay_request \<Rightarrow> string + stream_item list"
  rm_watch :: "'ch \<Rightarrow> watch_target \<Rightarrow> string + stream_item list"
  rm_ascii :: "string \<Rightarrow> bool"
  rm_hex :: "bytes \<Rightarrow> string"
  rm_ts :: time_stamp
  rm_now :: string

text \<open>\<open>None\<close>: the command panics.\<close>

definition connected_command :: "('ch, 'a, 'b, 'f) remote \<Rightarrow> 'ch \<Rightarrow> string \<Rightarrow> string \<Rightarrow> client_command
    \<Rightarrow> (string list \<times> (string + unit)) option" where
  "connected_command m ch rune client_id command = (case command of
     Cmd_Info \<Rightarrow> Some (info_command (rm_ascii m) (rm_info m ch) (rm_hex m) rune client_id)
   | Cmd_Invoice label amount description expiry \<Rightarrow>
       Some (invoice_command (rm_ascii m) (rm_invoice m ch) (rm_now m) rune client_id label amount description expiry)
   | Cmd_Xpay invoice maxfee \<Rightarrow> Some (xpay_command (rm_ascii m) (rm_xpay m ch) (rm_now m) rune client_id invoice maxfee)
   | Cmd_Watch target \<Rightarrow> watch_command (rm_ascii m) (rm_watch m ch) (rm_ts m) (rm_now m) rune client_id target
   | Cmd_Init _ _ _ _ _ \<Rightarrow> None)"

definition online_main :: "('ch, 'a, 'b, 'f) remote \<Rightarrow> (string \<Rightarrow> tls_config \<Rightarrow> string + 'ch) \<Rightarrow> (io_error \<Rightarrow> string)
    \<Rightarrow> host \<Rightarrow> client_args \<Rightarrow> file_system \<Rightarrow> (string list \<times> (string + unit)) option \<times> file_system" where
  "online_main m open_channel show_io h args fs =
     (case client_rune (cl_rune args) of
        Inl e \<Rightarrow> (Some ([], Inl e), fs)
      | Inr rune \<Rightarrow>
          (case client_connect open_channel show_io h args fs of
             (Inl e, fs1) \<Rightarrow> (Some ([], Inl e), fs1)
           | (Inr ch, fs1) \<Rightarrow>
               (connected_command m ch rune (client_id_or_default (cl_client_id args)) (cl_command args), fs1)))"

text \<open>\<open>init\<close> works on the machine alone; \<open>Init_Ran None\<close> when the fuel does not suffice.\<close>

datatype client_result =
    Init_Ran "((string \<times> (cert_error + unit)) \<times> file_system) option"
  | Online_Ran "(string list \<times> (string + unit)) option \<times> file_system"

definition client_main :: "('ch, 'a, 'b, 'f) remote \<Rightarrow> (string \<Rightarrow> tls_config \<Rightarrow> string + 'ch) \<Rightarrow> (io_error \<Rightarrow> string)
    \<Rightarrow> nat \<Rightarrow> pki \<Rightarrow> detected \<Rightarrow> (string \<Rightarrow> string \<Rightarrow> string \<Rightarrow> unit io) \<Rightarrow> string \<Rightarrow> host \<Rightarrow> client_args
    \<Rightarrow> file_system \<Rightarrow> client_result" where
  "client_main m open_channel show_io fuel k d setfacl answer h args fs = (case cl_command args of
     Cmd_Init hostname ip output force no_confirm \<Rightarrow>
       Init_Ran (run_cli fuel k h d setfacl answer hostname ip output force no_confirm fs)
   | _ \<Rightarrow> Online_Ran (online_main m open_channel show_io h args fs))"

section \<open>Whom the client talks to\<close>





end
