(* ===== verification/Main_Entry.thy ===== *)
theory Main_Entry
  imports Client_Main Trusted_Config
begin

text \<open>
  The two programs from their first line: the environment file (\<open>config.rs\<close>), then the command that was
  given, for \<open>gcob\<close> (\<open>main.rs\<close>) and for \<open>gcob-client\<close> (\<open>bin/gcob/main.rs\<close>); and what a server that
  serves rests on.
\<close>

section \<open>The environment of the process\<close>

type_synonym env_vars = "string \<Rightarrow> string option"

text \<open>\<open>install\<close> is what \<open>dotenvy\<close> does to the variables of the process; the first result is the warning.\<close>

definition with_trusted_env :: "(io_error \<Rightarrow> string) \<Rightarrow> (bytes \<Rightarrow> string + 'v) \<Rightarrow> ('v \<Rightarrow> env_vars \<Rightarrow> env_vars)
    \<Rightarrow> host \<Rightarrow> file_system \<Rightarrow> (string \<times> host) \<times> file_system" where
  "with_trusted_env show_io dotenv install h fs =
     (case load_trusted_env show_io dotenv h fs of
        (Env_Warning w, fs1) \<Rightarrow> ((line w, h), fs1)
      | (Env_Missing, fs1) \<Rightarrow> (('''', h), fs1)
      | (Env_Loaded v, fs1) \<Rightarrow> (('''', h\<lparr>env_var := install v (env_var h)\<rparr>), fs1))"

section \<open>gcob\<close>






text \<open>What the packages do: the environment file, and the connection of the server.\<close>

record ('v, 'c) start_packages =
  st_dotenv :: "bytes \<Rightarrow> string + 'v"
  st_install :: "'v \<Rightarrow> env_vars \<Rightarrow> env_vars"
  st_debug :: "string \<Rightarrow> string"
  st_show_err :: "cert_error \<Rightarrow> string"
  st_connect :: "bytes \<times> bytes \<times> bytes \<Rightarrow> string + 'c"
  st_is_addr :: "string \<Rightarrow> bool"


section \<open>gcob-client\<close>

text \<open>Options may come from the environment, so the arguments are a function of the variables.\<close>

definition gcob_client_main :: "('v, 'c) start_packages \<Rightarrow> ('ch, 'a, 'b, 'f) remote \<Rightarrow> (string \<Rightarrow> tls_config \<Rightarrow> string + 'ch)
    \<Rightarrow> (io_error \<Rightarrow> string) \<Rightarrow> nat \<Rightarrow> pki \<Rightarrow> detected \<Rightarrow> (string \<Rightarrow> string \<Rightarrow> string \<Rightarrow> unit io) \<Rightarrow> string \<Rightarrow> host
    \<Rightarrow> (env_vars \<Rightarrow> client_args) \<Rightarrow> file_system \<Rightarrow> string \<times> client_result" where
  "gcob_client_main m remote open_channel show_io fuel k d setfacl answer h parse fs =
     (case with_trusted_env show_io (st_dotenv m) (st_install m) h fs of
        ((warning, h1), fs1) \<Rightarrow>
          (warning, client_main remote open_channel show_io fuel k d setfacl answer h1 (parse (env_var h1)) fs1))"

section \<open>What a server that serves rests on\<close>













end
