(* ===== verification/Publish_Race.thy ===== *)
theory Publish_Race
  imports Cert_Commands
begin

text \<open>
  Publications of several processes at once (\<open>cli/atomic.rs\<close> under the locks of \<open>cli/provision.rs\<close> and
  \<open>cli/certs.rs\<close>), interleaved at every call to the system. Under one lock they are as if they ran one
  after the other; under two locks they are not (\<open>Lock_Gaps\<close>). The stages are there already: each run has
  filled its own before.
\<close>

section \<open>One publication, call by call\<close>

record publication =
  pb_lock :: path
  pb_stamp :: u64
  pb_plan :: "planned_file list"

text \<open>Where a process is in \<open>publish_files\<close> (its backups and published targets as the code has them) or
  in \<open>rollback\<close>. \<open>Holding\<close>: the function has returned, the lock is not dropped yet.\<close>

datatype phase =
    Waiting
  | Checking "planned_file list" "(path \<times> path) list" "path list"
  | Saving planned_file "planned_file list" "(path \<times> path) list" "path list"
  | Installing planned_file "planned_file list" "(path \<times> path) list" "path list"
  | Removing "path list" "(path \<times> path) list" io_error
  | Restoring "(path \<times> path) list" io_error
  | Holding "io_error + path list"
  | Left "io_error + path list"
  | Refused

fun active :: "phase \<Rightarrow> bool" where
  "active Waiting = False"
| "active (Left r) = False"
| "active Refused = False"
| "active _ = True"

fun call_step :: "u64 \<Rightarrow> phase \<Rightarrow> file_system \<Rightarrow> phase \<times> file_system" where
  "call_step stamp (Checking [] backups placed) fs = (Holding (Inr (map snd backups)), fs)"
| "call_step stamp (Checking (file # plan) backups placed) fs =
     ((if path_exists fs (pl_target file) then Saving else Installing) file plan backups placed, fs)"
| "call_step stamp (Saving file plan backups placed) fs =
     (let target = pl_target file; backup = backup_path target stamp
      in case fs_rename target backup fs of
           (Inl e, fs1) \<Rightarrow> (Removing (rev placed) (rev backups) e, fs1)
         | (Inr _, fs1) \<Rightarrow> (Installing file plan (backups @ [(target, backup)]) placed, fs1))"
| "call_step stamp (Installing file plan backups placed) fs =
     (case fs_rename (pl_staged file) (pl_target file) fs of
        (Inl e, fs1) \<Rightarrow> (Removing (rev placed) (rev backups) e, fs1)
      | (Inr _, fs1) \<Rightarrow> (Checking plan backups (placed @ [pl_target file]), fs1))"
| "call_step stamp (Removing [] backups e) fs = (Restoring backups e, fs)"
| "call_step stamp (Removing (target # targets) backups e) fs =
     (Removing targets backups e, snd (remove_file target fs))"
| "call_step stamp (Restoring [] e) fs = (Holding (Inl e), fs)"
| "call_step stamp (Restoring ((target, backup) # backups) e) fs =
     (Restoring backups e, snd (fs_rename backup target fs))"
| "call_step stamp phase fs = (phase, fs)"

section \<open>Several processes\<close>

record race =
  rc_fs :: file_system
  rc_locks :: "path set"
  rc_phase :: "nat \<Rightarrow> phase"
  rc_log :: "nat list"

text \<open>\<open>lock_dir\<close> does not wait: a process that finds the lock taken gives up. The log is the order of
  the locks that were granted.\<close>

inductive race_step :: "(nat \<Rightarrow> publication) \<Rightarrow> race \<Rightarrow> race \<Rightarrow> bool" for runs where
  acquire: "rc_phase s i = Waiting \<Longrightarrow> pb_lock (runs i) \<notin> rc_locks s \<Longrightarrow>
    race_step runs s (s\<lparr>rc_locks := insert (pb_lock (runs i)) (rc_locks s),
      rc_phase := (rc_phase s)(i := Checking (pb_plan (runs i)) [] []), rc_log := rc_log s @ [i]\<rparr>)"
| refuse: "rc_phase s i = Waiting \<Longrightarrow> pb_lock (runs i) \<in> rc_locks s \<Longrightarrow>
    race_step runs s (s\<lparr>rc_phase := (rc_phase s)(i := Refused)\<rparr>)"
| call: "active (rc_phase s i) \<Longrightarrow> (\<And>r. rc_phase s i \<noteq> Holding r) \<Longrightarrow>
    call_step (pb_stamp (runs i)) (rc_phase s i) (rc_fs s) = (phase, fs) \<Longrightarrow>
    race_step runs s (s\<lparr>rc_fs := fs, rc_phase := (rc_phase s)(i := phase)\<rparr>)"
| release: "rc_phase s i = Holding r \<Longrightarrow>
    race_step runs s (s\<lparr>rc_locks := rc_locks s - {pb_lock (runs i)}, rc_phase := (rc_phase s)(i := Left r)\<rparr>)"

definition race_start :: "file_system \<Rightarrow> race \<Rightarrow> bool" where
  "race_start fs s \<longleftrightarrow> s = \<lparr>rc_fs = fs, rc_locks = {}, rc_phase = (\<lambda>_. Waiting), rc_log = []\<rparr>"

abbreviation race_reach :: "(nat \<Rightarrow> publication) \<Rightarrow> file_system \<Rightarrow> race \<Rightarrow> bool" where
  "race_reach runs fs \<equiv> reach (race_start fs) (race_step runs)"

section \<open>A publication in steps is the publication\<close>

text \<open>What is left to do of a publication, in one go.\<close>

definition undo :: "path list \<Rightarrow> (path \<times> path) list \<Rightarrow> file_system \<Rightarrow> file_system" where
  "undo targets backups fs = fold (\<lambda>(target, backup) fs. snd (fs_rename backup target fs)) backups
     (fold (\<lambda>target fs. snd (remove_file target fs)) targets fs)"

definition outcome :: "(io_error + (path \<times> path) list) \<times> file_system \<Rightarrow> (io_error + path list) \<times> file_system" where
  "outcome r = (case r of (Inl e, fs) \<Rightarrow> (Inl e, fs) | (Inr backups, fs) \<Rightarrow> (Inr (map snd backups), fs))"

definition install_rest :: "u64 \<Rightarrow> planned_file \<Rightarrow> planned_file list \<Rightarrow> (path \<times> path) list \<Rightarrow> path list \<Rightarrow> file_system
    \<Rightarrow> (io_error + path list) \<times> file_system" where
  "install_rest stamp file plan backups placed fs =
     (case fs_rename (pl_staged file) (pl_target file) fs of
        (Inl e, fs1) \<Rightarrow> (Inl e, rollback placed backups fs1)
      | (Inr _, fs1) \<Rightarrow> outcome (publish_loop stamp plan backups (placed @ [pl_target file]) fs1))"

fun finish :: "u64 \<Rightarrow> phase \<Rightarrow> file_system \<Rightarrow> (io_error + path list) \<times> file_system" where
  "finish stamp (Checking plan backups placed) fs = outcome (publish_loop stamp plan backups placed fs)"
| "finish stamp (Saving file plan backups placed) fs =
     (let target = pl_target file; backup = backup_path target stamp
      in case fs_rename target backup fs of
           (Inl e, fs1) \<Rightarrow> (Inl e, rollback placed backups fs1)
         | (Inr _, fs1) \<Rightarrow> install_rest stamp file plan (backups @ [(target, backup)]) placed fs1)"
| "finish stamp (Installing file plan backups placed) fs = install_rest stamp file plan backups placed fs"
| "finish stamp (Removing targets backups e) fs = (Inl e, undo targets backups fs)"
| "finish stamp (Restoring backups e) fs = (Inl e, undo [] backups fs)"
| "finish stamp (Holding r) fs = (r, fs)"
| "finish stamp _ fs = (Inr [], fs)"

definition publish_run :: "publication \<Rightarrow> file_system \<Rightarrow> (io_error + path list) \<times> file_system" where
  "publish_run run = publish_files (pb_stamp run) (pb_plan run)"

lemma finish_start: "finish (pb_stamp run) (Checking (pb_plan run) [] []) fs = publish_run run fs"
  by (simp add: publish_run_def publish_files_def outcome_def)

lemma rollback_undo: "rollback placed backups fs = undo (rev placed) (rev backups) fs"
  by (simp add: rollback_def undo_def)

lemma finish_call:
  assumes "active phase" and "call_step stamp phase fs = (phase', fs')"
  shows "active phase'" and "finish stamp phase' fs' = finish stamp phase fs"
proof -
  note d = install_rest_def outcome_def undo_def rollback_undo Let_def
  have "active phase' \<and> finish stamp phase' fs' = finish stamp phase fs"
    using assms by (cases "(stamp, phase, fs)" rule: call_step.cases)
      (auto simp: d split: prod.splits sum.splits if_splits)
  then show "active phase'" "finish stamp phase' fs' = finish stamp phase fs" by auto
qed

section \<open>It ends\<close>

text \<open>The calls that are left, at most.\<close>

fun calls_left :: "phase \<Rightarrow> nat" where
  "calls_left (Checking plan backups placed) = 5 * length plan + length placed + length backups + 3"
| "calls_left (Saving file plan backups placed) = 5 * length plan + length placed + length backups + 7"
| "calls_left (Installing file plan backups placed) = 5 * length plan + length placed + length backups + 5"
| "calls_left (Removing targets backups e) = length targets + length backups + 2"
| "calls_left (Restoring backups e) = length backups + 1"
| "calls_left _ = 0"

lemma calls_decrease:
  assumes "active phase" and "\<And>r. phase \<noteq> Holding r" and "call_step stamp phase fs = (phase', fs')"
  shows "calls_left phase' < calls_left phase"
  using assms by (cases "(stamp, phase, fs)" rule: call_step.cases) (auto simp: Let_def split: prod.splits sum.splits if_splits)

text \<open>A process that holds its lock ends by its own calls.\<close>

lemma active_ends:
  assumes "active (rc_phase s i)"
  shows "\<exists>t r. (race_step runs)\<^sup>*\<^sup>* s t \<and> rc_phase t i = Left r"
  using assms
proof (induction "calls_left (rc_phase s i)" arbitrary: s rule: less_induct)
  case less
  show ?case
  proof (cases "\<exists>r. rc_phase s i = Holding r")
    case True
    then obtain r where "rc_phase s i = Holding r" by blast
    from release [OF this, of runs] show ?thesis by (intro exI conjI) (erule r_into_rtranclp, simp)
  next
    case False
    obtain phase fs where c: "call_step (pb_stamp (runs i)) (rc_phase s i) (rc_fs s) = (phase, fs)" by force
    let ?t = "s\<lparr>rc_fs := fs, rc_phase := (rc_phase s)(i := phase)\<rparr>"
    have st: "race_step runs s ?t" by (rule call) (use less.prems False c in auto)
    have "calls_left (rc_phase ?t i) < calls_left (rc_phase s i)" "active (rc_phase ?t i)"
      using calls_decrease [OF less.prems _ c] finish_call(1) [OF less.prems c] False by auto
    from less.hyps [OF this] st show ?thesis by (meson converse_rtranclp_into_rtranclp)
  qed
qed

section \<open>Under one lock: one after the other\<close>

definition serial :: "(nat \<Rightarrow> publication) \<Rightarrow> nat list \<Rightarrow> file_system \<Rightarrow> file_system" where
  "serial runs order fs = fold (\<lambda>i fs. snd (publish_run (runs i) fs)) order fs"

definition before :: "nat \<Rightarrow> nat list \<Rightarrow> nat list" where
  "before i order = takeWhile (\<lambda>j. j \<noteq> i) order"

lemma before_append: "before j (order @ [i]) = (if j \<in> set order then before j order else if j = i then order else order @ [i])"
  by (auto simp: before_def takeWhile_append)

text \<open>Either nobody holds the lock and the files are those of the serial runs, or its holder is the last
  of the log and what is left of its publication completes a run after the others.\<close>

definition serialised :: "(nat \<Rightarrow> publication) \<Rightarrow> path \<Rightarrow> file_system \<Rightarrow> race \<Rightarrow> bool" where
  "serialised runs lock fs s \<longleftrightarrow> distinct (rc_log s)
     \<and> (\<forall>i. i \<in> set (rc_log s) \<longleftrightarrow> rc_phase s i \<noteq> Waiting \<and> rc_phase s i \<noteq> Refused)
     \<and> (\<forall>i r. rc_phase s i = Left r \<longrightarrow> r = fst (publish_run (runs i) (serial runs (before i (rc_log s)) fs)))
     \<and> ((rc_locks s = {} \<and> (\<forall>i. \<not> active (rc_phase s i)) \<and> rc_fs s = serial runs (rc_log s) fs)
      \<or> (\<exists>order i. rc_log s = order @ [i] \<and> rc_locks s = {lock} \<and> (\<forall>j. active (rc_phase s j) \<longleftrightarrow> j = i)
          \<and> finish (pb_stamp (runs i)) (rc_phase s i) (rc_fs s) = publish_run (runs i) (serial runs order fs)))"

lemma not_started: "\<not> active phase \<Longrightarrow> phase \<noteq> Waiting \<Longrightarrow> phase \<noteq> Refused \<Longrightarrow> \<exists>r. phase = Left r"
  by (cases phase) auto

lemma serialised_acquire:
  assumes "serialised runs lock fs s" and "rc_phase s i = Waiting" and "lock \<notin> rc_locks s"
  shows "serialised runs lock fs (s\<lparr>rc_locks := insert lock (rc_locks s),
    rc_phase := (rc_phase s)(i := Checking (pb_plan (runs i)) [] []), rc_log := rc_log s @ [i]\<rparr>)"
proof -
  from assms have i: "i \<notin> set (rc_log s)" by (auto simp: serialised_def)
  have "j \<in> set (rc_log s)" if "rc_phase s j = Left r" for j r using assms(1) that by (auto simp: serialised_def)
  with assms i show ?thesis
    by (auto simp: serialised_def before_append publish_run_def publish_files_def outcome_def)
qed

lemma serialised_refuse:
  assumes "serialised runs lock fs s" and "rc_phase s i = Waiting"
  shows "serialised runs lock fs (s\<lparr>rc_phase := (rc_phase s)(i := Refused)\<rparr>)"
proof -
  let ?t = "s\<lparr>rc_phase := (rc_phase s)(i := Refused)\<rparr>"
  have a: "active (rc_phase ?t j) \<longleftrightarrow> active (rc_phase s j)" "active (rc_phase s j) \<Longrightarrow> rc_phase ?t j = rc_phase s j"
    "rc_phase ?t j = Left r \<longleftrightarrow> rc_phase s j = Left r" for j r using assms(2) by auto
  have w: "rc_phase ?t j \<noteq> Waiting \<and> rc_phase ?t j \<noteq> Refused \<longleftrightarrow> rc_phase s j \<noteq> Waiting \<and> rc_phase s j \<noteq> Refused" for j
    using assms(2) by simp
  have s: "rc_log ?t = rc_log s" "rc_locks ?t = rc_locks s" "rc_fs ?t = rc_fs s" by simp_all
  have d: "(rc_locks s = {} \<and> (\<forall>i. \<not> active (rc_phase s i)) \<and> rc_fs s = serial runs (rc_log s) fs) \<or>
     (\<exists>order i. rc_log s = order @ [i] \<and> rc_locks s = {lock} \<and> (\<forall>j. active (rc_phase s j) \<longleftrightarrow> j = i)
          \<and> finish (pb_stamp (runs i)) (rc_phase ?t i) (rc_fs s) = publish_run (runs i) (serial runs order fs))"
    using assms(1) unfolding serialised_def
  proof (elim conjE disjE exE)
    fix order k
    assume k: "rc_log s = order @ [k]" "rc_locks s = {lock}" "\<forall>j. active (rc_phase s j) \<longleftrightarrow> j = k"
      "finish (pb_stamp (runs k)) (rc_phase s k) (rc_fs s) = publish_run (runs k) (serial runs order fs)"
    then have "rc_phase ?t k = rc_phase s k" by (intro a(2)) simp
    with k show ?thesis by simp
  qed simp
  from assms(1) have c: "distinct (rc_log s)"
    "\<forall>i. i \<in> set (rc_log s) \<longleftrightarrow> rc_phase s i \<noteq> Waiting \<and> rc_phase s i \<noteq> Refused"
    "\<forall>i r. rc_phase s i = Left r \<longrightarrow> r = fst (publish_run (runs i) (serial runs (before i (rc_log s)) fs))"
    by (simp_all add: serialised_def)
  show ?thesis unfolding serialised_def s a(1,3) w by (intro conjI c d)
qed

lemma serialised_call:
  assumes "serialised runs lock fs s" and "active (rc_phase s i)"
    and "call_step (pb_stamp (runs i)) (rc_phase s i) (rc_fs s) = (phase, fs')"
  shows "serialised runs lock fs (s\<lparr>rc_fs := fs', rc_phase := (rc_phase s)(i := phase)\<rparr>)"
proof -
  note f = finish_call [OF assms(2,3)]
  have p: "phase \<noteq> Waiting" "phase \<noteq> Refused" "\<And>r. phase \<noteq> Left r" "rc_phase s i \<noteq> Waiting" "rc_phase s i \<noteq> Refused"
    using f(1) assms(2) by auto
  with assms(1,2) f show ?thesis by (auto simp: serialised_def)
qed

lemma serialised_release:
  assumes "serialised runs lock fs s" and "rc_phase s i = Holding r"
  shows "serialised runs lock fs (s\<lparr>rc_locks := rc_locks s - {lock}, rc_phase := (rc_phase s)(i := Left r)\<rparr>)"
proof -
  have "active (rc_phase s i)" using assms(2) by simp
  with assms(1) obtain order where o: "rc_log s = order @ [i]" "rc_locks s = {lock}"
    "\<forall>j. active (rc_phase s j) \<longleftrightarrow> j = i" "finish (pb_stamp (runs i)) (rc_phase s i) (rc_fs s) = publish_run (runs i) (serial runs order fs)"
    by (auto simp: serialised_def)
  then have r: "publish_run (runs i) (serial runs order fs) = (r, rc_fs s)" using assms(2) by simp
  have f: "rc_fs s = serial runs (rc_log s) fs" unfolding o(1) using r by (simp add: serial_def)
  have i: "i \<notin> set order" using assms(1) o(1) by (simp add: serialised_def)
  have b: "before i (rc_log s) = order" using i o(1) by (simp add: before_append)
  have l: "rc_phase s j = Left q \<Longrightarrow> q = fst (publish_run (runs j) (serial runs (before j (rc_log s)) fs))" for j q
    using assms(1) by (auto simp: serialised_def)
  have m: "distinct (rc_log s)" "j \<in> set (rc_log s) \<longleftrightarrow> rc_phase s j \<noteq> Waiting \<and> rc_phase s j \<noteq> Refused" for j
    using assms(1) by (auto simp: serialised_def)
  have n: "i \<in> set (rc_log s)" by (simp add: o(1))
  show ?thesis unfolding serialised_def using f b l m n r o(2,3) by auto
qed

lemma serialised_step:
  assumes "serialised runs lock fs s" and "race_step runs s t" and "\<And>i. pb_lock (runs i) = lock"
  shows "serialised runs lock fs t"
  using assms(2)
proof cases
  case (acquire i)
  with serialised_acquire [OF assms(1)] assms(3) show ?thesis by simp
next
  case (refuse i)
  with serialised_refuse [OF assms(1)] show ?thesis by simp
next
  case (call i phase fs)
  with serialised_call [OF assms(1)] show ?thesis by simp
next
  case (release i r)
  with serialised_release [OF assms(1)] assms(3) show ?thesis by simp
qed

lemma serialised_start: "race_start fs s \<Longrightarrow> serialised runs lock fs s"
  by (simp add: race_start_def serialised_def serial_def)

interpretation race: guarded_system "race_start fs"
    "\<lambda>s t. race_step runs s t \<and> (\<forall>i. pb_lock (runs i) = lock)" "serialised runs lock fs"
  for runs fs lock
  by unfold_locales (auto intro: serialised_start serialised_step)

lemma race_reach_serialised:
  assumes "race_reach runs fs s" and "\<And>i. pb_lock (runs i) = lock"
  shows "serialised runs lock fs s"
  using race.reach_inv [of fs runs lock s] assms by (simp add: assms(2))

section \<open>Schedules\<close>

text \<open>The next step of one process, and the steps of a schedule.\<close>

definition turn :: "(nat \<Rightarrow> publication) \<Rightarrow> nat \<Rightarrow> race \<Rightarrow> race" where
  "turn runs i s = (case rc_phase s i of
     Waiting \<Rightarrow>
       if pb_lock (runs i) \<in> rc_locks s then s\<lparr>rc_phase := (rc_phase s)(i := Refused)\<rparr>
       else s\<lparr>rc_locks := insert (pb_lock (runs i)) (rc_locks s),
         rc_phase := (rc_phase s)(i := Checking (pb_plan (runs i)) [] []), rc_log := rc_log s @ [i]\<rparr>
   | Holding r \<Rightarrow> s\<lparr>rc_locks := rc_locks s - {pb_lock (runs i)}, rc_phase := (rc_phase s)(i := Left r)\<rparr>
   | phase \<Rightarrow> (case call_step (pb_stamp (runs i)) phase (rc_fs s) of
       (phase', fs) \<Rightarrow> s\<lparr>rc_fs := fs, rc_phase := (rc_phase s)(i := phase')\<rparr>))"

definition schedule :: "(nat \<Rightarrow> publication) \<Rightarrow> nat list \<Rightarrow> file_system \<Rightarrow> race" where
  "schedule runs order fs = fold (turn runs) order \<lparr>rc_fs = fs, rc_locks = {}, rc_phase = (\<lambda>_. Waiting), rc_log = []\<rparr>"

lemma turn_step: "turn runs i s = s \<or> race_step runs s (turn runs i s)"
proof (cases "active (rc_phase s i)")
  case True
  show ?thesis
  proof (cases "\<exists>r. rc_phase s i = Holding r")
    case True
    then obtain r where r: "rc_phase s i = Holding r" by blast
    from race_step.release [OF r, of runs] show ?thesis by (simp add: turn_def r)
  next
    case False
    obtain phase fs where c: "call_step (pb_stamp (runs i)) (rc_phase s i) (rc_fs s) = (phase, fs)" by force
    with True False have "turn runs i s = s\<lparr>rc_fs := fs, rc_phase := (rc_phase s)(i := phase)\<rparr>"
      by (cases "rc_phase s i") (simp_all add: turn_def)
    moreover have "race_step runs s (s\<lparr>rc_fs := fs, rc_phase := (rc_phase s)(i := phase)\<rparr>)"
      by (rule race_step.call) (use True False c in auto)
    ultimately show ?thesis by simp
  qed
next
  case False
  then show ?thesis
  proof (cases "rc_phase s i")
    case Waiting
    then show ?thesis using acquire [of s i runs] refuse [of s i runs] by (auto simp: turn_def)
  qed (simp_all add: turn_def fun_upd_idem)
qed

lemma schedule_reach: "race_reach runs fs (schedule runs order fs)"
proof -
  have "reach I (race_step runs) s \<Longrightarrow> reach I (race_step runs) (fold (turn runs) order s)" for I s
  proof (induction order arbitrary: s)
    case (Cons i order)
    then show ?case using turn_step [of runs i s] by (cases "turn runs i s = s") (auto intro: reach_step)
  qed simp
  then show ?thesis unfolding schedule_def by (simp add: race_start_def reach_init)
qed

text \<open>C18: processes that publish under one lock, interleaved at every call to the system, are as if they
  had run \<open>publish_files\<close> one after the other: never two of them hold the lock, one that holds it can
  end by its own calls, and when nobody holds it the files and the results are those of the runs in
  the order of the log; those that were refused have changed nothing.\<close>

theorem publications_serialised:
  assumes "race_reach runs fs s" and "\<And>i. pb_lock (runs i) = lock"
  shows "(\<forall>i j. active (rc_phase s i) \<and> active (rc_phase s j) \<longrightarrow> i = j)
    \<and> (\<forall>i. active (rc_phase s i) \<longrightarrow> (\<exists>t r. (race_step runs)\<^sup>*\<^sup>* s t \<and> rc_phase t i = Left r))
    \<and> ((\<forall>i. \<not> active (rc_phase s i)) \<longrightarrow> rc_fs s = serial runs (rc_log s) fs)
    \<and> (\<forall>i r. rc_phase s i = Left r \<longrightarrow> i \<in> set (rc_log s)
        \<and> r = fst (publish_run (runs i) (serial runs (before i (rc_log s)) fs)))
    \<and> (\<forall>i. rc_phase s i = Refused \<longrightarrow> i \<notin> set (rc_log s)) \<and> distinct (rc_log s)"
  using race_reach_serialised [OF assms] active_ends [of s _ runs]
  by (auto simp: serialised_def)

text \<open>Three processes with one lock: the second asks while the first publishes, the third afterwards.\<close>

definition trio_runs :: "nat \<Rightarrow> publication" where
  "trio_runs i = \<lparr>pb_lock = [''l''], pb_stamp = of_nat i,
     pb_plan = [\<lparr>pl_staged = [''d'', if i = 0 then ''x'' else ''y''], pl_target = [''d'', ''t''], pl_mode = 0, pl_owner = (0, 0), pl_fingerprint = None\<rparr>]\<rparr>"

definition trio_tree :: file_system where
  "trio_tree = \<lparr>fs_nodes = [[''d''] \<mapsto> \<lparr>fn_kind = Dir, fn_mode = 0, fn_uid = 0, fn_gid = 0, fn_acl = None\<rparr>,
       [''d'', ''x''] \<mapsto> \<lparr>fn_kind = Regular [1], fn_mode = 0, fn_uid = 0, fn_gid = 0, fn_acl = None\<rparr>,
       [''d'', ''y''] \<mapsto> \<lparr>fn_kind = Regular [2], fn_mode = 0, fn_uid = 0, fn_gid = 0, fn_acl = None\<rparr>],
     fs_faults = (\<lambda>_. False), fs_calls = 0, fs_cwd = [], fs_listing = (\<lambda>_. []), fs_locked = {}\<rparr>"

definition trio_end :: race where
  "trio_end = schedule trio_runs [0, 0, 1, 0, 0, 0, 2, 2, 2, 2, 2, 2] trio_tree"

theorem publications_serialised_witness:
  "rc_log trio_end = [0, 2] \<and> rc_fs trio_end = serial trio_runs [0, 2] trio_tree
    \<and> map_option fn_kind (fs_nodes (rc_fs trio_end) [''d'', ''t'']) = Some (Regular [2])
    \<and> map_option fn_kind (fs_nodes (rc_fs trio_end) [''d'', ''t.bak.2'']) = Some (Regular [1])
    \<and> rc_phase trio_end 1 = Refused \<and> Inr [[''d'', ''t.bak.2'']] = fst (publish_run (trio_runs 2) (serial trio_runs [0] trio_tree))"
proof -
  have r: "race_reach trio_runs trio_tree trio_end" unfolding trio_end_def by (rule schedule_reach)
  have l: "pb_lock (trio_runs i) = [''l'']" for i by (simp add: trio_runs_def)
  have e: "rc_log trio_end = [0, 2]" "rc_locks trio_end = {}" "rc_phase trio_end 1 = Refused"
    "rc_phase trio_end 2 = Left (Inr [[''d'', ''t.bak.2'']])" "rc_phase trio_end 0 = Left (Inr [])"
    "map_option fn_kind (fs_nodes (rc_fs trio_end) [''d'', ''t'']) = Some (Regular [2])"
    "map_option fn_kind (fs_nodes (rc_fs trio_end) [''d'', ''t.bak.2'']) = Some (Regular [1])" by code_simp+
  note p = publications_serialised [OF r l]
  have "i = 0 \<or> i = 2" if "active (rc_phase trio_end i)" for i
  proof -
    have "serialised trio_runs [''l''] trio_tree trio_end" using race_reach_serialised [OF r l] .
    then have "i \<in> set (rc_log trio_end)" using that by (auto simp: serialised_def)
    then show ?thesis by (simp add: e(1))
  qed
  then have "\<forall>i. \<not> active (rc_phase trio_end i)" using e(4,5) by (metis active.simps(2))
  with p have "rc_fs trio_end = serial trio_runs (rc_log trio_end) trio_tree" by blast
  moreover have "Inr [[''d'', ''t.bak.2'']] = fst (publish_run (trio_runs 2) (serial trio_runs (before 2 (rc_log trio_end)) trio_tree))"
    using p e(4) by blast
  moreover have "before 2 [0, 2] = [0 :: nat]" by (simp add: before_def)
  ultimately show ?thesis using e by simp
qed

end
