(* ===== verification/Lock_Gaps.thy ===== *)
theory Lock_Gaps
  imports Publish_Race Cert_Example
begin

text \<open>
  What the locks of the certificate runs do not cover: \<open>init\<close> and \<open>certs renew\<close> publish into the same
  directory under different locks, and a renewal decides about the authority before it takes its lock.
  In both cases runs that all succeed leave a set of files that the program's own verification refuses.
\<close>

section \<open>What is installed\<close>





section \<open>Two locks for one directory\<close>













section \<open>A pin before the lock\<close>

text \<open>\<open>renew_certificates\<close> before and after it takes the lock.\<close>

type_synonym prepared = "validated_ca \<times> (u32 \<times> u32) \<times> (string \<times> string) \<times> bool"

definition renew_prepare :: "pki \<Rightarrow> host \<Rightarrow> renew_request \<Rightarrow> prepared io" where
  "renew_prepare k h req =
     and_do (give (account_by_name h (rq_api_user req))) (\<lambda>api.
     and_do (load_validated_ca k (cln_source_paths_new (rq_cln_dir req))) (\<lambda>validated.
     and_do (renew_identity k req) (\<lambda>identity.
     let pr = proc h; dir = rq_cert_dir req;
         owner = (case rq_owner_override req of Some w \<Rightarrow> w | None \<Rightarrow> (aa_uid api, aa_gid api))
     in and_do (ensure_secure_dir pr dir 0x1C0 owner (with_admin h [0, euid pr, fst owner])) (\<lambda>_.
        and_do (pin_installed k req validated (path_join dir ''ca.pem'')) (\<lambda>install_ca.
        give (Inr (validated, owner, identity, install_ca)))))))"

definition renew_locked :: "pki \<Rightarrow> host \<Rightarrow> renew_request \<Rightarrow> prepared \<Rightarrow> renew_summary io" where
  "renew_locked k h req = (\<lambda>(validated, owner, identity, install_ca).
     with_lock (proc h) (rq_cert_dir req) (with_stage k (proc h) (rq_cert_dir req)
       (renew_staged k (proc h) req validated owner identity install_ca)))"

lemma renew_parts: "renew_certificates k h req = and_do (renew_prepare k h req) (renew_locked k h req)"
  by (rule ext) (simp add: renew_certificates_def renew_prepare_def renew_locked_def and_do_def give_def Let_def
      split: sum.split prod.split)













end
